(* ===== verification/Prelude.thy ===== *)
theory Prelude
  imports Main "HOL-Library.Word" "HOL-Library.Monad_Syntax"
begin

text \<open>
  Shared vocabulary of the development.  Rust's fixed-width unsigned integers are words of the
  same width.  The workspace is built with \<^verbatim>\<open>overflow-checks = true\<close>, so an unadorned
  \<^verbatim>\<open>+\<close>, \<^verbatim>\<open>-\<close> or \<^verbatim>\<open>*\<close> that
  overflows panics: such an operation is written with the \<open>checked_\<close> function and a function
  that may panic returns an option, where \<open>None\<close> is the panic.  The \<open>saturating_\<close> functions
  are Rust's methods of the same name.  Lengths and positions (\<^verbatim>\<open>usize\<close>) are natural
  numbers; the places where the 64-bit bound of \<^verbatim>\<open>usize\<close> matters write it out.
\<close>

section \<open>Integers\<close>

type_synonym u8 = "8 word"
type_synonym u16 = "16 word"
type_synonym u32 = "32 word"
type_synonym u64 = "64 word"
type_synonym u128 = "128 word"
type_synonym bytes = "u8 list"

named_theorems word_nat \<open>facts that move word arithmetic to the natural numbers\<close>

definition checked_add :: "'a::len word \<Rightarrow> 'a word \<Rightarrow> 'a word option" where
  "checked_add a b = (if unat a + unat b < 2 ^ LENGTH('a) then Some (a + b) else None)"

definition checked_sub :: "'a::len word \<Rightarrow> 'a word \<Rightarrow> 'a word option" where
  "checked_sub a b = (if b \<le> a then Some (a - b) else None)"

definition checked_mul :: "'a::len word \<Rightarrow> 'a word \<Rightarrow> 'a word option" where
  "checked_mul a b = (if unat a * unat b < 2 ^ LENGTH('a) then Some (a * b) else None)"

definition checked_div :: "'a::len word \<Rightarrow> 'a word \<Rightarrow> 'a word option" where
  "checked_div a b = (if b = 0 then None else Some (a div b))"

definition saturating_add :: "'a::len word \<Rightarrow> 'a word \<Rightarrow> 'a word" where
  "saturating_add a b = (case checked_add a b of Some c \<Rightarrow> c | None \<Rightarrow> - 1)"

definition saturating_sub :: "'a::len word \<Rightarrow> 'a word \<Rightarrow> 'a word" where
  "saturating_sub a b = (if b \<le> a then a - b else 0)"

definition saturating_mul :: "'a::len word \<Rightarrow> 'a word \<Rightarrow> 'a word" where
  "saturating_mul a b = (case checked_mul a b of Some c \<Rightarrow> c | None \<Rightarrow> - 1)"

lemma unat_max_word: "unat (- 1 :: 'a::len word) = 2 ^ LENGTH('a) - 1"
  by (simp add: unsigned_minus_1_eq_mask mask_eq_exp_minus_1)

lemma unat_lt_power [simp]: "unat (a :: 'a::len word) < 2 ^ LENGTH('a)"
  by (rule unsigned_less)

lemma unat_le_max: "unat (a :: 'a::len word) \<le> 2 ^ LENGTH('a) - 1"
  using unat_lt_power [of a] by linarith

lemma checked_add_Some_iff [word_nat]:
  "checked_add a b = Some c \<longleftrightarrow> unat a + unat b = unat c"
  for a b c :: "'a::len word"
proof
  assume "unat a + unat b = unat c"
  moreover from this have "unat a + unat b < 2 ^ LENGTH('a)"
    by simp
  ultimately show "checked_add a b = Some c"
    by (simp add: checked_add_def word_unat_eq_iff unat_word_ariths)
qed (auto simp: checked_add_def unat_word_ariths split: if_splits)

lemma checked_add_None_iff [word_nat]:
  "checked_add a b = None \<longleftrightarrow> 2 ^ LENGTH('a) \<le> unat a + unat b"
  for a b :: "'a::len word"
  by (auto simp: checked_add_def)

lemma checked_sub_Some_iff [word_nat]:
  "checked_sub a b = Some c \<longleftrightarrow> unat a = unat b + unat c"
  for a b c :: "'a::len word"
proof
  assume h: "unat a = unat b + unat c"
  then have "b \<le> a" by (simp add: word_le_nat_alt)
  with h show "checked_sub a b = Some c"
    by (simp add: checked_sub_def word_unat_eq_iff unat_sub)
qed (auto simp: checked_sub_def unat_sub word_le_nat_alt split: if_splits)

lemma checked_sub_None_iff [word_nat]:
  "checked_sub a b = None \<longleftrightarrow> unat a < unat b"
  by (auto simp: checked_sub_def word_le_nat_alt)

lemma checked_mul_Some_iff [word_nat]:
  "checked_mul a b = Some c \<longleftrightarrow> unat a * unat b = unat c"
  for a b c :: "'a::len word"
proof
  assume "unat a * unat b = unat c"
  moreover from this have "unat a * unat b < 2 ^ LENGTH('a)"
    by simp
  ultimately show "checked_mul a b = Some c"
    by (simp add: checked_mul_def word_unat_eq_iff unat_word_ariths)
qed (auto simp: checked_mul_def unat_word_ariths split: if_splits)

lemma checked_div_Some_iff [word_nat]:
  "checked_div a b = Some c \<longleftrightarrow> b \<noteq> 0 \<and> c = a div b"
  by (auto simp: checked_div_def)

lemma unat_saturating_add [word_nat]:
  "unat (saturating_add a b) = min (unat a + unat b) (2 ^ LENGTH('a) - 1)"
  for a b :: "'a::len word"
proof (cases "checked_add a b")
  case None
  then have "2 ^ LENGTH('a) \<le> unat a + unat b"
    by (simp add: checked_add_None_iff)
  with None show ?thesis
    by (simp add: saturating_add_def unat_max_word)
next
  case (Some c)
  then have c: "unat a + unat b = unat c"
    by (simp add: checked_add_Some_iff)
  with Some unat_le_max [of c] show ?thesis
    by (simp add: saturating_add_def)
qed

lemma unat_saturating_sub [word_nat]:
  "unat (saturating_sub a b) = unat a - unat b"
  by (auto simp: saturating_sub_def unat_sub word_le_nat_alt)

lemma unat_saturating_mul [word_nat]:
  "unat (saturating_mul a b) = min (unat a * unat b) (2 ^ LENGTH('a) - 1)"
  for a b :: "'a::len word"
proof (cases "checked_mul a b")
  case None
  then have "2 ^ LENGTH('a) \<le> unat a * unat b"
    by (simp add: checked_mul_def split: if_splits)
  with None show ?thesis
    by (simp add: saturating_mul_def unat_max_word)
next
  case (Some c)
  then have c: "unat a * unat b = unat c"
    by (simp add: checked_mul_Some_iff)
  with Some unat_le_max [of c] show ?thesis
    by (simp add: saturating_mul_def)
qed

lemmas word_order_nat [word_nat] = word_le_nat_alt word_less_nat_alt

lemma unat_min_word [word_nat]: "unat (min a b) = min (unat a) (unat b)"
  by (simp add: min_def word_le_nat_alt)

lemma unat_max_of [word_nat]: "unat (max a b) = max (unat a) (unat b)"
  by (simp add: max_def word_le_nat_alt)

lemma unat_widen_64_128 [simp]: "unat (ucast (a :: u64) :: u128) = unat a"
  by (simp add: unsigned_ucast_eq take_bit_nat_eq_self unsigned_less [THEN less_le_trans])

lemma u64_bound: "unat (a :: u64) \<le> 2 ^ 64 - 1"
  using unat_lt_power [of a] by simp

lemma u64_less: "unat (a :: u64) < 2 ^ 64"
  using unat_lt_power [of a] by simp

lemma unat_narrow_128_64:
  "unat (ucast (a :: u128) :: u64) = unat a mod 2 ^ 64"
  by (simp add: unsigned_ucast_eq take_bit_eq_mod)

section \<open>Scaled multiplication\<close>

text \<open>\<open>mul_div a b c\<close> is the source's \<^verbatim>\<open>((a as u128) * b / c) as u64\<close>, panics included.\<close>

definition mul_div :: "u64 \<Rightarrow> u128 \<Rightarrow> u128 \<Rightarrow> u64 option" where
  "mul_div a b c = do { p \<leftarrow> checked_mul (ucast a) b; q \<leftarrow> checked_div p c; Some (ucast q) }"

lemma mul_div_eq:
  assumes "c \<noteq> 0" and "unat b \<le> 2 ^ 64"
  shows "mul_div a b c = Some (word_of_nat (unat a * unat b div unat c))"
proof -
  have "unat a * unat b < 2 ^ 64 * 2 ^ 64"
    using mult_less_le_imp_less [OF u64_less [of a] assms(2)] assms(2)
    by (cases "unat b = 0") simp_all
  then have m: "checked_mul (ucast a) b = Some (word_of_nat (unat a * unat b))"
    by (simp add: checked_mul_Some_iff unat_of_nat del: of_nat_mult)
  have "unat (word_of_nat (unat a * unat b) div c :: u128) = unat a * unat b div unat c"
    using \<open>unat a * unat b < 2 ^ 64 * 2 ^ 64\<close> by (simp add: unat_div unat_of_nat del: of_nat_mult)
  then have "ucast (word_of_nat (unat a * unat b) div c :: u128) =
      (word_of_nat (unat a * unat b div unat c) :: u64)"
    by (metis of_nat_unat)
  with assms(1) show ?thesis
    by (simp add: mul_div_def m checked_div_def del: of_nat_mult)
qed

lemma mul_div_le:
  assumes "c \<noteq> 0" and "unat b \<le> 2 ^ 64" and "unat a * unat b div unat c \<le> unat (k :: u64)"
  shows "\<exists>r. mul_div a b c = Some r \<and> unat r = unat a * unat b div unat c"
proof -
  have "unat a * unat b div unat c < 2 ^ 64"
    using assms(3) u64_less [of k] by linarith
  then show ?thesis
    by (simp add: mul_div_eq [OF assms(1,2)] unat_of_nat)
qed

section \<open>Byte strings\<close>

definition ascii :: "string \<Rightarrow> bytes" where
  "ascii s = map (\<lambda>c. word_of_nat (of_char c)) s"

lemma length_ascii [simp]: "length (ascii s) = length s"
  by (simp add: ascii_def)

text \<open>The check of \<^verbatim>\<open>String::from_utf8\<close>: well-formed UTF-8, shortest forms, no surrogates.\<close>

definition utf8_tail :: "u8 \<Rightarrow> bool" where
  "utf8_tail b \<longleftrightarrow> 128 \<le> b \<and> b \<le> 191"

fun utf8_valid :: "bytes \<Rightarrow> bool" where
  "utf8_valid [] = True"
| "utf8_valid (a # bs) =
     (if a \<le> 127 then utf8_valid bs
      else if 194 \<le> a \<and> a \<le> 223 then
        (case bs of b # rest \<Rightarrow> utf8_tail b \<and> utf8_valid rest | _ \<Rightarrow> False)
      else if 224 \<le> a \<and> a \<le> 239 then
        (case bs of b # c # rest \<Rightarrow>
           utf8_tail b \<and> utf8_tail c \<and> (a = 224 \<longrightarrow> 160 \<le> b) \<and> (a = 237 \<longrightarrow> b \<le> 159) \<and> utf8_valid rest
         | _ \<Rightarrow> False)
      else if 240 \<le> a \<and> a \<le> 244 then
        (case bs of b # c # d # rest \<Rightarrow>
           utf8_tail b \<and> utf8_tail c \<and> utf8_tail d \<and> (a = 240 \<longrightarrow> 144 \<le> b) \<and> (a = 244 \<longrightarrow> b \<le> 143) \<and>
           utf8_valid rest
         | _ \<Rightarrow> False)
      else False)"

text \<open>\<^verbatim>\<open>to_le_bytes\<close> and \<^verbatim>\<open>from_le_bytes\<close>, by value.\<close>

primrec le_of_nat :: "nat \<Rightarrow> nat \<Rightarrow> bytes" where
  "le_of_nat 0 v = []"
| "le_of_nat (Suc n) v = word_of_nat v # le_of_nat n (v div 256)"

primrec nat_of_le :: "bytes \<Rightarrow> nat" where
  "nat_of_le [] = 0"
| "nat_of_le (b # bs) = unat b + 256 * nat_of_le bs"

lemma length_le_of_nat [simp]: "length (le_of_nat n v) = n"
  by (induction n arbitrary: v) simp_all

lemma nat_of_le_bound: "nat_of_le bs < 256 ^ length bs"
proof (induction bs)
  case (Cons b bs)
  have "unat b < 256" using unat_lt_power [of b] by simp
  with Cons show ?case by simp
qed simp

lemma nat_of_le_of_nat: "v < 256 ^ n \<Longrightarrow> nat_of_le (le_of_nat n v) = v"
proof (induction n arbitrary: v)
  case (Suc n)
  then have "v div 256 < 256 ^ n"
    by (simp add: less_mult_imp_div_less mult.commute)
  with Suc.IH [of "v div 256"] show ?case
    by (simp add: unat_of_nat)
qed simp

lemma le_of_nat_of_le: "le_of_nat (length bs) (nat_of_le bs) = bs"
proof (induction bs)
  case (Cons b bs)
  have b: "unat b < 256" using unat_lt_power [of b] by simp
  have "(word_of_nat (unat b + 256 * nat_of_le bs) :: u8) = b"
    using b by (simp add: word_unat_eq_iff unat_of_nat del: of_nat_add of_nat_mult)
  with b Cons show ?case by simp
qed simp

end
