(* ===== verification/Codec.thy ===== *)
theory Codec
  imports Prelude
begin

text \<open>
  The canonical codec, \<^verbatim>\<open>src/crates/qtv-codec/src/lib.rs\<close>.  An encoder is its buffer and
  every \<open>put_\<close> operation returns the extended buffer; a decoder is its input and a position, and
  every \<open>get_\<close> operation returns an error or a value with the advanced decoder.  A decoder never
  runs past its input, so \<open>consumes d bs d'\<close> (decoder \<open>d'\<close> is \<open>d\<close> moved over exactly the bytes
  \<open>bs\<close>) describes every successful read.  The interface that every encodable type of the chain
  offers is the locale \<open>wire_codec\<close> (what was encoded decodes back) and its extension
  \<open>canonical_codec\<close> (what decodes is the one encoding of its value).
\<close>

section \<open>Errors, encoder and decoder\<close>

datatype codec_error =
    Truncated nat nat
  | LengthOverrun u64 nat
  | TrailingBytes nat
  | InvalidOption u8
  | UnknownTag u8

type_synonym encoder = bytes

record decoder =
  dinput :: bytes
  dpos :: nat

type_synonym ('e, 'a) reader = "decoder \<Rightarrow> 'e + 'a \<times> decoder"
type_synonym 'a decode = "(codec_error, 'a) reader"

text \<open>\<open>puts\<close> runs a sequence of writes, the source's consecutive statements.\<close>

primrec puts :: "(encoder \<Rightarrow> encoder) list \<Rightarrow> encoder \<Rightarrow> encoder" where
  "puts [] buf = buf"
| "puts (p # ps) buf = puts ps (p buf)"

definition put_u8 :: "u8 \<Rightarrow> encoder \<Rightarrow> encoder" where
  "put_u8 v buf = buf @ [v]"

definition put_u16 :: "u16 \<Rightarrow> encoder \<Rightarrow> encoder" where
  "put_u16 v buf = buf @ le_of_nat 2 (unat v)"

definition put_u32 :: "u32 \<Rightarrow> encoder \<Rightarrow> encoder" where
  "put_u32 v buf = buf @ le_of_nat 4 (unat v)"

definition put_u64 :: "u64 \<Rightarrow> encoder \<Rightarrow> encoder" where
  "put_u64 v buf = buf @ le_of_nat 8 (unat v)"

definition put_u128 :: "u128 \<Rightarrow> encoder \<Rightarrow> encoder" where
  "put_u128 v buf = buf @ le_of_nat 16 (unat v)"

definition put_bytes :: "bytes \<Rightarrow> encoder \<Rightarrow> encoder" where
  "put_bytes bs = puts [put_u64 (word_of_nat (length bs)), (\<lambda>buf. buf @ bs)]"

definition put_tag :: "u8 \<Rightarrow> encoder \<Rightarrow> encoder" where
  "put_tag tag buf = buf @ [tag]"

definition new_decoder :: "bytes \<Rightarrow> decoder" where
  "new_decoder input = \<lparr>dinput = input, dpos = 0\<rparr>"

definition remaining :: "decoder \<Rightarrow> nat" where
  "remaining d = length (dinput d) - dpos d"

definition take_bytes :: "nat \<Rightarrow> bytes decode" where
  "take_bytes n d =
     (let finish = dpos d + n in
      if 2 ^ 64 \<le> finish then Inl (Truncated n (remaining d))
      else if length (dinput d) < finish then Inl (Truncated n (remaining d))
      else Inr (take n (drop (dpos d) (dinput d)), d\<lparr>dpos := finish\<rparr>))"

definition dret :: "'a \<Rightarrow> ('e, 'a) reader" where
  "dret x d = Inr (x, d)"

definition dfail :: "'e \<Rightarrow> ('e, 'a) reader" where
  "dfail e d = Inl e"

definition dbind :: "('e, 'a) reader \<Rightarrow> ('a \<Rightarrow> ('e, 'b) reader) \<Rightarrow> ('e, 'b) reader" where
  "dbind p f d = (case p d of Inl e \<Rightarrow> Inl e | Inr (x, d') \<Rightarrow> f x d')"

text \<open>The question mark of a caller with an error type of its own converts the error.\<close>

definition derr :: "('e \<Rightarrow> 'f) \<Rightarrow> ('e, 'a) reader \<Rightarrow> ('f, 'a) reader" where
  "derr convert p d = (case p d of Inl e \<Rightarrow> Inl (convert e) | Inr r \<Rightarrow> Inr r)"

definition get_u8 :: "u8 decode" where
  "get_u8 = dbind (take_bytes 1) (\<lambda>bs. dret (hd bs))"

definition get_u16 :: "u16 decode" where
  "get_u16 = dbind (take_bytes 2) (\<lambda>bs. dret (word_of_nat (nat_of_le bs)))"

definition get_u32 :: "u32 decode" where
  "get_u32 = dbind (take_bytes 4) (\<lambda>bs. dret (word_of_nat (nat_of_le bs)))"

definition get_u64 :: "u64 decode" where
  "get_u64 = dbind (take_bytes 8) (\<lambda>bs. dret (word_of_nat (nat_of_le bs)))"

definition get_u128 :: "u128 decode" where
  "get_u128 = dbind (take_bytes 16) (\<lambda>bs. dret (word_of_nat (nat_of_le bs)))"

definition get_bytes :: "bytes decode" where
  "get_bytes = dbind get_u64 (\<lambda>len d.
     if remaining d < unat len then Inl (LengthOverrun len (remaining d))
     else take_bytes (unat len) d)"

definition get_tag :: "u8 decode" where
  "get_tag = get_u8"

definition finish :: "decoder \<Rightarrow> codec_error + unit" where
  "finish d = (if dpos d = length (dinput d) then Inr () else Inl (TrailingBytes (remaining d)))"

fun encode_option :: "('a \<Rightarrow> encoder \<Rightarrow> encoder) \<Rightarrow> 'a option \<Rightarrow> encoder \<Rightarrow> encoder" where
  "encode_option enc None = put_u8 0"
| "encode_option enc (Some x) = puts [put_u8 1, enc x]"

definition decode_option :: "'a decode \<Rightarrow> 'a option decode" where
  "decode_option dec = dbind get_u8 (\<lambda>byte.
     if byte = 0 then dret None
     else if byte = 1 then dbind dec (\<lambda>x. dret (Some x))
     else dfail (InvalidOption byte))"

definition to_bytes :: "('a \<Rightarrow> encoder \<Rightarrow> encoder) \<Rightarrow> 'a \<Rightarrow> bytes" where
  "to_bytes enc x = enc x []"

definition from_bytes :: "'a decode \<Rightarrow> bytes \<Rightarrow> codec_error + 'a" where
  "from_bytes dec input =
     (case dec (new_decoder input) of
        Inl e \<Rightarrow> Inl e
      | Inr (x, d) \<Rightarrow> (case finish d of Inl e \<Rightarrow> Inl e | Inr _ \<Rightarrow> Inr x))"

text \<open>
  The loops the callers write around the codec: \<^verbatim>\<open>for x in xs { x.encode(encoder) }\<close> and
  \<^verbatim>\<open>for _ in 0..count { xs.push(T::decode(decoder)?) }\<close>.
\<close>

primrec encode_each :: "('a \<Rightarrow> encoder \<Rightarrow> encoder) \<Rightarrow> 'a list \<Rightarrow> encoder \<Rightarrow> encoder" where
  "encode_each enc [] = (\<lambda>buf. buf)"
| "encode_each enc (x # xs) = (\<lambda>buf. encode_each enc xs (enc x buf))"

primrec decode_n :: "'a decode \<Rightarrow> nat \<Rightarrow> 'a list decode" where
  "decode_n dec 0 = dret []"
| "decode_n dec (Suc n) = dbind dec (\<lambda>x. dbind (decode_n dec n) (\<lambda>xs. dret (x # xs)))"

declare puts.simps(2) [simp del]

section \<open>What a read consumes\<close>

named_theorems wire \<open>inversion of decoder composition, splitting of encodings\<close>

definition consumes :: "decoder \<Rightarrow> bytes \<Rightarrow> decoder \<Rightarrow> bool" where
  "consumes d bs d' \<longleftrightarrow>
     d' = d\<lparr>dpos := dpos d + length bs\<rparr> \<and> dpos d' < 2 ^ 64 \<and>
     dpos d' \<le> length (dinput d) \<and> take (length bs) (drop (dpos d) (dinput d)) = bs"

lemma consumes_Nil: "consumes d [] d' \<longleftrightarrow> d' = d \<and> dpos d < 2 ^ 64 \<and> dpos d \<le> length (dinput d)"
  by (auto simp: consumes_def)

lemma consumes_append [wire]:
  "consumes d (a @ b) d'' \<longleftrightarrow> (\<exists>d'. consumes d a d' \<and> consumes d' b d'')"
proof
  assume h: "consumes d (a @ b) d''"
  then have "drop (dpos d) (dinput d) = (a @ b) @ drop (length (a @ b)) (drop (dpos d) (dinput d))"
    by (metis append_take_drop_id consumes_def)
  then obtain rest where rest: "drop (dpos d) (dinput d) = a @ b @ rest"
    by auto
  then have "drop (dpos d + length a) (dinput d) = b @ rest"
    by (metis add.commute append_eq_conv_conj drop_drop)
  with h have "consumes d a (d\<lparr>dpos := dpos d + length a\<rparr>)"
    and "consumes (d\<lparr>dpos := dpos d + length a\<rparr>) b d''"
    using rest by (auto simp: consumes_def add.assoc)
  then show "\<exists>d'. consumes d a d' \<and> consumes d' b d''" by blast
next
  assume "\<exists>d'. consumes d a d' \<and> consumes d' b d''"
  then show "consumes d (a @ b) d''"
    by (auto simp: consumes_def take_add add.assoc add.commute [of "length a" "dpos d"])
qed

lemma consumes_Cons: "consumes d (a # b) d'' \<longleftrightarrow> (\<exists>d'. consumes d [a] d' \<and> consumes d' b d'')"
  using consumes_append [of d "[a]" b] by simp

lemmas consumes_Cons_simps =
  consumes_Cons [of _ _ "x # xs" for x xs] consumes_Cons [of _ _ "xs @ ys" for xs ys]
  consumes_Cons [of _ _ "le_of_nat n v" for n v]

lemma consumes_functional: "consumes d bs d1 \<Longrightarrow> consumes d bs d2 \<Longrightarrow> d1 = d2"
  by (simp add: consumes_def)

lemma consumes_same_length:
  "consumes d a d1 \<Longrightarrow> consumes d b d2 \<Longrightarrow> length a = length b \<Longrightarrow> a = b"
  by (auto simp: consumes_def)

lemma consumes_remaining:
  "consumes d bs d' \<Longrightarrow> remaining d = length bs + remaining d'"
  by (auto simp: consumes_def remaining_def)

lemma consumes_bound: "consumes d bs d' \<Longrightarrow> length bs < 2 ^ 64"
  by (auto simp: consumes_def)

lemma consumes_within: "consumes d bs d' \<Longrightarrow> dpos d' \<le> length (dinput d') \<and> dpos d' < 2 ^ 64"
  by (auto simp: consumes_def)

lemma consumes_whole:
  "consumes (new_decoder input) bs d \<and> dpos d = length (dinput d) \<longleftrightarrow>
     bs = input \<and> length input < 2 ^ 64 \<and> d = \<lparr>dinput = input, dpos = length input\<rparr>"
  by (auto simp: consumes_def new_decoder_def)

lemma dret_Inr [wire]: "dret x d = Inr (y, d') \<longleftrightarrow> y = x \<and> d' = d"
  by (auto simp: dret_def)

lemma dfail_Inr [wire]: "dfail e d \<noteq> Inr r"
  by (simp add: dfail_def)

lemma dbind_Inr [wire]:
  "dbind p f d = Inr (y, d'') \<longleftrightarrow> (\<exists>x d'. p d = Inr (x, d') \<and> f x d' = Inr (y, d''))"
  by (auto simp: dbind_def split: sum.splits prod.splits)

lemma dbind_Inl:
  "dbind p f d = Inl e \<longleftrightarrow> p d = Inl e \<or> (\<exists>x d'. p d = Inr (x, d') \<and> f x d' = Inl e)"
  by (auto simp: dbind_def split: sum.splits prod.splits)

lemma derr_Inr [wire]: "derr convert p d = Inr r \<longleftrightarrow> p d = Inr r"
  by (simp add: derr_def split: sum.split)

lemma take_bytes_Inr:
  "take_bytes n d = Inr (bs, d') \<longleftrightarrow> length bs = n \<and> consumes d bs d'"
  by (auto simp: take_bytes_def consumes_def Let_def not_le)

lemma get_u8_Inr: "get_u8 d = Inr (v, d') \<longleftrightarrow> consumes d [v] d'"
proof
  assume "get_u8 d = Inr (v, d')"
  then obtain bs where "length bs = 1" "consumes d bs d'" "v = hd bs"
    by (auto simp: get_u8_def dbind_Inr dret_Inr take_bytes_Inr)
  then show "consumes d [v] d'"
    by (cases bs) auto
next
  assume "consumes d [v] d'"
  then have "take_bytes 1 d = Inr ([v], d')"
    by (simp add: take_bytes_Inr)
  then show "get_u8 d = Inr (v, d')"
    by (simp add: get_u8_def dbind_Inr dret_Inr)
qed

lemma le_read_iff:
  assumes "8 * n = LENGTH('a)"
  shows "(\<exists>bs. length bs = n \<and> consumes d bs d' \<and> v = word_of_nat (nat_of_le bs)) \<longleftrightarrow>
         consumes d (le_of_nat n (unat (v :: 'a::len word))) d'"
proof -
  have pow: "(256::nat) ^ n = 2 ^ LENGTH('a)"
    by (simp add: assms [symmetric] power_mult)
  have "length bs = n \<Longrightarrow> le_of_nat n (unat (word_of_nat (nat_of_le bs) :: 'a word)) = bs" for bs
    using nat_of_le_bound [of bs] le_of_nat_of_le [of bs] pow
    by (auto simp: unat_of_nat)
  moreover have "word_of_nat (nat_of_le (le_of_nat n (unat v))) = v"
    using pow by (simp add: nat_of_le_of_nat)
  ultimately show ?thesis
    by (auto intro: exI [of _ "le_of_nat n (unat v)"])
qed

lemma get_u16_Inr:
  "get_u16 d = Inr (v, d') \<longleftrightarrow> consumes d (le_of_nat 2 (unat v)) d'"
  by (simp add: get_u16_def dbind_Inr dret_Inr take_bytes_Inr conj_ac flip: le_read_iff)

lemma get_u32_Inr:
  "get_u32 d = Inr (v, d') \<longleftrightarrow> consumes d (le_of_nat 4 (unat v)) d'"
  by (simp add: get_u32_def dbind_Inr dret_Inr take_bytes_Inr conj_ac flip: le_read_iff)

lemma get_u64_Inr:
  "get_u64 d = Inr (v, d') \<longleftrightarrow> consumes d (le_of_nat 8 (unat v)) d'"
  by (simp add: get_u64_def dbind_Inr dret_Inr take_bytes_Inr conj_ac flip: le_read_iff)

lemma get_u128_Inr:
  "get_u128 d = Inr (v, d') \<longleftrightarrow> consumes d (le_of_nat 16 (unat v)) d'"
  by (simp add: get_u128_def dbind_Inr dret_Inr take_bytes_Inr conj_ac flip: le_read_iff)

lemma get_bytes_Inr:
  "get_bytes d = Inr (bs, d') \<longleftrightarrow>
     consumes d (le_of_nat 8 (unat (word_of_nat (length bs) :: u64)) @ bs) d'"
proof
  assume "get_bytes d = Inr (bs, d')"
  then obtain len d1 where "consumes d (le_of_nat 8 (unat len)) d1"
    and body: "(if remaining d1 < unat len then Inl (LengthOverrun len (remaining d1))
      else take_bytes (unat len) d1) = Inr (bs, d')"
    by (auto simp: get_bytes_def dbind_Inr get_u64_Inr)
  moreover from body have "unat len = length bs" and "consumes d1 bs d'"
    by (simp_all add: take_bytes_Inr split: if_splits)
  moreover have "word_of_nat (unat len) = len"
    by simp
  ultimately show "consumes d (le_of_nat 8 (unat (word_of_nat (length bs) :: u64)) @ bs) d'"
    by (auto simp: consumes_append)
next
  let ?len = "word_of_nat (length bs) :: u64"
  assume "consumes d (le_of_nat 8 (unat ?len) @ bs) d'"
  then obtain d1 where d1: "consumes d (le_of_nat 8 (unat ?len)) d1" "consumes d1 bs d'"
    by (auto simp: consumes_append)
  then have "unat ?len = length bs"
    using consumes_bound by (simp add: unat_of_nat)
  moreover from d1 have "get_u64 d = Inr (?len, d1)"
    by (simp add: get_u64_Inr)
  ultimately show "get_bytes d = Inr (bs, d')"
    using d1 consumes_remaining [OF d1(2)] by (simp add: get_bytes_def dbind_def take_bytes_Inr)
qed

lemma get_tag_Inr: "get_tag d = Inr (v, d') \<longleftrightarrow> consumes d [v] d'"
  by (simp add: get_tag_def get_u8_Inr)

text \<open>A truncated input is reported with the bytes wanted and the bytes that remain.\<close>

lemma take_bytes_Inl:
  "take_bytes n d = Inl e \<longleftrightarrow>
     e = Truncated n (remaining d) \<and>
     (2 ^ 64 \<le> dpos d + n \<or> length (dinput d) < dpos d + n)"
  by (auto simp: take_bytes_def Let_def)

section \<open>The encoders append\<close>

lemma put_append:
  "put_u8 a buf = buf @ [a]"
  "put_u16 b buf = buf @ le_of_nat 2 (unat b)"
  "put_u32 c buf = buf @ le_of_nat 4 (unat c)"
  "put_u64 v buf = buf @ le_of_nat 8 (unat v)"
  "put_u128 w buf = buf @ le_of_nat 16 (unat w)"
  "put_bytes bs buf = buf @ le_of_nat 8 (unat (word_of_nat (length bs) :: u64)) @ bs"
  "put_tag t buf = buf @ [t]"
  by (simp_all add: puts.simps put_u8_def put_u16_def put_u32_def put_u64_def put_u128_def put_bytes_def
      put_tag_def)

declare encode_option.simps [simp del]

lemma decode_option_Inr:
  "decode_option dec d = Inr (x, d') \<longleftrightarrow>
     (case x of None \<Rightarrow> consumes d [0] d'
      | Some y \<Rightarrow> (\<exists>d1. consumes d [1] d1 \<and> dec d1 = Inr (y, d')))"
proof -
  have "decode_option dec d = Inr (x, d') \<longleftrightarrow>
      (\<exists>b d1. get_u8 d = Inr (b, d1) \<and>
         (b = 0 \<and> x = None \<and> d' = d1 \<or> b = 1 \<and> (\<exists>y. x = Some y \<and> dec d1 = Inr (y, d'))))"
  proof (cases "get_u8 d")
    case (Inr r)
    obtain b d1 where "r = (b, d1)" by fastforce
    with Inr show ?thesis
      by (cases "b = 0"; cases "b = 1")
        (auto simp: decode_option_def dbind_def dret_def dfail_def split: sum.splits)
  qed (simp add: decode_option_def dbind_def)
  then show ?thesis
    by (auto simp: get_u8_Inr split: option.splits)
qed

section \<open>The codec interface\<close>

locale wire_codec =
  fixes encode :: "'a \<Rightarrow> encoder \<Rightarrow> encoder"
    and decode :: "'a decode"
    and valid :: "'a \<Rightarrow> bool"
  assumes encode_append: "encode x buf = buf @ encode x []"
    and decode_encoded: "valid x \<Longrightarrow> consumes d (encode x []) d' \<Longrightarrow> decode d = Inr (x, d')"
begin

lemma puts_encode: "puts (encode x # ps) buf = puts ps (buf @ encode x [])"
  by (simp only: puts.simps encode_append [of x buf])

lemma from_to_bytes:
  assumes "valid x" and "length (to_bytes encode x) < 2 ^ 64"
  shows "from_bytes decode (to_bytes encode x) = Inr x"
proof -
  let ?b = "to_bytes encode x"
  have "consumes (new_decoder ?b) (encode x []) \<lparr>dinput = ?b, dpos = length ?b\<rparr>"
    using assms(2) by (simp add: consumes_def new_decoder_def to_bytes_def)
  with decode_encoded assms(1)
  have "decode (new_decoder ?b) = Inr (x, \<lparr>dinput = ?b, dpos = length ?b\<rparr>)"
    by blast
  then show ?thesis
    by (simp add: from_bytes_def finish_def)
qed

lemma encoding_prefix_free:
  assumes "valid x" and "valid y"
    and "to_bytes encode x @ r = to_bytes encode y @ s" and "length (to_bytes encode x @ r) < 2 ^ 64"
  shows "x = y"
proof -
  let ?d = "new_decoder (to_bytes encode x @ r)"
  have "consumes ?d (encode x []) (?d\<lparr>dpos := length (encode x [])\<rparr>)"
    using assms(4) by (simp add: consumes_def new_decoder_def to_bytes_def)
  moreover have "consumes ?d (encode y []) (?d\<lparr>dpos := length (encode y [])\<rparr>)"
    using assms(4) unfolding assms(3) by (simp add: consumes_def new_decoder_def to_bytes_def)
  ultimately show ?thesis
    using decode_encoded [OF assms(1)] decode_encoded [OF assms(2)]
    by (metis Inr_inject prod.inject)
qed

lemma encode_each_append: "encode_each encode xs buf = buf @ encode_each encode xs []"
proof (induction xs arbitrary: buf)
  case (Cons x xs)
  show ?case
    using Cons [of "encode x buf"] Cons [of "encode x []"] encode_append [of x buf]
    by simp
qed simp

lemma encode_each_Cons:
  "encode_each encode (x # xs) [] = encode x [] @ encode_each encode xs []"
  using encode_each_append [of xs "encode x []"] by simp

lemma encode_each_length:
  "\<forall>x\<in>set xs. k \<le> length (encode x []) \<Longrightarrow> length xs * k \<le> length (encode_each encode xs [])"
  by (induction xs) (auto simp: encode_each_Cons simp del: encode_each.simps)

lemma decode_n_encoded:
  "list_all valid xs \<Longrightarrow> consumes d (encode_each encode xs []) d' \<Longrightarrow>
     decode_n decode (length xs) d = Inr (xs, d')"
proof (induction xs arbitrary: d)
  case Nil
  then show ?case by (simp add: consumes_Nil dret_Inr)
next
  case (Cons x xs)
  then obtain d1 where "consumes d (encode x []) d1" "consumes d1 (encode_each encode xs []) d'"
    by (auto simp: encode_each_Cons consumes_append simp del: encode_each.simps)
  with Cons show ?case
    by (auto simp: dbind_Inr dret_Inr decode_encoded)
qed

lemma encode_option_bytes:
  "encode_option encode x buf = buf @ (case x of None \<Rightarrow> [0] | Some y \<Rightarrow> [1] @ encode y [])"
  by (cases x)
    (simp_all add: encode_option.simps put_append puts.simps encode_append [of _ "buf @ [1]"])

lemma option_codec: "wire_codec (encode_option encode) (decode_option decode) (pred_option valid)"
proof
  fix x buf
  show "encode_option encode x buf = buf @ encode_option encode x []"
    by (simp only: encode_option_bytes append_Nil)
next
  fix x d d'
  assume "pred_option valid x" "consumes d (encode_option encode x []) d'"
  then show "decode_option decode d = Inr (x, d')"
    by (cases x)
      (auto simp: encode_option_bytes decode_option_Inr consumes_Cons [of _ _ "encode y []" for y]
        intro: decode_encoded)
qed

end

locale canonical_codec = wire_codec +
  assumes decode_sound: "decode d = Inr (x, d') \<Longrightarrow> valid x \<and> consumes d (encode x []) d'"
begin

lemma decode_iff: "decode d = Inr (x, d') \<longleftrightarrow> valid x \<and> consumes d (encode x []) d'"
  using decode_sound decode_encoded by blast

lemma from_bytes_sound:
  assumes "from_bytes decode input = Inr x"
  shows "valid x \<and> to_bytes encode x = input \<and> length input < 2 ^ 64"
proof -
  from assms obtain d where "decode (new_decoder input) = Inr (x, d)" "dpos d = length (dinput d)"
    by (auto simp: from_bytes_def finish_def split: sum.splits prod.splits if_splits)
  then show ?thesis
    using decode_sound consumes_whole by (fastforce simp: to_bytes_def)
qed

lemma from_bytes_iff:
  "from_bytes decode input = Inr x \<longleftrightarrow>
     valid x \<and> to_bytes encode x = input \<and> length input < 2 ^ 64"
  using from_bytes_sound from_to_bytes by blast

lemma decode_n_iff:
  assumes "dpos d \<le> length (dinput d)" and "dpos d < 2 ^ 64"
  shows "decode_n decode n d = Inr (xs, d') \<longleftrightarrow>
     length xs = n \<and> list_all valid xs \<and> consumes d (encode_each encode xs []) d'"
  using assms
proof (induction n arbitrary: d xs)
  case 0
  then show ?case by (auto simp: dret_Inr consumes_Nil)
next
  case (Suc n)
  have step: "decode_n decode n d1 = Inr (ys, d') \<longleftrightarrow>
      length ys = n \<and> list_all valid ys \<and> consumes d1 (encode_each encode ys []) d'"
    if "consumes d (encode x []) d1" for x d1 ys
    using Suc.IH consumes_within [OF that] by simp
  show ?case
    by (cases xs)
      (auto simp: dbind_Inr dret_Inr encode_each_Cons consumes_append decode_iff step
        cong: conj_cong simp del: encode_each.simps(2))
qed

lemma option_canonical:
  "canonical_codec (encode_option encode) (decode_option decode) (pred_option valid)"
proof (rule canonical_codec.intro [OF option_codec], standard)
  fix d x d'
  assume "decode_option decode d = Inr (x, d')"
  then show "pred_option valid x \<and> consumes d (encode_option encode x []) d'"
    by (cases x)
      (auto simp: encode_option_bytes decode_option_Inr decode_iff
        consumes_Cons [of _ _ "encode y []" for y])
qed

end

section \<open>The primitive encodings\<close>

lemmas no_validity = list.pred_True option.pred_True

interpretation u8c: canonical_codec put_u8 get_u8 "\<lambda>_. True"
  by unfold_locales (simp_all add: put_append get_u8_Inr)

interpretation u16c: canonical_codec put_u16 get_u16 "\<lambda>_. True"
  by unfold_locales (simp_all add: put_append get_u16_Inr)

interpretation u32c: canonical_codec put_u32 get_u32 "\<lambda>_. True"
  by unfold_locales (simp_all add: put_append get_u32_Inr)

interpretation u64c: canonical_codec put_u64 get_u64 "\<lambda>_. True"
  by unfold_locales (simp_all add: put_append get_u64_Inr)

interpretation u128c: canonical_codec put_u128 get_u128 "\<lambda>_. True"
  by unfold_locales (simp_all add: put_append get_u128_Inr)

interpretation bytesc: canonical_codec put_bytes get_bytes "\<lambda>_. True"
  by unfold_locales (simp_all add: put_append get_bytes_Inr)

interpretation opt_u64c: canonical_codec "encode_option put_u64" "decode_option get_u64" "\<lambda>_. True"
  using u64c.option_canonical by (simp add: option.pred_True)

interpretation opt_bytesc:
  canonical_codec "encode_option put_bytes" "decode_option get_bytes" "\<lambda>_. True"
  using bytesc.option_canonical by (simp add: option.pred_True)

lemmas [wire] = u8c.puts_encode u16c.puts_encode u32c.puts_encode u64c.puts_encode
  u128c.puts_encode bytesc.puts_encode opt_u64c.puts_encode opt_bytesc.puts_encode

text \<open>
  Reads of the primitives, oriented so that what an encoding consumes becomes a successful read.
\<close>

lemmas wire_read = u8c.decode_iff [symmetric] u16c.decode_iff [symmetric]
  u32c.decode_iff [symmetric] u64c.decode_iff [symmetric] u128c.decode_iff [symmetric]
  bytesc.decode_iff [symmetric] opt_u64c.decode_iff [symmetric] opt_bytesc.decode_iff [symmetric]

lemmas wire_reads [wire] = wire_read [simplified]

text \<open>
  Fixed-size arrays are carried as byte strings and read back with
  \<^verbatim>\<open>try_into().map_err(|_| e)\<close>: a string of another length is the error \<open>e\<close>.
\<close>

definition get_array :: "nat \<Rightarrow> codec_error \<Rightarrow> bytes decode" where
  "get_array n e = dbind get_bytes (\<lambda>bs. if length bs = n then dret bs else dfail e)"

lemma get_array_Inr [wire]:
  "get_array n e d = Inr (bs, d') \<longleftrightarrow> length bs = n \<and> get_bytes d = Inr (bs, d')"
  by (cases "get_bytes d") (auto simp: get_array_def dbind_def dret_def dfail_def split: if_splits)

lemma dbind_read: "p d = Inr (x, d') \<Longrightarrow> dbind p f d = f x d'"
  by (simp add: dbind_def)

lemma get_array_read: "get_bytes d = Inr (bs, d') \<Longrightarrow> length bs = n \<Longrightarrow> get_array n e d = Inr (bs, d')"
  by (simp add: get_array_Inr)

lemma case_dret_Inr [wire]:
  "(case x of None \<Rightarrow> dfail e | Some y \<Rightarrow> dret y) d = Inr (v, d') \<longleftrightarrow> x = Some v \<and> d' = d"
  by (auto simp: dret_Inr dfail_Inr split: option.splits)

interpretation arrayc: canonical_codec put_bytes "get_array n e" "\<lambda>bs. length bs = n" for n e
  by unfold_locales (auto simp: put_append get_array_Inr get_bytes_Inr)

text \<open>
  A flag is written as one byte.  \<open>get_bool\<close> is the strict reader (\<^verbatim>\<open>Ballot::decode\<close>),
  \<open>get_flag\<close> the lenient one, \<^verbatim>\<open>decoder.get_u8()? != 0\<close>.
\<close>

definition put_bool :: "bool \<Rightarrow> encoder \<Rightarrow> encoder" where
  "put_bool b = put_u8 (if b then 1 else 0)"

definition get_bool :: "bool decode" where
  "get_bool = dbind get_u8 (\<lambda>byte.
     if byte = 0 then dret False else if byte = 1 then dret True else dfail (InvalidOption byte))"

definition get_flag :: "bool decode" where
  "get_flag = dbind get_u8 (\<lambda>byte. dret (byte \<noteq> 0))"

lemma get_bool_Inr:
  "get_bool d = Inr (b, d') \<longleftrightarrow> consumes d [if b then 1 else 0] d'"
  by (cases "get_u8 d")
    (auto simp: get_bool_def dbind_def dret_def dfail_def get_u8_Inr [symmetric] split: if_splits)

interpretation boolc: canonical_codec put_bool get_bool "\<lambda>_. True"
  by unfold_locales (simp_all add: put_bool_def put_append get_bool_Inr)

interpretation flagc: wire_codec put_bool get_flag "\<lambda>_. True"
proof
  show "put_bool x buf = buf @ put_bool x []" for x buf
    by (simp add: put_bool_def put_append)
  show "get_flag d = Inr (x, d')" if "consumes d (put_bool x []) d'" for x d d'
    using that by (cases x) (auto simp: get_flag_def put_bool_def put_append wire get_u8_Inr)
qed

lemmas [wire] = boolc.puts_encode boolc.decode_iff [symmetric, simplified]

lemma get_flag_written: "get_bool d = Inr (b, d') \<Longrightarrow> get_flag d = Inr (b, d')"
  by (rule flagc.decode_encoded) (simp_all add: boolc.decode_iff)

lemma get_flag_Inr:
  "get_flag d = Inr (b, d') \<longleftrightarrow> (\<exists>c. get_u8 d = Inr (c, d') \<and> b = (c \<noteq> 0))"
  by (auto simp: get_flag_def wire)

text \<open>
  A list is its length as a \<^verbatim>\<open>u64\<close> and its elements.  The reader first bounds the
  announced length by the bytes that remain, \<open>min_element\<close> bytes per element.
\<close>

definition PREALLOC_LIMIT :: nat where "PREALLOC_LIMIT = 4096"

definition bounded_capacity :: "nat \<Rightarrow> u64 \<Rightarrow> nat \<Rightarrow> codec_error + nat" where
  "bounded_capacity rem count min_element =
     (let ceiling = rem div max min_element 1 in
      if ceiling < unat count then Inl (LengthOverrun count rem)
      else Inr (min (unat count) PREALLOC_LIMIT))"

definition put_list :: "('a \<Rightarrow> encoder \<Rightarrow> encoder) \<Rightarrow> 'a list \<Rightarrow> encoder \<Rightarrow> encoder" where
  "put_list enc xs = puts [put_u64 (word_of_nat (length xs)), encode_each enc xs]"

definition get_list :: "nat \<Rightarrow> 'a decode \<Rightarrow> 'a list decode" where
  "get_list min_element dec = dbind get_u64 (\<lambda>count d.
     case bounded_capacity (remaining d) count min_element of
       Inl e \<Rightarrow> Inl e
     | Inr _ \<Rightarrow> decode_n dec (unat count) d)"

lemma get_list_Inr:
  "get_list k dec d = Inr (xs, d') \<longleftrightarrow>
     (\<exists>count d1. get_u64 d = Inr (count, d1) \<and> unat count \<le> remaining d1 div max k 1 \<and>
        decode_n dec (unat count) d1 = Inr (xs, d'))"
  by (auto simp: get_list_def dbind_Inr bounded_capacity_def Let_def not_less split: sum.splits if_splits)

context wire_codec
begin

lemma put_list_bytes:
  "put_list encode xs buf = buf @ put_u64 (word_of_nat (length xs)) [] @ encode_each encode xs []"
  using encode_each_append [of xs "put_u64 (word_of_nat (length xs)) buf"]
  by (simp add: put_list_def puts.simps put_append)

lemma list_codec:
  assumes "0 < k" and size: "\<And>x. valid x \<Longrightarrow> k \<le> length (encode x [])"
  shows "wire_codec (put_list encode) (get_list k decode) (list_all valid)"
proof
  show "put_list encode xs buf = buf @ put_list encode xs []" for xs buf
    by (simp only: put_list_bytes append_Nil)
next
  fix xs d d'
  assume v: "list_all valid xs" and "consumes d (put_list encode xs []) d'"
  then obtain d1 where d1: "get_u64 d = Inr (word_of_nat (length xs), d1)"
    and body: "consumes d1 (encode_each encode xs []) d'"
    by (auto simp: put_list_bytes wire)
  have len: "length xs * k \<le> length (encode_each encode xs [])"
    using v size by (intro encode_each_length) (auto simp: list_all_iff)
  moreover have "length xs \<le> length xs * k"
    using \<open>0 < k\<close> by simp
  ultimately have "length xs < 2 ^ 64"
    using consumes_bound [OF body] by linarith
  then have "unat (word_of_nat (length xs) :: u64) = length xs"
    by (simp add: unat_of_nat)
  moreover have "length xs \<le> remaining d1 div max k 1"
    using len consumes_remaining [OF body] \<open>0 < k\<close> by (simp add: less_eq_div_iff_mult_less_eq)
  ultimately show "get_list k decode d = Inr (xs, d')"
    using d1 decode_n_encoded [OF v body] by (auto simp: get_list_Inr)
qed

end

context canonical_codec
begin

lemma list_canonical:
  assumes "0 < k" and "\<And>x. valid x \<Longrightarrow> k \<le> length (encode x [])"
  shows "canonical_codec (put_list encode) (get_list k decode) (list_all valid)"
proof (rule canonical_codec.intro [OF list_codec], goal_cases)
  case 3
  show ?case
  proof
    fix d xs d'
    assume "get_list k decode d = Inr (xs, d')"
    then obtain count d1 where 1: "get_u64 d = Inr (count, d1)"
      and 2: "decode_n decode (unat count) d1 = Inr (xs, d')"
      by (auto simp: get_list_Inr)
    from 1 have c: "consumes d (le_of_nat 8 (unat count)) d1"
      by (simp add: get_u64_Inr)
    with 2 have "length xs = unat count" "list_all valid xs" "consumes d1 (encode_each encode xs []) d'"
      using decode_n_iff [of d1] consumes_within [OF c] by auto
    with c show "list_all valid xs \<and> consumes d (put_list encode xs []) d'"
      by (auto simp: put_list_bytes put_append consumes_append)
  qed
qed (use assms in auto)

end

interpretation bytes_listc: canonical_codec "put_list put_bytes" "get_list 8 get_bytes" "\<lambda>_. True"
  using bytesc.list_canonical [of 8] by (simp add: list.pred_True put_append)

lemmas [wire] = bytes_listc.puts_encode bytes_listc.decode_iff [symmetric, simplified]

section \<open>Claims\<close>

text \<open>
  C1: an optional byte string, the shape every variable-length field of the chain is built from,
  is accepted by the decoder on exactly one input, its canonical encoding: no trailing byte, no
  overlong length, no other leading byte.
\<close>

theorem option_bytes_canonical:
  "from_bytes (decode_option get_bytes) input = Inr v \<longleftrightarrow>
     to_bytes (encode_option put_bytes) v = input \<and> length input < 2 ^ 64"
  by (simp add: opt_bytesc.from_bytes_iff)

text \<open>
  A length prefix that claims more than the input holds is refused with the claimed length and
  the bytes that remain; nothing is read past the end of the input.
\<close>

theorem get_bytes_overrun:
  assumes "get_u64 d = Inr (len, d1)" and "remaining d1 < unat len"
  shows "get_bytes d = Inl (LengthOverrun len (remaining d1))"
  using assms by (simp add: get_bytes_def dbind_def)

theorem get_bytes_overrun_witness:
  "get_bytes (new_decoder [9, 0, 0, 0, 0, 0, 0, 0, 7]) = Inl (LengthOverrun 9 1)"
proof -
  let ?d = "new_decoder [9, 0, 0, 0, 0, 0, 0, 0, 7]"
  have r: "get_u64 ?d = Inr (9, ?d\<lparr>dpos := 8\<rparr>)"
    by (simp add: get_u64_def dbind_def dret_def take_bytes_def new_decoder_def)
  show ?thesis
    using get_bytes_overrun [OF r] by (simp add: remaining_def new_decoder_def)
qed

end
