(* ===== verification/Staking.thy ===== *)
theory Staking
  imports Codec
begin

text \<open>
  Stake accounting, \<^verbatim>\<open>src/crates/qtv-staking/src/lib.rs\<close>: the reward schedule, session
  emission, slashing, the bond and its epoch-delayed weight, reward tranches and the session meter.
  A function whose plain arithmetic could overflow returns an option, \<open>None\<close> being the panic that
  the overflow checks raise.
\<close>

section \<open>Constants\<close>

definition NATIVE_UNIT :: u128 where "NATIVE_UNIT = 1000000"
definition MIN_STAKE :: u64 where "MIN_STAKE = 2000 * ucast NATIVE_UNIT"
definition EMISSION_K :: u64 where "EMISSION_K = 25000"
definition MAX_SESSION_EMISSION_BPS :: u64 where "MAX_SESSION_EMISSION_BPS = 500"
definition REWARD_VEST_DAYS :: u64 where "REWARD_VEST_DAYS = 365"
definition HIGH_SESSION_TX :: u64 where "HIGH_SESSION_TX = 50000000000"
definition SESSION_DAYS :: u64 where "SESSION_DAYS = 182"
definition MAINNET_BLACKOUT_DAYS :: u64 where "MAINNET_BLACKOUT_DAYS = 365"
definition BOND_LOCK_DAYS :: u64 where "BOND_LOCK_DAYS = 90"
definition UNBONDING_DAYS :: u64 where "UNBONDING_DAYS = 21"
definition EARLIEST_EXIT_DAYS :: u64 where "EARLIEST_EXIT_DAYS = BOND_LOCK_DAYS + UNBONDING_DAYS"
definition BPS_DENOM :: u128 where "BPS_DENOM = 10000"
definition SLASH_ATTRIBUTABLE_BPS :: u128 where "SLASH_ATTRIBUTABLE_BPS = 10000"
definition REWARD_ANCHOR_USD_PER_QTOV :: u64 where "REWARD_ANCHOR_USD_PER_QTOV = 3000"
definition REWARD_BLOCKS_TIER_TOP :: u64 where "REWARD_BLOCKS_TIER_TOP = 250000000"
definition REWARD_BLOCKS_TIER_HIGH :: u64 where "REWARD_BLOCKS_TIER_HIGH = 200000000"
definition REWARD_BLOCKS_TIER_MID :: u64 where "REWARD_BLOCKS_TIER_MID = 150000000"
definition REWARD_USD_TIER_TOP :: u64 where "REWARD_USD_TIER_TOP = 100000"
definition REWARD_USD_TIER_HIGH :: u64 where "REWARD_USD_TIER_HIGH = 80000"
definition REWARD_USD_TIER_MID :: u64 where "REWARD_USD_TIER_MID = 50000"
definition REWARD_USD_TIER_LOW_CAP :: u64 where "REWARD_USD_TIER_LOW_CAP = 30000"
definition REWARD_PERIOD_BLOCKS :: u64 where "REWARD_PERIOD_BLOCKS = REWARD_BLOCKS_TIER_TOP"

lemmas staking_consts =
  NATIVE_UNIT_def MIN_STAKE_def EMISSION_K_def MAX_SESSION_EMISSION_BPS_def REWARD_VEST_DAYS_def
  HIGH_SESSION_TX_def SESSION_DAYS_def MAINNET_BLACKOUT_DAYS_def BOND_LOCK_DAYS_def
  UNBONDING_DAYS_def EARLIEST_EXIT_DAYS_def BPS_DENOM_def SLASH_ATTRIBUTABLE_BPS_def
  REWARD_ANCHOR_USD_PER_QTOV_def REWARD_BLOCKS_TIER_TOP_def REWARD_BLOCKS_TIER_HIGH_def
  REWARD_BLOCKS_TIER_MID_def REWARD_USD_TIER_TOP_def REWARD_USD_TIER_HIGH_def
  REWARD_USD_TIER_MID_def REWARD_USD_TIER_LOW_CAP_def REWARD_PERIOD_BLOCKS_def

section \<open>Rewards, emission and slashing\<close>

definition reward_usd_to_quon :: "u64 \<Rightarrow> u64 option" where
  "reward_usd_to_quon usd = mul_div usd NATIVE_UNIT (ucast REWARD_ANCHOR_USD_PER_QTOV)"

definition validator_reward :: "u64 \<Rightarrow> u64 option" where
  "validator_reward blocks_completed = do {
     usd \<leftarrow>
       (if REWARD_BLOCKS_TIER_TOP \<le> blocks_completed then Some REWARD_USD_TIER_TOP
        else if REWARD_BLOCKS_TIER_HIGH \<le> blocks_completed then Some REWARD_USD_TIER_HIGH
        else if REWARD_BLOCKS_TIER_MID \<le> blocks_completed then Some REWARD_USD_TIER_MID
        else do {
          ramp \<leftarrow> mul_div blocks_completed (ucast REWARD_USD_TIER_LOW_CAP)
                    (ucast REWARD_BLOCKS_TIER_MID);
          Some (min ramp REWARD_USD_TIER_LOW_CAP) });
     reward_usd_to_quon usd }"

datatype session = Low | High

definition classify :: "u64 \<Rightarrow> session" where
  "classify transactions = (if HIGH_SESSION_TX \<le> transactions then High else Low)"

definition eligible :: "u64 \<Rightarrow> bool" where
  "eligible stake \<longleftrightarrow> MIN_STAKE \<le> stake"

text \<open>\<^verbatim>\<open>u128::isqrt\<close> of the standard library: the square root rounded down.\<close>

fun isqrt :: "nat \<Rightarrow> nat" where
  "isqrt n = (if n = 0 then 0
     else let r = 2 * isqrt (n div 4) in if (r + 1) * (r + 1) \<le> n then r + 1 else r)"

declare isqrt.simps [simp del]

definition session_emission :: "u64 \<Rightarrow> u64 \<Rightarrow> u64 option" where
  "session_emission total_staked total_supply = do {
     bound \<leftarrow> mul_div total_supply (ucast MAX_SESSION_EMISSION_BPS) BPS_DENOM;
     let staked = min total_staked total_supply;
         raw = saturating_mul EMISSION_K (word_of_nat (isqrt (unat staked)))
     in Some (min raw bound) }"

definition session_reward :: "u64 \<Rightarrow> u64 \<Rightarrow> u64 \<Rightarrow> u64 option" where
  "session_reward stake total_staked total_supply =
     (if total_staked = 0 then Some 0
      else do { emission \<leftarrow> session_emission total_staked total_supply;
                mul_div emission (ucast stake) (ucast total_staked) })"

definition in_blackout :: "u64 \<Rightarrow> u64 \<Rightarrow> bool" where
  "in_blackout now_day mainnet_start_day \<longleftrightarrow>
     saturating_sub now_day mainnet_start_day < MAINNET_BLACKOUT_DAYS"

definition released :: "u64 \<Rightarrow> u64 \<Rightarrow> u64" where
  "released earned age_days = (if age_days < REWARD_VEST_DAYS then 0 else earned)"

datatype fault = Attributable

definition slash :: "u64 \<Rightarrow> fault \<Rightarrow> u64 option" where
  "slash bond fault =
     (let bps = (case fault of Attributable \<Rightarrow> SLASH_ATTRIBUTABLE_BPS)
      in mul_div bond bps BPS_DENOM)"

section \<open>Bonds\<close>

record bond =
  bond_amount :: u64
  bonded_at_day :: u64
  exit_requested_at :: "u64 option"
  active_amount :: u64
  raised_at_height :: u64

definition new_bond :: "u64 \<Rightarrow> u64 \<Rightarrow> bond option" where
  "new_bond amount day =
     (if eligible amount
      then Some \<lparr>bond_amount = amount, bonded_at_day = day, exit_requested_at = None,
                 active_amount = amount, raised_at_height = 0\<rparr>
      else None)"

definition amount_in_epoch :: "bond \<Rightarrow> u64 \<Rightarrow> u64 \<Rightarrow> u64" where
  "amount_in_epoch b epoch heights_per_epoch =
     (if heights_per_epoch = 0 then bond_amount b
      else if raised_at_height b div heights_per_epoch < epoch then bond_amount b
      else min (active_amount b) (bond_amount b))"

definition weight_in_epoch :: "bond \<Rightarrow> u64 \<Rightarrow> u64 \<Rightarrow> u64" where
  "weight_in_epoch b epoch heights_per_epoch =
     (if exit_requested_at b = None then amount_in_epoch b epoch heights_per_epoch
      else if heights_per_epoch = 0 \<or> raised_at_height b div heights_per_epoch < epoch then 0
      else min (active_amount b) (bond_amount b))"

definition can_request_exit :: "bond \<Rightarrow> u64 \<Rightarrow> bool" where
  "can_request_exit b now_day \<longleftrightarrow> BOND_LOCK_DAYS \<le> saturating_sub now_day (bonded_at_day b)"

definition epoch_of :: "u64 \<Rightarrow> u64 \<Rightarrow> u64" where
  "epoch_of height heights_per_epoch =
     (case checked_div height heights_per_epoch of Some e \<Rightarrow> e | None \<Rightarrow> 0)"

definition request_exit_at :: "bond \<Rightarrow> u64 \<Rightarrow> u64 \<Rightarrow> u64 \<Rightarrow> bool \<times> bond" where
  "request_exit_at b now_day height heights_per_epoch =
     (if exit_requested_at b \<noteq> None \<or> \<not> can_request_exit b now_day then (False, b)
      else (True, b\<lparr>active_amount := amount_in_epoch b (epoch_of height heights_per_epoch)
                                       heights_per_epoch,
                    raised_at_height := height,
                    exit_requested_at := Some now_day\<rparr>))"

definition rejoin :: "bond \<Rightarrow> u64 \<Rightarrow> u64 \<Rightarrow> bond" where
  "rejoin b height heights_per_epoch =
     (if exit_requested_at b = None then b
      else b\<lparr>active_amount := weight_in_epoch b (epoch_of height heights_per_epoch)
                                heights_per_epoch,
             raised_at_height := height,
             exit_requested_at := None\<rparr>)"

definition raise_to :: "bond \<Rightarrow> u64 \<Rightarrow> u64 \<Rightarrow> u64 \<Rightarrow> bond" where
  "raise_to b new_total height heights_per_epoch =
     b\<lparr>active_amount := amount_in_epoch b (epoch_of height heights_per_epoch) heights_per_epoch,
       bond_amount := new_total,
       raised_at_height := height\<rparr>"

definition request_exit :: "bond \<Rightarrow> u64 \<Rightarrow> bool \<times> bond" where
  "request_exit b now_day =
     (if exit_requested_at b = None \<and> can_request_exit b now_day
      then (True, b\<lparr>exit_requested_at := Some now_day\<rparr>) else (False, b))"

definition can_withdraw :: "bond \<Rightarrow> u64 \<Rightarrow> bool option" where
  "can_withdraw b now_day =
     (case exit_requested_at b of
        Some day \<Rightarrow> do { open_day \<leftarrow> checked_add day UNBONDING_DAYS; Some (open_day \<le> now_day) }
      | None \<Rightarrow> Some False)"

definition earliest_exit_day :: "bond \<Rightarrow> u64 option" where
  "earliest_exit_day b = checked_add (bonded_at_day b) EARLIEST_EXIT_DAYS"

definition slashable_until :: "bond \<Rightarrow> u64 \<Rightarrow> u64 option" where
  "slashable_until b exit_requested_day = checked_add exit_requested_day UNBONDING_DAYS"

definition encode_bond :: "bond \<Rightarrow> encoder \<Rightarrow> encoder" where
  "encode_bond b = puts [put_u64 (bond_amount b), put_u64 (bonded_at_day b),
     encode_option put_u64 (exit_requested_at b), put_u64 (active_amount b),
     put_u64 (raised_at_height b)]"

definition decode_bond :: "bond decode" where
  "decode_bond =
     dbind get_u64 (\<lambda>amt. dbind get_u64 (\<lambda>day. dbind (decode_option get_u64) (\<lambda>ex.
     dbind get_u64 (\<lambda>act. dbind get_u64 (\<lambda>raised.
       dret \<lparr>bond_amount = amt, bonded_at_day = day, exit_requested_at = ex,
             active_amount = act, raised_at_height = raised\<rparr>)))))"

section \<open>Reward tranches and the session meter\<close>

record reward_tranche =
  earned_day :: u64
  tranche_amount :: u64
  claimed :: u64

definition encode_tranche :: "reward_tranche \<Rightarrow> encoder \<Rightarrow> encoder" where
  "encode_tranche t = puts [put_u64 (earned_day t), put_u64 (tranche_amount t), put_u64 (claimed t)]"

definition decode_tranche :: "reward_tranche decode" where
  "decode_tranche =
     dbind get_u64 (\<lambda>day. dbind get_u64 (\<lambda>amt. dbind get_u64 (\<lambda>cl.
       dret \<lparr>earned_day = day, tranche_amount = amt, claimed = cl\<rparr>)))"

record session_meter =
  window_start_day :: u64
  meter_count :: u64

definition new_meter :: "u64 \<Rightarrow> session_meter" where
  "new_meter start_day = \<lparr>window_start_day = start_day, meter_count = 0\<rparr>"

definition meter_record :: "session_meter \<Rightarrow> u64 \<Rightarrow> session_meter" where
  "meter_record m transactions = m\<lparr>meter_count := saturating_add (meter_count m) transactions\<rparr>"

definition window_closed :: "session_meter \<Rightarrow> u64 \<Rightarrow> bool" where
  "window_closed m now_day \<longleftrightarrow> SESSION_DAYS \<le> saturating_sub now_day (window_start_day m)"

definition meter_close :: "session_meter \<Rightarrow> u64 \<Rightarrow> session option \<times> session_meter" where
  "meter_close m now_day =
     (if window_closed m now_day
      then (Some (classify (meter_count m)), \<lparr>window_start_day = now_day, meter_count = 0\<rparr>)
      else (None, m))"

definition encode_meter :: "session_meter \<Rightarrow> encoder \<Rightarrow> encoder" where
  "encode_meter m = puts [put_u64 (window_start_day m), put_u64 (meter_count m)]"

definition decode_meter :: "session_meter decode" where
  "decode_meter = dbind get_u64 (\<lambda>start. dbind get_u64 (\<lambda>cnt.
     dret \<lparr>window_start_day = start, meter_count = cnt\<rparr>))"

section \<open>Encodings\<close>

interpretation bondc: canonical_codec encode_bond decode_bond "\<lambda>_. True"
  by unfold_locales
    (auto simp: encode_bond_def decode_bond_def wire)

interpretation tranchec: canonical_codec encode_tranche decode_tranche "\<lambda>_. True"
  by unfold_locales (auto simp: encode_tranche_def decode_tranche_def wire)

interpretation meterc: canonical_codec encode_meter decode_meter "\<lambda>_. True"
  by unfold_locales (auto simp: encode_meter_def decode_meter_def wire)

section \<open>Integer square root\<close>

lemma isqrt_spec: "isqrt n * isqrt n \<le> n \<and> n < (isqrt n + 1) * (isqrt n + 1)"
proof (induction n rule: isqrt.induct)
  case (1 n)
  show ?case
  proof (cases "n = 0")
    case True
    then show ?thesis by (simp add: isqrt.simps)
  next
    case False
    let ?q = "isqrt (n div 4)"
    from 1 False have IH: "?q * ?q \<le> n div 4" "n div 4 < (?q + 1) * (?q + 1)" by simp_all
    then have lo: "2 * ?q * (2 * ?q) \<le> n" by linarith
    from IH(2) have "n div 4 + 1 \<le> (?q + 1) * (?q + 1)" by simp
    then have hi: "n < (2 * ?q + 2) * (2 * ?q + 2)" by (simp add: algebra_simps)
    show ?thesis
      using lo hi False isqrt.simps [of n] by (simp add: Let_def algebra_simps)
  qed
qed

section \<open>The reward schedule and session emission\<close>

text \<open>The schedule on natural numbers, in quon.\<close>

definition reward_usd :: "nat \<Rightarrow> nat" where
  "reward_usd n = (if 250000000 \<le> n then 100000 else if 200000000 \<le> n then 80000
     else if 150000000 \<le> n then 50000 else n * 30000 div 150000000)"

lemma reward_usd_bound: "reward_usd n \<le> 100000"
  by (auto simp: reward_usd_def)

lemma reward_usd_mono: "m \<le> n \<Longrightarrow> reward_usd m \<le> reward_usd n"
proof -
  assume "m \<le> n"
  moreover have "n < 150000000 \<Longrightarrow> n * 30000 div 150000000 \<le> 50000"
    by linarith
  moreover have "m * 30000 div 150000000 \<le> n * 30000 div 150000000" if "m \<le> n"
    using that by (intro div_le_mono) simp
  ultimately show ?thesis
    by (auto simp: reward_usd_def)
qed

lemma reward_usd_to_quon_value:
  assumes "unat usd \<le> 100000"
  shows "\<exists>r. reward_usd_to_quon usd = Some r \<and> unat r = unat usd * 1000000 div 3000"
proof -
  have "unat usd * 1000000 div 3000 \<le> 33333333" using assms by linarith
  then show ?thesis
    using mul_div_le [of "ucast REWARD_ANCHOR_USD_PER_QTOV" NATIVE_UNIT usd 33333333]
    by (simp add: reward_usd_to_quon_def staking_consts)
qed

lemma validator_reward_value:
  "\<exists>r. validator_reward n = Some r \<and> unat r = reward_usd (unat n) * 1000000 div 3000"
proof -
  have usd: "\<exists>usd. validator_reward n = reward_usd_to_quon usd \<and> unat usd = reward_usd (unat n)"
  proof (cases "REWARD_BLOCKS_TIER_MID \<le> n")
    case True
    then show ?thesis
      by (auto simp: validator_reward_def staking_consts reward_usd_def word_nat)
  next
    case False
    then have n: "unat n < 150000000"
      by (simp add: staking_consts word_nat not_le)
    then have "unat n * 30000 div 150000000 \<le> 30000" by linarith
    then obtain r where r: "mul_div n (ucast REWARD_USD_TIER_LOW_CAP) (ucast REWARD_BLOCKS_TIER_MID)
        = Some r" "unat r = unat n * 30000 div 150000000"
      using mul_div_le [of "ucast REWARD_BLOCKS_TIER_MID" "ucast REWARD_USD_TIER_LOW_CAP" n 30000]
      by (auto simp: staking_consts)
    moreover have "unat (min r REWARD_USD_TIER_LOW_CAP) = reward_usd (unat n)"
      using n r(2) by (simp add: staking_consts word_nat reward_usd_def)
    ultimately show ?thesis
      using n by (auto simp: validator_reward_def staking_consts word_nat not_le)
  qed
  then show ?thesis
    using reward_usd_to_quon_value reward_usd_bound by metis
qed

lemma session_emission_value:
  "\<exists>e. session_emission total_staked total_supply = Some e \<and> unat e * 10000 \<le> unat total_supply * 500"
proof -
  have "unat total_supply * 500 div 10000 \<le> unat total_supply" by linarith
  then obtain b where b: "mul_div total_supply (ucast MAX_SESSION_EMISSION_BPS) BPS_DENOM = Some b"
    "unat b = unat total_supply * 500 div 10000"
    using mul_div_le [of BPS_DENOM "ucast MAX_SESSION_EMISSION_BPS" total_supply total_supply]
    by (auto simp: staking_consts)
  let ?e = "min (saturating_mul EMISSION_K (word_of_nat (isqrt (unat (min total_staked total_supply))))) b"
  have "unat ?e \<le> unat b" by (simp add: unat_min_word)
  also have "unat b * 10000 \<le> unat total_supply * 500" using b(2) by linarith
  finally show ?thesis
    using b(1) \<open>unat ?e \<le> unat b\<close> \<open>unat b * 10000 \<le> unat total_supply * 500\<close>
    by (simp add: session_emission_def Let_def)
qed

lemma sum_list_div_le: "sum_list (map (\<lambda>x. f x div c) xs) \<le> sum_list (map f xs) div (c :: nat)"
proof (induction xs)
  case (Cons x xs)
  then have "f x div c + sum_list (map (\<lambda>x. f x div c) xs) \<le> f x div c + sum_list (map f xs) div c"
    by simp
  also have "\<dots> \<le> (f x + sum_list (map f xs)) div c"
    by (metis div_add1_eq le_add1)
  finally show ?case by simp
qed simp

lemma session_reward_value:
  assumes "session_emission tot total_supply = Some e" and "tot \<noteq> 0" and "stake \<le> tot"
  shows "\<exists>r. session_reward stake tot total_supply = Some r \<and> unat r = unat e * unat stake div unat tot"
proof -
  have "unat e * unat stake div unat tot \<le> unat e"
    using assms(2,3) by (metis div_le_mono div_mult_self_is_m le_numeral_extra(3) less_le_not_le
        mult_le_mono2 neq0_conv unat_eq_zero word_le_nat_alt)
  moreover have "unat (ucast stake :: u128) \<le> 2 ^ 64"
    using u64_less [of stake] by simp
  moreover have "(ucast tot :: u128) \<noteq> 0"
    using assms(2) by (metis unat_eq_zero unat_widen_64_128 unsigned_0)
  ultimately show ?thesis
    using assms mul_div_le [of "ucast tot" "ucast stake" e e]
    by (auto simp: session_reward_def)
qed

section \<open>The life of a bond\<close>

lemma amount_in_epoch_le: "amount_in_epoch b e n \<le> bond_amount b"
  by (simp add: amount_in_epoch_def)

lemma epoch_of_div: "n \<noteq> 0 \<Longrightarrow> epoch_of h n = h div n"
  by (simp add: epoch_of_def checked_div_def)

lemma request_exit_at_True:
  "request_exit_at b day h n = (True, b') \<longleftrightarrow>
     exit_requested_at b = None \<and> can_request_exit b day \<and>
     b' = b\<lparr>active_amount := amount_in_epoch b (epoch_of h n) n, raised_at_height := h,
            exit_requested_at := Some day\<rparr>"
  by (auto simp: request_exit_at_def)

text \<open>
  The bonds the ledger can hold: opened by \<open>new_bond\<close>, moved by an exit request, and bonded again
  the way \<^verbatim>\<open>Ledger::bond\<close> does it (the bonding day is reset, then \<open>rejoin\<close>, then \<open>raise_to\<close>).
\<close>

inductive bond_reach :: "u64 \<Rightarrow> bond \<Rightarrow> bool" for heights_per_epoch where
  opened: "new_bond amount day = Some b \<Longrightarrow> bond_reach heights_per_epoch b"
| exiting: "bond_reach heights_per_epoch b \<Longrightarrow>
    bond_reach heights_per_epoch (snd (request_exit_at b day h heights_per_epoch))"
| rebonded: "bond_reach heights_per_epoch b \<Longrightarrow>
    bond_reach heights_per_epoch
      (raise_to (rejoin (b\<lparr>bonded_at_day := day\<rparr>) h heights_per_epoch) tot h heights_per_epoch)"

lemma can_request_exit_nat:
  "can_request_exit b day \<longleftrightarrow> unat (bonded_at_day b) + 90 \<le> unat day"
  by (auto simp: can_request_exit_def staking_consts word_nat)

lemma bond_reach_lock:
  "bond_reach n b \<Longrightarrow> exit_requested_at b = Some e \<Longrightarrow> unat (bonded_at_day b) + 90 \<le> unat e"
proof (induction arbitrary: e rule: bond_reach.induct)
  case (opened amount day b)
  then show ?case by (auto simp: new_bond_def split: if_splits)
next
  case (exiting b day h)
  then show ?case
    by (auto simp: request_exit_at_def can_request_exit_nat split: if_splits)
next
  case (rebonded b day h tot)
  then show ?case by (auto simp: raise_to_def rejoin_def split: if_splits)
qed

section \<open>Claims\<close>

text \<open>
  C2: every bond record has exactly one stored form: the decoder of \<^verbatim>\<open>Bond\<close> accepts the input
  if and only if the input is the encoding of the bond it returns.
\<close>

theorem bond_codec_canonical:
  "from_bytes decode_bond input = Inr b \<longleftrightarrow>
     to_bytes encode_bond b = input \<and> length input < 2 ^ 64"
  by (simp add: bondc.from_bytes_iff)

text \<open>
  C3: the validator reward never panics, never falls when more blocks are completed, and never
  exceeds the 33333333 quon of the top tier.
\<close>

theorem validator_reward_mono:
  assumes "m \<le> n"
  shows "\<exists>a b. validator_reward m = Some a \<and> validator_reward n = Some b \<and>
    a \<le> b \<and> b \<le> 33333333"
proof -
  obtain a b where "validator_reward m = Some a" "unat a = reward_usd (unat m) * 1000000 div 3000"
    and "validator_reward n = Some b" "unat b = reward_usd (unat n) * 1000000 div 3000"
    using validator_reward_value by blast
  moreover have "reward_usd (unat m) * 1000000 div 3000 \<le> reward_usd (unat n) * 1000000 div 3000"
    using assms by (intro div_le_mono mult_le_mono1 reward_usd_mono) (simp add: word_nat)
  moreover have "reward_usd (unat n) * 1000000 div 3000 \<le> 33333333"
    using reward_usd_bound [of "unat n"] by linarith
  ultimately show ?thesis
    by (auto simp: word_nat)
qed

theorem validator_reward_mono_witness:
  "\<exists>a b. validator_reward 149999999 = Some a \<and> validator_reward 150000000 = Some b \<and>
     a \<le> b \<and> b \<le> 33333333"
  using validator_reward_mono [of 149999999 150000000] by simp

text \<open>
  A slash takes the whole bond, whatever its size, and never panics.
\<close>

theorem slash_takes_all: "slash amount fault = Some amount"
proof -
  have "unat amount * 10000 div 10000 \<le> unat amount" by simp
  then obtain r where "mul_div amount SLASH_ATTRIBUTABLE_BPS BPS_DENOM = Some r" "unat r = unat amount"
    using mul_div_le [of BPS_DENOM SLASH_ATTRIBUTABLE_BPS amount amount]
    by (auto simp: staking_consts)
  then show ?thesis
    by (cases fault) (simp add: slash_def word_unat_eq_iff)
qed

text \<open>
  C4: a session pays out no more than its emission, and the emission is at most five percent of the
  supply.  For any list of stakes that add up to no more than the total staked, every reward is
  computed without a panic and the rewards together stay within the emission.
\<close>

theorem session_rewards_within_emission:
  assumes "sum_list (map unat stakes) \<le> unat tot" and "tot \<noteq> 0"
  shows "\<exists>e rs. session_emission tot total_supply = Some e \<and>
    map (\<lambda>s. session_reward s tot total_supply) stakes = map Some rs \<and>
    sum_list (map unat rs) \<le> unat e \<and> unat e * 10000 \<le> unat total_supply * 500"
proof -
  obtain e where e: "session_emission tot total_supply = Some e"
    "unat e * 10000 \<le> unat total_supply * 500"
    using session_emission_value by blast
  define r where "r s = the (session_reward s tot total_supply)" for s
  have "s \<le> tot" if "s \<in> set stakes" for s
    using member_le_sum_list [of "unat s" "map unat stakes"] that assms(1)
    by (simp add: word_le_nat_alt)
  then have r: "session_reward s tot total_supply = Some (r s) \<and>
      unat (r s) = unat e * unat s div unat tot" if "s \<in> set stakes" for s
    using session_reward_value [OF e(1) assms(2)] that by (fastforce simp: r_def)
  have "sum_list (map unat (map r stakes)) = sum_list (map (\<lambda>s. unat e * unat s div unat tot) stakes)"
    using r by (simp cong: map_cong)
  also have "\<dots> \<le> sum_list (map (\<lambda>s. unat e * unat s) stakes) div unat tot"
    by (rule sum_list_div_le)
  also have "\<dots> = unat e * sum_list (map unat stakes) div unat tot"
    by (simp add: sum_list_const_mult)
  also have "\<dots> \<le> unat e * unat tot div unat tot"
    using assms(1) by (intro div_le_mono mult_le_mono2)
  also have "\<dots> = unat e"
    using assms(2) by (simp add: unat_eq_zero)
  finally show ?thesis
    using e r by (auto intro!: exI [of _ "map r stakes"])
qed

theorem session_rewards_within_emission_witness:
  "\<exists>e rs. session_emission 5000 1000000 = Some e \<and>
    map (\<lambda>s. session_reward s 5000 1000000) [2000, 3000] = map Some rs \<and>
    sum_list (map unat rs) \<le> unat e \<and> unat e * 10000 \<le> unat (1000000 :: u64) * 500"
  using session_rewards_within_emission [of "[2000, 3000]" 5000 1000000] by simp

text \<open>
  C5: stake moves only at an epoch boundary.  Raising a bond gives no more weight in the epoch of
  the raise and the whole new amount from the next one; asking to exit keeps the weight of the
  current epoch and drops it to zero from the next one; rejoining keeps the weight of the current
  epoch.
\<close>

theorem bond_weight_moves_at_epoch_boundary:
  assumes "n \<noteq> 0" and "epoch_of h n < later"
  shows "(exit_requested_at b = None \<longrightarrow>
      weight_in_epoch (raise_to b tot h n) (epoch_of h n) n
        = min (weight_in_epoch b (epoch_of h n) n) tot \<and>
      weight_in_epoch (raise_to b tot h n) later n = tot) \<and>
    (\<forall>day b'. request_exit_at b day h n = (True, b') \<longrightarrow>
      weight_in_epoch b' (epoch_of h n) n = weight_in_epoch b (epoch_of h n) n \<and>
      weight_in_epoch b' later n = 0) \<and>
    weight_in_epoch (rejoin b h n) (epoch_of h n) n = weight_in_epoch b (epoch_of h n) n"
  using assms amount_in_epoch_le [of b "epoch_of h n" n]
  by (auto simp: weight_in_epoch_def raise_to_def rejoin_def request_exit_at_True amount_in_epoch_def
      epoch_of_div min_def split: if_splits)

definition sample_bond :: bond where
  "sample_bond = \<lparr>bond_amount = 2000000000, bonded_at_day = 0, exit_requested_at = None,
     active_amount = 2000000000, raised_at_height = 0\<rparr>"

theorem bond_weight_moves_at_epoch_boundary_witness:
  "weight_in_epoch (raise_to sample_bond 9000000000 25 10) 2 10 = 2000000000 \<and>
   weight_in_epoch (raise_to sample_bond 9000000000 25 10) 3 10 = 9000000000 \<and>
   weight_in_epoch (snd (request_exit_at sample_bond 90 25 10)) 2 10 = 2000000000 \<and>
   weight_in_epoch (snd (request_exit_at sample_bond 90 25 10)) 3 10 = 0"
proof -
  have e: "epoch_of 25 10 = 2" by (simp add: epoch_of_div)
  have w: "weight_in_epoch sample_bond 2 10 = 2000000000"
    by (simp add: weight_in_epoch_def amount_in_epoch_def sample_bond_def)
  have x: "request_exit_at sample_bond 90 25 10 = (True, snd (request_exit_at sample_bond 90 25 10))"
    by (simp add: request_exit_at_def can_request_exit_def staking_consts saturating_sub_def
        sample_bond_def)
  show ?thesis
    using bond_weight_moves_at_epoch_boundary [of 10 25 3 sample_bond 9000000000] e w x
    by (simp add: sample_bond_def)
qed

text \<open>
  C6: no stake leaves before the lock and the unbonding window have run.  Whatever sequence of
  openings, exit requests and re-bonds led to the bond, when it can be withdrawn at least 111 days
  have passed since it was last bonded.
\<close>

theorem no_early_withdrawal:
  assumes "bond_reach n b" and "can_withdraw b now = Some True"
  shows "\<exists>day. earliest_exit_day b = Some day \<and> day \<le> now"
proof -
  from assms(2) obtain e w where e: "exit_requested_at b = Some e"
    and "unat e + 21 = unat w" and "w \<le> now"
    by (auto simp: can_withdraw_def staking_consts word_nat split: option.splits bind_splits)
  with bond_reach_lock [OF assms(1) e] have bound: "unat (bonded_at_day b) + 111 \<le> unat now"
    by (simp add: word_le_nat_alt)
  then have "unat (bonded_at_day b) + 111 < 2 ^ 64"
    using u64_less [of now] by linarith
  with bound show ?thesis
    by (simp add: earliest_exit_day_def checked_add_def staking_consts word_le_nat_alt
        unat_word_ariths)
qed

theorem no_early_withdrawal_witness:
  "\<exists>day. earliest_exit_day (snd (request_exit_at sample_bond 90 5 10)) = Some day \<and> day \<le> 111"
proof -
  have "new_bond 2000000000 0 = Some sample_bond"
    by (simp add: new_bond_def eligible_def staking_consts sample_bond_def)
  then have "bond_reach 10 (snd (request_exit_at sample_bond 90 5 10))"
    by (intro bond_reach.intros)
  moreover have "can_withdraw (snd (request_exit_at sample_bond 90 5 10)) 111 = Some True"
    by (simp add: can_withdraw_def request_exit_at_def can_request_exit_def staking_consts
        saturating_sub_def checked_add_def sample_bond_def)
  ultimately show ?thesis by (rule no_early_withdrawal)
qed

end
