(* ===== verification/Governance.thy ===== *)
theory Governance
  imports Codec "HOL-Library.Multiset"
begin

text \<open>
  Governance, \<^verbatim>\<open>src/crates/qtv-governance/src/lib.rs\<close>: tracks and their parameters,
  conviction voting and the tally, the proposable actions and their encoding, the guardian set and
  its quorum, the checks at enactment, and the referendum with its decision and enactment window,
  with the readers of the older stored formats.  Constructors of \<^verbatim>\<open>Action\<close> that share
  their name with a track carry the prefix \<open>Act_\<close>.
\<close>

section \<open>Parameters\<close>

definition MIN_SEIZURE :: nat where "MIN_SEIZURE = 16"
definition MIN_BYTES_VEC :: nat where "MIN_BYTES_VEC = 8"
definition NATIVE_UNIT :: u64 where "NATIVE_UNIT = 1000000"
definition BPS_DENOM :: u128 where "BPS_DENOM = 10000"
definition PARTICIPATION_FLOOR_BPS :: u128 where "PARTICIPATION_FLOOR_BPS = 2500"
definition DAY_SECONDS :: u64 where "DAY_SECONDS = 86400"
definition HOUR_SECONDS :: u64 where "HOUR_SECONDS = 3600"
definition MONTH_SECONDS :: u64 where "MONTH_SECONDS = 30 * DAY_SECONDS"
definition YEAR_SECONDS :: u64 where "YEAR_SECONDS = 365 * DAY_SECONDS"
definition MIN_GOV_DEPOSIT :: u64 where "MIN_GOV_DEPOSIT = 1000 * NATIVE_UNIT"
definition MAX_GOV_DEPOSIT_BPS :: u64 where "MAX_GOV_DEPOSIT_BPS = 1000"
definition ENACTMENT_WINDOW :: u64 where "ENACTMENT_WINDOW = 30 * DAY_SECONDS"

lemmas gov_consts = MIN_SEIZURE_def MIN_BYTES_VEC_def NATIVE_UNIT_def BPS_DENOM_def
  PARTICIPATION_FLOOR_BPS_def DAY_SECONDS_def HOUR_SECONDS_def MONTH_SECONDS_def YEAR_SECONDS_def
  MIN_GOV_DEPOSIT_def MAX_GOV_DEPOSIT_BPS_def ENACTMENT_WINDOW_def

definition gov_deposit_bounds :: "u64 \<Rightarrow> (u64 \<times> u64) option" where
  "gov_deposit_bounds total_supply = do {
     ceiling \<leftarrow> mul_div total_supply (ucast MAX_GOV_DEPOSIT_BPS) 10000;
     Some (MIN_GOV_DEPOSIT, max ceiling (MIN_GOV_DEPOSIT * 2)) }"

datatype track = ChainUpgrade | Mint | BridgeMigration | FreezeRecovery | BlacklistKill

definition all_tracks :: "track list" where
  "all_tracks = [ChainUpgrade, Mint, BridgeMigration, FreezeRecovery, BlacklistKill]"

definition track_deposit :: "track \<Rightarrow> u64" where
  "track_deposit t = (case t of ChainUpgrade \<Rightarrow> 225000 | Mint \<Rightarrow> 400000 | BridgeMigration \<Rightarrow> 150000
     | FreezeRecovery \<Rightarrow> 29250 | BlacklistKill \<Rightarrow> 39000) * NATIVE_UNIT"

definition period_seconds :: "track \<Rightarrow> u64" where
  "period_seconds t = (case t of ChainUpgrade \<Rightarrow> 14 * DAY_SECONDS | Mint \<Rightarrow> 3 * DAY_SECONDS
     | BridgeMigration \<Rightarrow> 5 * DAY_SECONDS | FreezeRecovery \<Rightarrow> 6 * HOUR_SECONDS
     | BlacklistKill \<Rightarrow> 2 * DAY_SECONDS)"

definition track_code :: "track \<Rightarrow> u8" where
  "track_code t = (case t of ChainUpgrade \<Rightarrow> 1 | Mint \<Rightarrow> 2 | BridgeMigration \<Rightarrow> 3
     | FreezeRecovery \<Rightarrow> 4 | BlacklistKill \<Rightarrow> 5)"

definition threshold_bps :: "track \<Rightarrow> u128" where
  "threshold_bps t = (case t of ChainUpgrade \<Rightarrow> 6667 | Mint \<Rightarrow> 6667 | BridgeMigration \<Rightarrow> 6667
     | FreezeRecovery \<Rightarrow> 7500 | BlacklistKill \<Rightarrow> 7500)"

definition enactment_delay :: "track \<Rightarrow> u64" where
  "enactment_delay t = (case t of ChainUpgrade \<Rightarrow> 7 * DAY_SECONDS | Mint \<Rightarrow> 7 * DAY_SECONDS
     | BridgeMigration \<Rightarrow> 7 * DAY_SECONDS | BlacklistKill \<Rightarrow> DAY_SECONDS
     | FreezeRecovery \<Rightarrow> HOUR_SECONDS)"

definition track_from_code :: "u8 \<Rightarrow> track option" where
  "track_from_code code = List.find (\<lambda>t. track_code t = code) all_tracks"

definition encode_track :: "track \<Rightarrow> encoder \<Rightarrow> encoder" where
  "encode_track t = put_u8 (track_code t)"

definition decode_track :: "track decode" where
  "decode_track = dbind get_u8 (\<lambda>code.
     case track_from_code code of None \<Rightarrow> dfail (UnknownTag code) | Some t \<Rightarrow> dret t)"

definition BRIDGE_FREEZE_BOND :: u64 where "BRIDGE_FREEZE_BOND = track_deposit BlacklistKill"
definition BRIDGE_FREEZE_DURATION :: u64 where "BRIDGE_FREEZE_DURATION = 7 * DAY_SECONDS"
definition BRIDGE_FREEZE_COOLDOWN :: u64 where "BRIDGE_FREEZE_COOLDOWN = DAY_SECONDS"
definition BRIDGE_FREEZE_REFUND_GRACE :: u64 where "BRIDGE_FREEZE_REFUND_GRACE = HOUR_SECONDS"

section \<open>Conviction, ballots and the tally\<close>

datatype conviction = Liquid | Year | TwoYear

definition factor_x10 :: "conviction \<Rightarrow> u128" where
  "factor_x10 c = (case c of Liquid \<Rightarrow> 10 | Year \<Rightarrow> 15 | TwoYear \<Rightarrow> 25)"

definition lock_seconds :: "conviction \<Rightarrow> u64" where
  "lock_seconds c = (case c of Liquid \<Rightarrow> MONTH_SECONDS | Year \<Rightarrow> YEAR_SECONDS | TwoYear \<Rightarrow> 2 * YEAR_SECONDS)"

definition conviction_code :: "conviction \<Rightarrow> u8" where
  "conviction_code c = (case c of Liquid \<Rightarrow> 0 | Year \<Rightarrow> 1 | TwoYear \<Rightarrow> 2)"

definition conviction_from_code :: "u8 \<Rightarrow> conviction option" where
  "conviction_from_code code =
     (if code = 0 then Some Liquid else if code = 1 then Some Year
      else if code = 2 then Some TwoYear else None)"

definition conviction_weight :: "conviction \<Rightarrow> u64 \<Rightarrow> u128 option" where
  "conviction_weight c stake = do {
     p \<leftarrow> checked_mul (ucast stake) (factor_x10 c);
     checked_div p 10 }"

definition encode_conviction :: "conviction \<Rightarrow> encoder \<Rightarrow> encoder" where
  "encode_conviction c = put_u8 (conviction_code c)"

definition decode_conviction :: "conviction decode" where
  "decode_conviction = dbind get_u8 (\<lambda>code.
     case conviction_from_code code of None \<Rightarrow> dfail (UnknownTag code) | Some c \<Rightarrow> dret c)"

record ballot =
  ballot_aye :: bool
  ballot_conviction :: conviction
  ballot_stake :: u64

definition ballot_weight :: "ballot \<Rightarrow> u128 option" where
  "ballot_weight b = conviction_weight (ballot_conviction b) (ballot_stake b)"

definition encode_ballot :: "ballot \<Rightarrow> encoder \<Rightarrow> encoder" where
  "encode_ballot b = puts [put_bool (ballot_aye b), encode_conviction (ballot_conviction b), put_u64 (ballot_stake b)]"

definition decode_ballot :: "ballot decode" where
  "decode_ballot = dbind get_bool (\<lambda>y. dbind decode_conviction (\<lambda>c. dbind get_u64 (\<lambda>s.
     dret \<lparr>ballot_aye = y, ballot_conviction = c, ballot_stake = s\<rparr>)))"

record lock =
  lock_amount :: u64
  lock_until :: u64

definition withdrawable :: "lock \<Rightarrow> u64 \<Rightarrow> bool" where
  "withdrawable l now \<longleftrightarrow> lock_until l \<le> now"

definition encode_lock :: "lock \<Rightarrow> encoder \<Rightarrow> encoder" where
  "encode_lock l = puts [put_u64 (lock_amount l), put_u64 (lock_until l)]"

definition decode_lock :: "lock decode" where
  "decode_lock = dbind get_u64 (\<lambda>a. dbind get_u64 (\<lambda>u. dret \<lparr>lock_amount = a, lock_until = u\<rparr>))"

record tally =
  aye_stake :: u128
  nay_stake :: u128
  aye_weight :: u128
  nay_weight :: u128

definition tally_default :: tally where
  "tally_default = \<lparr>aye_stake = 0, nay_stake = 0, aye_weight = 0, nay_weight = 0\<rparr>"

definition record_weighted :: "bool \<Rightarrow> u128 \<Rightarrow> u128 \<Rightarrow> tally \<Rightarrow> tally" where
  "record_weighted y s w t =
     (if y then t\<lparr>aye_stake := saturating_add (aye_stake t) s, aye_weight := saturating_add (aye_weight t) w\<rparr>
      else t\<lparr>nay_stake := saturating_add (nay_stake t) s, nay_weight := saturating_add (nay_weight t) w\<rparr>)"

definition record_stake :: "bool \<Rightarrow> u128 \<Rightarrow> tally \<Rightarrow> tally" where
  "record_stake y s = record_weighted y s s"

definition record_conviction :: "bool \<Rightarrow> conviction \<Rightarrow> u64 \<Rightarrow> tally \<Rightarrow> tally option" where
  "record_conviction y c s t = do {
     w \<leftarrow> conviction_weight c s;
     Some (record_weighted y (ucast s) w t) }"

definition turnout :: "tally \<Rightarrow> u128" where
  "turnout t = saturating_add (aye_stake t) (nay_stake t)"

definition approved :: "tally \<Rightarrow> u128 \<Rightarrow> u128 \<Rightarrow> bool" where
  "approved t electorate_stake threshold \<longleftrightarrow>
     0 < electorate_stake \<and>
     saturating_mul electorate_stake PARTICIPATION_FLOOR_BPS \<le> saturating_mul (turnout t) BPS_DENOM \<and>
     saturating_mul electorate_stake threshold \<le> saturating_mul (aye_stake t) BPS_DENOM \<and>
     nay_stake t < aye_stake t \<and>
     nay_weight t < aye_weight t"

definition encode_tally :: "tally \<Rightarrow> encoder \<Rightarrow> encoder" where
  "encode_tally t =
     puts [put_u128 (aye_stake t), put_u128 (nay_stake t), put_u128 (aye_weight t), put_u128 (nay_weight t)]"

definition decode_tally :: "tally decode" where
  "decode_tally = dbind get_u128 (\<lambda>a. dbind get_u128 (\<lambda>n. dbind get_u128 (\<lambda>aw. dbind get_u128 (\<lambda>nw.
     dret \<lparr>aye_stake = a, nay_stake = n, aye_weight = aw, nay_weight = nw\<rparr>))))"

section \<open>Actions\<close>

record seizure =
  seizure_from :: bytes
  seizure_amount :: u64

definition encode_seizure :: "seizure \<Rightarrow> encoder \<Rightarrow> encoder" where
  "encode_seizure s = puts [put_bytes (seizure_from s), put_u64 (seizure_amount s)]"

definition decode_seizure :: "seizure decode" where
  "decode_seizure = dbind get_bytes (\<lambda>f. dbind get_u64 (\<lambda>a.
     dret \<lparr>seizure_from = f, seizure_amount = a\<rparr>))"

record operator_claim =
  operator_id :: u32
  public_key :: bytes
  pop :: bytes

definition encode_operator_claim :: "operator_claim \<Rightarrow> encoder \<Rightarrow> encoder" where
  "encode_operator_claim c =
     puts [put_u32 (operator_id c), put_bytes (public_key c), put_bytes (pop c)]"

definition decode_operator_claim :: "operator_claim decode" where
  "decode_operator_claim = dbind get_u32 (\<lambda>i. dbind get_bytes (\<lambda>k. dbind get_bytes (\<lambda>p.
     dret \<lparr>operator_id = i, public_key = k, pop = p\<rparr>)))"

record committee_rotation =
  rotation_operators :: "operator_claim list"
  rotation_threshold :: u32

definition encode_rotation :: "committee_rotation \<Rightarrow> encoder \<Rightarrow> encoder" where
  "encode_rotation r =
     puts [put_list encode_operator_claim (rotation_operators r), put_u32 (rotation_threshold r)]"

definition decode_rotation :: "committee_rotation decode" where
  "decode_rotation = dbind (get_list MIN_BYTES_VEC decode_operator_claim) (\<lambda>os. dbind get_u32 (\<lambda>t.
     dret \<lparr>rotation_operators = os, rotation_threshold = t\<rparr>))"

record guardian_set =
  members :: "bytes list"
  guardian_threshold :: u32

definition well_formed :: "guardian_set \<Rightarrow> bool" where
  "well_formed g \<longleftrightarrow>
     2 \<le> guardian_threshold g \<and>
     unat (guardian_threshold g) \<le> length (members g) \<and>
     length (members g) < unat (guardian_threshold g) * 2"

definition is_member :: "guardian_set \<Rightarrow> bytes \<Rightarrow> bool" where
  "is_member g i \<longleftrightarrow> i \<in> set (members g)"

fun authorizes_loop :: "guardian_set \<Rightarrow> bytes list \<Rightarrow> bytes list \<Rightarrow> bytes list" where
  "authorizes_loop g seen [] = seen"
| "authorizes_loop g seen (a # as) =
     authorizes_loop g (if is_member g a \<and> a \<notin> set seen then seen @ [a] else seen) as"

definition authorizes :: "guardian_set \<Rightarrow> bytes list \<Rightarrow> bool" where
  "authorizes g approvers \<longleftrightarrow>
     well_formed g \<and>
     guardian_threshold g \<le> word_of_nat (length (authorizes_loop g [] approvers))"

definition encode_guardian_set :: "guardian_set \<Rightarrow> encoder \<Rightarrow> encoder" where
  "encode_guardian_set g = puts [put_list put_bytes (members g), put_u32 (guardian_threshold g)]"

definition decode_guardian_set :: "guardian_set decode" where
  "decode_guardian_set =
     dbind (get_list MIN_SEIZURE (get_array 32 (UnknownTag 0))) (\<lambda>ms. dbind get_u32 (\<lambda>t.
       dret \<lparr>members = ms, guardian_threshold = t\<rparr>))"

datatype action =
    Activate bytes u64
  | Act_Mint bytes u64
  | Act_BridgeMigration bytes
  | BridgeUnfreeze
  | GuardianRotate guardian_set
  | CommitteeRotate committee_rotation
  | AssetRegister bytes u128 u128 bool
  | BridgeAnchorSet u8 bytes
  | EpochAdvance
  | OperatorRevoke u32
  | Act_FreezeRecovery bytes bytes "seizure list"
  | Freeze "bytes list"
  | Blacklist bytes
  | Parameter bytes bytes
  | Spend bytes bytes u64
  | Unfreeze "bytes list"

definition action_track :: "action \<Rightarrow> track" where
  "action_track a = (case a of
       Activate _ _ \<Rightarrow> ChainUpgrade
     | Act_Mint _ _ \<Rightarrow> Mint
     | Act_BridgeMigration _ \<Rightarrow> BridgeMigration
     | BridgeUnfreeze \<Rightarrow> BlacklistKill
     | GuardianRotate _ \<Rightarrow> ChainUpgrade
     | CommitteeRotate _ \<Rightarrow> BridgeMigration
     | AssetRegister _ _ _ _ \<Rightarrow> BridgeMigration
     | BridgeAnchorSet _ _ \<Rightarrow> BridgeMigration
     | EpochAdvance \<Rightarrow> BridgeMigration
     | OperatorRevoke _ \<Rightarrow> BridgeMigration
     | Act_FreezeRecovery _ _ _ \<Rightarrow> FreezeRecovery
     | Blacklist _ \<Rightarrow> BlacklistKill
     | Freeze _ \<Rightarrow> BlacklistKill
     | Parameter _ _ \<Rightarrow> ChainUpgrade
     | Spend _ _ _ \<Rightarrow> Mint
     | Unfreeze _ \<Rightarrow> BlacklistKill)"

definition recovery_scope_preimage :: "u64 \<Rightarrow> bytes \<Rightarrow> seizure list \<Rightarrow> bytes" where
  "recovery_scope_preimage chain_id victim seizures =
     puts [put_u64 chain_id, put_bytes victim, put_list encode_seizure seizures] []"

definition encode_action :: "action \<Rightarrow> encoder \<Rightarrow> encoder" where
  "encode_action a = (case a of
       Activate feature version \<Rightarrow> puts [put_u8 1, put_bytes feature, put_u64 version]
     | Act_Mint to amount \<Rightarrow> puts [put_u8 2, put_bytes to, put_u64 amount]
     | Act_BridgeMigration vault \<Rightarrow> puts [put_u8 3, put_bytes vault]
     | BridgeUnfreeze \<Rightarrow> puts [put_u8 11]
     | GuardianRotate g \<Rightarrow> puts [put_u8 12, encode_guardian_set g]
     | CommitteeRotate r \<Rightarrow> puts [put_u8 13, encode_rotation r]
     | AssetRegister asset_id cap epoch_cap requires_stark \<Rightarrow>
         puts [put_u8 14, put_bytes asset_id, put_u128 cap, put_u128 epoch_cap, put_bool requires_stark]
     | BridgeAnchorSet corridor anchor \<Rightarrow> puts [put_u8 17, put_u8 corridor, put_bytes anchor]
     | EpochAdvance \<Rightarrow> puts [put_u8 15]
     | OperatorRevoke i \<Rightarrow> puts [put_u8 16, put_u32 i]
     | Act_FreezeRecovery scope victim seizures \<Rightarrow>
         puts [put_u8 4, put_bytes scope, put_bytes victim, put_list encode_seizure seizures]
     | Freeze targets \<Rightarrow> puts [put_u8 5, put_list put_bytes targets]
     | Blacklist target \<Rightarrow> puts [put_u8 6, put_bytes target]
     | Parameter key val \<Rightarrow> puts [put_u8 8, put_bytes key, put_bytes val]
     | Spend from to amount \<Rightarrow> puts [put_u8 9, put_bytes from, put_bytes to, put_u64 amount]
     | Unfreeze targets \<Rightarrow> puts [put_u8 10, put_list put_bytes targets])"

definition decode_action_body :: "u8 \<Rightarrow> action decode" where
  "decode_action_body tag =
     (if tag = 1 then dbind get_bytes (\<lambda>f. dbind get_u64 (\<lambda>v. dret (Activate f v)))
      else if tag = 2 then dbind get_bytes (\<lambda>t. dbind get_u64 (\<lambda>a. dret (Act_Mint t a)))
      else if tag = 3 then dbind get_bytes (\<lambda>v. dret (Act_BridgeMigration v))
      else if tag = 11 then dret BridgeUnfreeze
      else if tag = 12 then dbind decode_guardian_set (\<lambda>g. dret (GuardianRotate g))
      else if tag = 13 then dbind decode_rotation (\<lambda>r. dret (CommitteeRotate r))
      else if tag = 14 then
        dbind (get_array 16 (UnknownTag tag)) (\<lambda>i. dbind get_u128 (\<lambda>c. dbind get_u128 (\<lambda>e.
          dbind get_flag (\<lambda>s. dret (AssetRegister i c e s)))))
      else if tag = 15 then dret EpochAdvance
      else if tag = 16 then dbind get_u32 (\<lambda>i. dret (OperatorRevoke i))
      else if tag = 17 then dbind get_u8 (\<lambda>c. dbind get_bytes (\<lambda>a. dret (BridgeAnchorSet c a)))
      else if tag = 4 then
        dbind (get_array 32 (UnknownTag tag)) (\<lambda>s. dbind get_bytes (\<lambda>v.
          dbind (get_list MIN_SEIZURE decode_seizure) (\<lambda>ss. dret (Act_FreezeRecovery s v ss))))
      else if tag = 5 then dbind (get_list MIN_BYTES_VEC get_bytes) (\<lambda>ts. dret (Freeze ts))
      else if tag = 6 then dbind get_bytes (\<lambda>t. dret (Blacklist t))
      else if tag = 8 then dbind get_bytes (\<lambda>k. dbind get_bytes (\<lambda>v. dret (Parameter k v)))
      else if tag = 9 then
        dbind get_bytes (\<lambda>f. dbind get_bytes (\<lambda>t. dbind get_u64 (\<lambda>a. dret (Spend f t a))))
      else if tag = 10 then dbind (get_list MIN_BYTES_VEC get_bytes) (\<lambda>ts. dret (Unfreeze ts))
      else dfail (UnknownTag tag))"

definition decode_action :: "action decode" where
  "decode_action = dbind get_u8 decode_action_body"

record bridge_freeze =
  freeze_who :: bytes
  freeze_bond :: u64
  freeze_until :: u64

definition encode_bridge_freeze :: "bridge_freeze \<Rightarrow> encoder \<Rightarrow> encoder" where
  "encode_bridge_freeze b =
     puts [put_bytes (freeze_who b), put_u64 (freeze_bond b), put_u64 (freeze_until b)]"

definition decode_bridge_freeze :: "bridge_freeze decode" where
  "decode_bridge_freeze = dbind (get_array 32 (UnknownTag 0)) (\<lambda>w. dbind get_u64 (\<lambda>b. dbind get_u64 (\<lambda>u.
     dret \<lparr>freeze_who = w, freeze_bond = b, freeze_until = u\<rparr>)))"

section \<open>Enactment checks\<close>

datatype violation =
    WrongTrack
  | RecoveryOutOfScope
  | RecoveryTouchesProtected
  | FreezeTouchesProtected
  | BlacklistTouchesProtected

definition check_enactment :: "track \<Rightarrow> action \<Rightarrow> bool \<Rightarrow> (bytes \<Rightarrow> bool) \<Rightarrow> violation + unit" where
  "check_enactment t a scope_ok is_protected =
     (if action_track a \<noteq> t then Inl WrongTrack
      else case a of
        Act_FreezeRecovery _ _ seizures \<Rightarrow>
          if \<not> scope_ok then Inl RecoveryOutOfScope
          else if \<exists>s \<in> set seizures. is_protected (seizure_from s) then Inl RecoveryTouchesProtected
          else Inr ()
      | Freeze targets \<Rightarrow>
          if \<exists>x \<in> set targets. is_protected x then Inl FreezeTouchesProtected else Inr ()
      | Blacklist target \<Rightarrow>
          if is_protected target then Inl BlacklistTouchesProtected else Inr ()
      | _ \<Rightarrow> Inr ())"

section \<open>Referenda\<close>

datatype status = Deciding | Approved | Rejected

definition status_code :: "status \<Rightarrow> u8" where
  "status_code s = (case s of Deciding \<Rightarrow> 0 | Approved \<Rightarrow> 1 | Rejected \<Rightarrow> 2)"

definition status_from_code :: "u8 \<Rightarrow> status option" where
  "status_from_code code =
     (if code = 0 then Some Deciding else if code = 1 then Some Approved
      else if code = 2 then Some Rejected else None)"

record referendum =
  ref_id :: u64
  ref_track :: track
  ref_proposer :: bytes
  ref_deposit :: u64
  submitted_at :: u64
  ref_tally :: tally
  ref_status :: status
  killed :: bool

definition open_referendum :: "u64 \<Rightarrow> track \<Rightarrow> bytes \<Rightarrow> u64 \<Rightarrow> u64 \<Rightarrow> referendum" where
  "open_referendum i t proposer at dep =
     \<lparr>ref_id = i, ref_track = t, ref_proposer = proposer, ref_deposit = dep, submitted_at = at,
      ref_tally = tally_default, ref_status = Deciding, killed = False\<rparr>"

definition decides_at :: "referendum \<Rightarrow> u64" where
  "decides_at r = saturating_add (submitted_at r) (period_seconds (ref_track r))"

definition ready :: "referendum \<Rightarrow> u64 \<Rightarrow> bool" where
  "ready r now \<longleftrightarrow> decides_at r \<le> now"

definition enactment_opens :: "referendum \<Rightarrow> u64" where
  "enactment_opens r = saturating_add (decides_at r) (enactment_delay (ref_track r))"

definition enactment_expired :: "referendum \<Rightarrow> u64 \<Rightarrow> bool" where
  "enactment_expired r now \<longleftrightarrow> saturating_add (enactment_opens r) ENACTMENT_WINDOW \<le> now"

definition enactable :: "referendum \<Rightarrow> u64 \<Rightarrow> bool" where
  "enactable r now \<longleftrightarrow> enactment_opens r \<le> now \<and> \<not> enactment_expired r now"

definition resolve :: "u64 \<Rightarrow> u128 \<Rightarrow> referendum \<Rightarrow> status \<times> referendum" where
  "resolve now electorate_stake r =
     (if ref_status r \<noteq> Deciding then (ref_status r, r)
      else if killed r then (Rejected, r\<lparr>ref_status := Rejected\<rparr>)
      else if \<not> ready r now then (Deciding, r)
      else
        let s = (if approved (ref_tally r) electorate_stake (threshold_bps (ref_track r))
                 then Approved else Rejected)
        in (s, r\<lparr>ref_status := s\<rparr>))"

definition deposit_refunded :: "referendum \<Rightarrow> u128 \<Rightarrow> bool" where
  "deposit_refunded r electorate_stake \<longleftrightarrow>
     \<not> killed r \<and> approved (ref_tally r) electorate_stake (threshold_bps (ref_track r))"

definition encode_referendum :: "referendum \<Rightarrow> encoder \<Rightarrow> encoder" where
  "encode_referendum r =
     puts [put_u64 (ref_id r), encode_track (ref_track r), put_bytes (ref_proposer r),
       put_u64 (ref_deposit r), put_u64 (submitted_at r), encode_tally (ref_tally r),
       put_u8 (status_code (ref_status r)), put_bool (killed r)]"

text \<open>The fields a referendum starts with and ends with, around its tally.\<close>

definition get_status :: "status decode" where
  "get_status = dbind get_u8 (\<lambda>code.
     case status_from_code code of None \<Rightarrow> dfail (UnknownTag code) | Some s \<Rightarrow> dret s)"

definition decode_referendum_with :: "tally decode \<Rightarrow> referendum decode" where
  "decode_referendum_with get_tally =
     dbind get_u64 (\<lambda>i. dbind decode_track (\<lambda>t. dbind get_bytes (\<lambda>p. dbind get_u64 (\<lambda>dep.
     dbind get_u64 (\<lambda>at. dbind get_tally (\<lambda>ta. dbind get_status (\<lambda>s. dbind get_flag (\<lambda>k.
       dret \<lparr>ref_id = i, ref_track = t, ref_proposer = p, ref_deposit = dep, submitted_at = at,
             ref_tally = ta, ref_status = s, killed = k\<rparr>))))))))"

definition decode_referendum :: "referendum decode" where
  "decode_referendum = decode_referendum_with decode_tally"

definition legacy_tally :: "tally decode" where
  "legacy_tally = dbind get_u128 (\<lambda>a. dbind get_u128 (\<lambda>n.
     dret \<lparr>aye_stake = a, nay_stake = n, aye_weight = a, nay_weight = n\<rparr>))"

definition referendum_from_stored :: "bytes \<Rightarrow> referendum option" where
  "referendum_from_stored bs =
     (case from_bytes decode_referendum bs of
        Inr r \<Rightarrow> Some r
      | Inl _ \<Rightarrow> (case from_bytes (decode_referendum_with legacy_tally) bs of
                   Inr r \<Rightarrow> Some r | Inl _ \<Rightarrow> None))"

record enactment_receipt =
  receipt_referendum :: u64
  proposal_hash :: bytes
  receipt_scope :: bytes
  receipt_tally :: tally
  enacted_at :: u64

definition encode_receipt :: "enactment_receipt \<Rightarrow> encoder \<Rightarrow> encoder" where
  "encode_receipt r =
     puts [put_u64 (receipt_referendum r), put_bytes (proposal_hash r), put_bytes (receipt_scope r),
       encode_tally (receipt_tally r), put_u64 (enacted_at r)]"

definition decode_receipt_with :: "tally decode \<Rightarrow> enactment_receipt decode" where
  "decode_receipt_with get_tally =
     dbind get_u64 (\<lambda>i. dbind (get_array 32 (UnknownTag 0)) (\<lambda>h. dbind (get_array 32 (UnknownTag 0)) (\<lambda>s.
     dbind get_tally (\<lambda>t. dbind get_u64 (\<lambda>at.
       dret \<lparr>receipt_referendum = i, proposal_hash = h, receipt_scope = s, receipt_tally = t,
             enacted_at = at\<rparr>)))))"

definition decode_receipt :: "enactment_receipt decode" where
  "decode_receipt = decode_receipt_with decode_tally"

definition receipt_from_stored :: "bytes \<Rightarrow> enactment_receipt option" where
  "receipt_from_stored bs =
     (case from_bytes decode_receipt bs of
        Inr r \<Rightarrow> Some r
      | Inl _ \<Rightarrow> (case from_bytes (decode_receipt_with legacy_tally) bs of
                   Inr r \<Rightarrow> Some r | Inl _ \<Rightarrow> None))"

section \<open>Encodings\<close>

lemma track_from_code_iff: "track_from_code c = Some t \<longleftrightarrow> c = track_code t"
  by (cases t) (auto simp: track_from_code_def all_tracks_def track_code_def split: if_splits)

lemma conviction_from_code_iff: "conviction_from_code c = Some v \<longleftrightarrow> c = conviction_code v"
  by (cases v) (auto simp: conviction_from_code_def conviction_code_def)

lemma status_from_code_iff: "status_from_code c = Some s \<longleftrightarrow> c = status_code s"
  by (cases s) (auto simp: status_from_code_def status_code_def)

interpretation trackc: canonical_codec encode_track decode_track "\<lambda>_. True"
  by unfold_locales (auto simp: encode_track_def decode_track_def wire track_from_code_iff
      intro: u8c.encode_append)

interpretation convictionc: canonical_codec encode_conviction decode_conviction "\<lambda>_. True"
  by unfold_locales (auto simp: encode_conviction_def decode_conviction_def wire
      conviction_from_code_iff intro: u8c.encode_append)

lemmas [wire] = trackc.puts_encode trackc.decode_iff [symmetric, simplified]
  convictionc.puts_encode convictionc.decode_iff [symmetric, simplified]

interpretation ballotc: canonical_codec encode_ballot decode_ballot "\<lambda>_. True"
  by unfold_locales (auto simp: encode_ballot_def decode_ballot_def wire)

interpretation lockc: canonical_codec encode_lock decode_lock "\<lambda>_. True"
  by unfold_locales (auto simp: encode_lock_def decode_lock_def wire)

interpretation tallyc: canonical_codec encode_tally decode_tally "\<lambda>_. True"
  by unfold_locales (auto simp: encode_tally_def decode_tally_def wire)

interpretation seizurec: canonical_codec encode_seizure decode_seizure "\<lambda>_. True"
  by unfold_locales (auto simp: encode_seizure_def decode_seizure_def wire)

interpretation claimc: canonical_codec encode_operator_claim decode_operator_claim "\<lambda>_. True"
  by unfold_locales (auto simp: encode_operator_claim_def decode_operator_claim_def wire)

lemma element_sizes:
  "16 \<le> length (encode_seizure s [])"
  "8 \<le> length (encode_operator_claim c [])"
  "length m = 32 \<Longrightarrow> 16 \<le> length (put_bytes m [])"
  by (simp_all add: encode_seizure_def encode_operator_claim_def puts.simps put_append)

interpretation seizuresc:
  canonical_codec "put_list encode_seizure" "get_list MIN_SEIZURE decode_seizure" "\<lambda>_. True"
  using seizurec.list_canonical [of MIN_SEIZURE]
  by (simp add: list.pred_True element_sizes MIN_SEIZURE_def)

interpretation claimsc: canonical_codec "put_list encode_operator_claim"
  "get_list MIN_BYTES_VEC decode_operator_claim" "\<lambda>_. True"
  using claimc.list_canonical [of MIN_BYTES_VEC]
  by (simp add: list.pred_True element_sizes MIN_BYTES_VEC_def)

interpretation membersc: canonical_codec "put_list put_bytes"
  "get_list MIN_SEIZURE (get_array 32 (UnknownTag 0))" "list_all (\<lambda>m. length m = 32)"
  using arrayc.list_canonical [of MIN_SEIZURE 32]
  by (simp add: element_sizes MIN_SEIZURE_def)

lemma members_Inr [wire]:
  "get_list MIN_SEIZURE (get_array 32 (UnknownTag 0)) d = Inr (ms, d') \<longleftrightarrow>
     list_all (\<lambda>m. length m = 32) ms \<and> get_list 8 get_bytes d = Inr (ms, d')"
  by (simp only: membersc.decode_iff bytes_listc.decode_iff simp_thms)

interpretation targetsc: canonical_codec "put_list put_bytes" "get_list MIN_BYTES_VEC get_bytes" "\<lambda>_. True"
  unfolding MIN_BYTES_VEC_def by (rule bytes_listc.canonical_codec_axioms)

lemmas [wire] = MIN_BYTES_VEC_def tallyc.puts_encode tallyc.decode_iff [symmetric, simplified]
  seizuresc.puts_encode seizuresc.decode_iff [symmetric, simplified]
  claimsc.puts_encode claimsc.decode_iff [symmetric, simplified]

interpretation rotationc: canonical_codec encode_rotation decode_rotation "\<lambda>_. True"
  by unfold_locales (auto simp: encode_rotation_def decode_rotation_def wire)

interpretation guardianc: canonical_codec encode_guardian_set decode_guardian_set
  "\<lambda>g. list_all (\<lambda>m. length m = 32) (members g)"
  by unfold_locales (auto simp: encode_guardian_set_def decode_guardian_set_def wire)

interpretation freezec: canonical_codec encode_bridge_freeze decode_bridge_freeze
  "\<lambda>b. length (freeze_who b) = 32"
  by unfold_locales (auto simp: encode_bridge_freeze_def decode_bridge_freeze_def wire)

text \<open>The fixed-size arrays inside an action.\<close>

definition valid_action :: "action \<Rightarrow> bool" where
  "valid_action a = (case a of
       AssetRegister i _ _ _ \<Rightarrow> length i = 16
     | Act_FreezeRecovery s _ _ \<Rightarrow> length s = 32
     | GuardianRotate g \<Rightarrow> list_all (\<lambda>m. length m = 32) (members g)
     | _ \<Rightarrow> True)"

fun is_asset_register :: "action \<Rightarrow> bool" where
  "is_asset_register (AssetRegister _ _ _ _) = True"
| "is_asset_register _ = False"

lemmas [wire] = guardianc.puts_encode rotationc.puts_encode rotationc.decode_iff [symmetric, simplified]
  flagc.puts_encode

lemma guardian_read:
  "consumes d (encode_guardian_set g []) d' \<Longrightarrow> list_all (\<lambda>m. length m = 32) (members g) \<Longrightarrow>
     decode_guardian_set d = Inr (g, d')"
  by (simp add: guardianc.decode_iff)

interpretation actionc: wire_codec encode_action decode_action valid_action
proof
  show "encode_action a buf = buf @ encode_action a []" for a buf
    by (cases a) (simp_all add: encode_action_def wire)
next
  fix a d d'
  assume "valid_action a" "consumes d (encode_action a []) d'"
  then show "decode_action d = Inr (a, d')"
    by (cases a; clarsimp simp: encode_action_def valid_action_def wire;
      simp add: decode_action_def decode_action_body_def dbind_read get_array_read dret_def
        MIN_BYTES_VEC_def get_flag_written guardian_read)
qed

lemma decode_action_sound:
  assumes "decode_action d = Inr (a, d')"
  shows "valid_action a \<and> (is_asset_register a \<or> consumes d (encode_action a []) d')"
proof -
  from assms obtain tag d1 where tag: "get_u8 d = Inr (tag, d1)" "decode_action_body tag d1 = Inr (a, d')"
    by (auto simp: decode_action_def wire)
  then show ?thesis
    by (auto simp: decode_action_body_def encode_action_def valid_action_def wire
        guardianc.decode_iff split: if_splits)
qed

interpretation statusc: canonical_codec "\<lambda>s. put_u8 (status_code s)" get_status "\<lambda>_. True"
  by unfold_locales (auto simp: get_status_def wire status_from_code_iff intro: u8c.encode_append)

lemma status_read: "get_u8 d = Inr (status_code s, d') \<Longrightarrow> get_status d = Inr (s, d')"
  by (simp add: statusc.decode_iff u8c.decode_iff)

lemmas [wire] = statusc.puts_encode statusc.decode_iff [symmetric, simplified]

interpretation referendumc: wire_codec encode_referendum decode_referendum "\<lambda>_. True"
proof
  show "encode_referendum r buf = buf @ encode_referendum r []" for r buf
    by (simp add: encode_referendum_def wire)
next
  fix r d d'
  assume "consumes d (encode_referendum r []) d'"
  then show "decode_referendum d = Inr (r, d')"
    by (clarsimp simp: encode_referendum_def wire;
      simp add: decode_referendum_def decode_referendum_with_def dbind_read dret_def get_flag_written
        status_read)
qed

interpretation receiptc: canonical_codec encode_receipt decode_receipt
  "\<lambda>r. length (proposal_hash r) = 32 \<and> length (receipt_scope r) = 32"
  by unfold_locales (auto simp: encode_receipt_def decode_receipt_def decode_receipt_with_def wire)

text \<open>How far the fixed-size reads move, for the two generations of the stored formats.\<close>

lemma fixed_reads:
  "get_u8 d = Inr (a, d1) \<Longrightarrow> dpos d1 = dpos d + 1 \<and> dinput d1 = dinput d"
  "get_u64 d = Inr (b, d1) \<Longrightarrow> dpos d1 = dpos d + 8 \<and> dinput d1 = dinput d"
  "get_u128 d = Inr (c, d1) \<Longrightarrow> dpos d1 = dpos d + 16 \<and> dinput d1 = dinput d"
  by (auto simp: get_u8_Inr get_u64_Inr get_u128_Inr consumes_def)

lemma tally_reads:
  "decode_tally d = Inr (t, d1) \<Longrightarrow> dpos d1 = dpos d + 64 \<and> dinput d1 = dinput d"
  "legacy_tally d = Inr (t, d1) \<Longrightarrow> dpos d1 = dpos d + 32 \<and> dinput d1 = dinput d"
  by (auto simp: decode_tally_def legacy_tally_def dbind_Inr dret_Inr dest!: fixed_reads)

lemma referendum_tail_pos:
  "get_status d = Inr (s, d1) \<Longrightarrow> get_flag d1 = Inr (k, d2) \<Longrightarrow> dpos d2 = dpos d + 2 \<and> dinput d2 = dinput d"
  by (auto simp: get_status_def get_flag_Inr dbind_Inr dret_Inr dfail_Inr dest!: fixed_reads
      split: option.splits)

lemma from_bytes_Inr:
  "from_bytes dec bs = Inr x \<longleftrightarrow> (\<exists>d. dec (new_decoder bs) = Inr (x, d) \<and> dpos d = length (dinput d))"
  by (auto simp: from_bytes_def finish_def split: sum.splits prod.splits if_splits)

lemma not_both: "(\<And>x y. p = Inr x \<Longrightarrow> q = Inr y \<Longrightarrow> False) \<Longrightarrow> \<exists>e. p = Inl e \<or> q = Inl e"
  by (cases p; cases q) auto

lemma stored_referendum_disjoint:
  assumes "decode_referendum d = Inr (r, d1)" "dpos d1 = length (dinput d1)"
    and "decode_referendum_with legacy_tally d = Inr (r', d2)" "dpos d2 = length (dinput d2)"
  shows False
  using assms unfolding decode_referendum_def decode_referendum_with_def
  by (auto simp: dbind_Inr dret_Inr dest!: referendum_tail_pos tally_reads)

lemma stored_receipt_disjoint:
  assumes "decode_receipt d = Inr (r, d1)" "dpos d1 = length (dinput d1)"
    and "decode_receipt_with legacy_tally d = Inr (r', d2)" "dpos d2 = length (dinput d2)"
  shows False
  using assms unfolding decode_receipt_def decode_receipt_with_def
  by (clarsimp simp: dbind_Inr dret_Inr; auto dest!: fixed_reads tally_reads)

section \<open>Voting\<close>

lemma threshold_above_floor: "unat PARTICIPATION_FLOOR_BPS \<le> unat (threshold_bps tr)"
  by (cases tr) (simp_all add: threshold_bps_def gov_consts)

lemma saturating_mul_mono:
  "unat a \<le> unat c \<Longrightarrow> unat b \<le> unat d \<Longrightarrow> saturating_mul a b \<le> saturating_mul c (d :: 'a::len word)"
  using mult_le_mono [of "unat a" "unat c" "unat b" "unat d"] by (simp add: word_nat)

lemma turnout_ge_aye: "unat (aye_stake t) \<le> unat (turnout t)"
  using unat_le_max [of "aye_stake t"] by (simp add: turnout_def word_nat)

text \<open>On every track the approval threshold already implies the participation floor.\<close>

lemma approved_iff:
  assumes "unat PARTICIPATION_FLOOR_BPS \<le> unat threshold"
  shows "approved t e threshold \<longleftrightarrow>
     0 < e \<and> saturating_mul e threshold \<le> saturating_mul (aye_stake t) BPS_DENOM \<and>
     nay_stake t < aye_stake t \<and> nay_weight t < aye_weight t"
proof -
  have "saturating_mul e PARTICIPATION_FLOOR_BPS \<le> saturating_mul e threshold"
    by (rule saturating_mul_mono) (simp_all add: assms)
  moreover have "saturating_mul (aye_stake t) BPS_DENOM \<le> saturating_mul (turnout t) BPS_DENOM"
    by (rule saturating_mul_mono) (simp_all add: turnout_ge_aye)
  ultimately show ?thesis
    unfolding approved_def by (meson order_trans)
qed

lemma conviction_weight_value:
  "\<exists>w. conviction_weight c s = Some w \<and> unat w = unat s * unat (factor_x10 c) div 10"
proof -
  have f: "unat (factor_x10 c) \<le> 25"
    by (cases c) (simp_all add: factor_x10_def)
  then have "unat s * unat (factor_x10 c) \<le> 2 ^ 64 * 25"
    using u64_less [of s] by (intro mult_le_mono) simp_all
  then have "checked_mul (ucast s) (factor_x10 c) = Some (word_of_nat (unat s * unat (factor_x10 c)))"
    by (simp add: checked_mul_Some_iff unat_of_nat del: of_nat_mult)
  with \<open>unat s * unat (factor_x10 c) \<le> 2 ^ 64 * 25\<close> show ?thesis
    by (simp add: conviction_weight_def checked_div_def unat_div unat_of_nat del: of_nat_mult)
qed

lemma saturating_add_ge: "a \<le> saturating_add a b"
  using unat_le_max [of a] by (simp add: word_nat)

lemma min_add_min: "min (min (a + b) m + c) m = min (a + b + c) (m :: nat)"
  by (simp add: min_def)

lemma saturating_add_left_commute:
  "saturating_add (saturating_add a b) c = saturating_add (saturating_add a c) b"
  by (simp only: word_unat_eq_iff unat_saturating_add min_add_min add.assoc add.commute [of "unat b"])

lemma record_commute:
  "record_weighted y s w (record_weighted y' s' w' t) = record_weighted y' s' w' (record_weighted y s w t)"
  by (simp add: record_weighted_def saturating_add_left_commute)

text \<open>The votes of a referendum, recorded one after another.\<close>

definition record_votes :: "(bool \<times> u128 \<times> u128) list \<Rightarrow> tally \<Rightarrow> tally" where
  "record_votes vs t = fold (\<lambda>(y, s, w). record_weighted y s w) vs t"

lemma record_votes_perm: "mset vs = mset ws \<Longrightarrow> record_votes vs t = record_votes ws t"
  unfolding record_votes_def
  by (rule fun_cong [OF fold_multiset_equiv]) (auto simp: record_commute fun_eq_iff)

section \<open>Guardians\<close>

lemma authorizes_loop_seen:
  "distinct seen \<Longrightarrow> distinct (authorizes_loop g seen as) \<and>
     set (authorizes_loop g seen as) = set seen \<union> (set as \<inter> set (members g))"
  by (induction g seen as rule: authorizes_loop.induct) (auto simp: is_member_def)

lemma authorizes_card:
  assumes "authorizes g as"
  shows "length (members g) < 2 * card (set as \<inter> set (members g))"
    and "unat (guardian_threshold g) \<le> card (set as \<inter> set (members g))"
proof -
  let ?seen = "authorizes_loop g [] as"
  have "distinct ?seen" "set ?seen = set as \<inter> set (members g)"
    using authorizes_loop_seen [of "[]" g as] by simp_all
  then have "length ?seen = card (set as \<inter> set (members g))"
    using distinct_card by metis
  moreover have "unat (guardian_threshold g) \<le> length ?seen"
    using assms order_trans [OF _ mod_less_eq_dividend, of _ "length ?seen" "2 ^ 32"]
    by (simp add: authorizes_def word_le_nat_alt unat_of_nat)
  ultimately show "unat (guardian_threshold g) \<le> card (set as \<inter> set (members g))"
    and "length (members g) < 2 * card (set as \<inter> set (members g))"
    using assms by (auto simp: authorizes_def well_formed_def)
qed

section \<open>Referenda in time\<close>

lemma delays_small:
  "unat (period_seconds t) \<le> 14 * 86400" "unat (enactment_delay t) \<le> 7 * 86400"
  "unat ENACTMENT_WINDOW = 30 * 86400"
  by (cases t; simp add: period_seconds_def enactment_delay_def gov_consts)+

definition opens_at :: "referendum \<Rightarrow> nat" where
  "opens_at r = unat (submitted_at r) + unat (period_seconds (ref_track r)) + unat (enactment_delay (ref_track r))"

lemma enactment_opens_nat: "unat (enactment_opens r) = min (opens_at r) (2 ^ 64 - 1)"
  by (simp add: enactment_opens_def decides_at_def word_nat opens_at_def)

lemma enactable_iff:
  "enactable r now \<longleftrightarrow>
     opens_at r \<le> unat now \<and> unat now < opens_at r + 30 * 86400 \<and> unat now < 2 ^ 64 - 1"
  using u64_less [of now]
  by (auto simp: enactable_def enactment_expired_def word_nat enactment_opens_nat delays_small)

lemma resolve_fields:
  "resolve now e r = (s, r') \<Longrightarrow> r' = r\<lparr>ref_status := s\<rparr>"
  by (cases r) (auto simp: resolve_def Let_def split: if_splits)

definition touched :: "action \<Rightarrow> bytes list" where
  "touched a = (case a of
       Act_FreezeRecovery _ _ seizures \<Rightarrow> map seizure_from seizures
     | Freeze targets \<Rightarrow> targets
     | Blacklist target \<Rightarrow> [target]
     | _ \<Rightarrow> [])"

section \<open>Claims\<close>

text \<open>
  C7: every proposable action other than an asset registration is accepted by the decoder on exactly
  one input, its encoding; the arrays inside it have their declared size, and no list is read beyond
  the bytes that are there.
\<close>

theorem action_codec_exact:
  assumes "\<not> is_asset_register a"
  shows "from_bytes decode_action input = Inr a \<longleftrightarrow>
     valid_action a \<and> to_bytes encode_action a = input \<and> length input < 2 ^ 64"
proof
  assume "from_bytes decode_action input = Inr a"
  then obtain d where d: "decode_action (new_decoder input) = Inr (a, d)" "dpos d = length (dinput d)"
    by (auto simp: from_bytes_Inr)
  with decode_action_sound [OF d(1)] assms
  have "valid_action a" "consumes (new_decoder input) (encode_action a []) d"
    by simp_all
  with d(2) consumes_whole show "valid_action a \<and> to_bytes encode_action a = input \<and> length input < 2 ^ 64"
    by (fastforce simp: to_bytes_def)
qed (use actionc.from_to_bytes in blast)

theorem action_codec_exact_witness:
  "from_bytes decode_action (to_bytes encode_action (Freeze [[1, 2], []])) = Inr (Freeze [[1, 2], []])"
proof -
  have "length (to_bytes encode_action (Freeze [[1, 2], []])) < 2 ^ 64"
    by (simp add: to_bytes_def encode_action_def put_list_def puts.simps put_append)
  then show ?thesis
    by (subst action_codec_exact) (simp_all add: valid_action_def)
qed

text \<open>
  C8: an asset registration is the exception.  The decoder reads its \<^verbatim>\<open>requires_stark\<close>
  flag leniently, so every non-zero byte in that place is accepted as the same action.
\<close>

theorem asset_register_flag_lenient:
  assumes "length asset_id = 16" and "flag \<noteq> 0"
  shows "from_bytes decode_action
      (puts [put_u8 14, put_bytes asset_id, put_u128 cap, put_u128 epoch_cap, put_u8 flag] []) =
    Inr (AssetRegister asset_id cap epoch_cap True)"
proof -
  let ?bs = "puts [put_u8 14, put_bytes asset_id, put_u128 cap, put_u128 epoch_cap, put_u8 flag] []"
  let ?d = "\<lparr>dinput = ?bs, dpos = length ?bs\<rparr>"
  have "consumes (new_decoder ?bs) ?bs ?d"
    using assms(1) by (simp add: consumes_def new_decoder_def puts.simps put_append)
  then have "decode_action (new_decoder ?bs) = Inr (AssetRegister asset_id cap epoch_cap True, ?d)"
    using assms
    by (clarsimp simp: wire; simp add: decode_action_def decode_action_body_def dbind_read
        get_array_read dret_def get_flag_Inr get_flag_def)
  then show ?thesis
    by (simp add: from_bytes_Inr)
qed

theorem asset_register_flag_lenient_witness:
  "from_bytes decode_action
      (puts [put_u8 14, put_bytes (replicate 16 7), put_u128 5, put_u128 3, put_u8 1] []) =
   from_bytes decode_action
      (puts [put_u8 14, put_bytes (replicate 16 7), put_u128 5, put_u128 3, put_u8 2] [])"
  using asset_register_flag_lenient [of "replicate 16 7" 1 5 3]
    asset_register_flag_lenient [of "replicate 16 7" 2 5 3]
  by simp

text \<open>
  C9: no referendum passes without strictly more than two thirds of the electorate's stake voting
  aye, with more aye stake than nay stake and more aye weight than nay weight; the participation
  floor of a quarter is always met.
\<close>

theorem approval_needs_supermajority:
  assumes "unat e * 10000 < 2 ^ 128" and "approved t e (threshold_bps tr)"
  shows "2 * unat e < 3 * unat (aye_stake t) \<and> unat e \<le> 4 * unat (turnout t) \<and>
     nay_stake t < aye_stake t \<and> nay_weight t < aye_weight t"
proof -
  have th: "6667 \<le> unat (threshold_bps tr) \<and> unat (threshold_bps tr) \<le> 10000"
    by (cases tr) (simp_all add: threshold_bps_def)
  from assms(2) have a: "0 < e" "saturating_mul e (threshold_bps tr) \<le> saturating_mul (aye_stake t) BPS_DENOM"
    "nay_stake t < aye_stake t" "nay_weight t < aye_weight t"
    by (simp_all add: approved_iff threshold_above_floor)
  have "unat e * unat (threshold_bps tr) \<le> unat e * 10000"
    using th by simp
  with assms(1) a(2) have "unat e * unat (threshold_bps tr) \<le> unat (aye_stake t) * 10000"
    by (simp add: word_nat BPS_DENOM_def)
  moreover have "unat e * 6667 \<le> unat e * unat (threshold_bps tr)"
    using th by simp
  ultimately have two_thirds: "unat e * 6667 \<le> unat (aye_stake t) * 10000"
    by linarith
  moreover have "0 < unat e"
    using a(1) by (simp add: word_nat)
  ultimately have "2 * unat e < 3 * unat (aye_stake t)" by linarith
  with a turnout_ge_aye [of t] show ?thesis by linarith
qed

theorem approval_needs_supermajority_witness:
  "unat (90 :: u128) * 10000 < 2 ^ 128 \<and>
   approved \<lparr>aye_stake = 61, nay_stake = 29, aye_weight = 61, nay_weight = 29\<rparr> 90 (threshold_bps Mint) \<and>
   2 * unat (90 :: u128) < 3 * unat (61 :: u128)"
proof -
  let ?t = "\<lparr>aye_stake = 61, nay_stake = 29, aye_weight = 61, nay_weight = 29\<rparr>"
  have "approved ?t 90 (threshold_bps Mint)"
    by (simp add: approved_def turnout_def threshold_bps_def gov_consts saturating_mul_def
        saturating_add_def checked_mul_def checked_add_def)
  with approval_needs_supermajority [of 90 ?t Mint] show ?thesis
    by simp
qed

text \<open>
  A vote never works against its own side.  Recording a further nay vote never turns a failing
  tally into a passing one, although it raises the turnout, and recording a further aye vote never
  turns a passing tally into a failing one.
\<close>

theorem votes_monotone:
  assumes "record_conviction vote c s t = Some t'"
  shows "(\<not> vote \<longrightarrow> approved t' e (threshold_bps tr) \<longrightarrow> approved t e (threshold_bps tr)) \<and>
         (vote \<longrightarrow> approved t e (threshold_bps tr) \<longrightarrow> approved t' e (threshold_bps tr))"
proof -
  from assms obtain w where t': "t' = record_weighted vote (ucast s) w t"
    by (auto simp: record_conviction_def bind_eq_Some_conv)
  have nay: "nay_stake t < aye_stake t \<and> nay_weight t < aye_weight t"
    if "nay_stake t' < aye_stake t'" "nay_weight t' < aye_weight t'" "\<not> vote"
    using that by (auto simp: t' record_weighted_def intro: order_le_less_trans [OF saturating_add_ge])
  have aye: "nay_stake t' < aye_stake t' \<and> nay_weight t' < aye_weight t'"
    if "nay_stake t < aye_stake t" "nay_weight t < aye_weight t" "vote"
    using that by (auto simp: t' record_weighted_def intro: order_less_le_trans [OF _ saturating_add_ge])
  have "saturating_mul (aye_stake t) BPS_DENOM \<le> saturating_mul (aye_stake t') BPS_DENOM"
    by (rule saturating_mul_mono) (simp_all add: t' record_weighted_def saturating_add_ge flip: word_le_nat_alt)
  then show ?thesis
    using nay aye order_trans
    by (auto simp: approved_iff threshold_above_floor) (auto simp: t' record_weighted_def)
qed

theorem votes_monotone_witness:
  "approved (\<lparr>aye_stake = 70, nay_stake = 0, aye_weight = 70, nay_weight = 0\<rparr>) 100 (threshold_bps Mint)"
proof -
  let ?t = "\<lparr>aye_stake = 68, nay_stake = 0, aye_weight = 68, nay_weight = 0\<rparr>"
  have "record_conviction True Liquid 2 ?t =
      Some \<lparr>aye_stake = 70, nay_stake = 0, aye_weight = 70, nay_weight = 0\<rparr>"
    by (simp add: record_conviction_def conviction_weight_def record_weighted_def factor_x10_def
        checked_mul_def checked_div_def saturating_add_def checked_add_def)
  moreover have "approved ?t 100 (threshold_bps Mint)"
    by (simp add: approved_def turnout_def threshold_bps_def gov_consts saturating_mul_def
        saturating_add_def checked_mul_def checked_add_def)
  ultimately show ?thesis
    using votes_monotone [of True Liquid 2 ?t] by blast
qed



text \<open>
  C11: guardian quorums intersect.  Whenever two lists of approvers each authorize for the same
  guardian set, some member approved in both; repeated approvers and non-members count for nothing.
\<close>

theorem guardian_quorums_intersect:
  assumes "authorizes g as" and "authorizes g bs"
  shows "\<exists>m \<in> set (members g). m \<in> set as \<and> m \<in> set bs"
proof (rule ccontr)
  let ?A = "set as \<inter> set (members g)" and ?B = "set bs \<inter> set (members g)"
  assume "\<not> ?thesis"
  then have "card (?A \<union> ?B) = card ?A + card ?B"
    by (intro card_Un_disjoint) auto
  moreover have "card (?A \<union> ?B) \<le> card (set (members g))"
    by (intro card_mono) auto
  moreover have "card (set (members g)) \<le> length (members g)"
    by (rule card_length)
  ultimately show False
    using authorizes_card(1) [OF assms(1)] authorizes_card(1) [OF assms(2)] by linarith
qed

theorem guardian_quorums_intersect_witness:
  "let g = \<lparr>members = [[1], [2], [3]], guardian_threshold = 2\<rparr> in
     authorizes g [[1], [9], [1], [2]] \<and> authorizes g [[3], [2]] \<and> \<not> authorizes g [[1], [1], [9]] \<and>
     (\<exists>m \<in> set (members g). m \<in> set [[1], [9], [1], [2]] \<and> m \<in> set [[3], [2]])"
proof -
  let ?g = "\<lparr>members = [[1], [2], [3]], guardian_threshold = 2\<rparr>"
  have a: "authorizes ?g [[1], [9], [1], [2]]" and b: "authorizes ?g [[3], [2]]"
    and c: "\<not> authorizes ?g [[1], [1], [9]]"
    by (simp_all add: authorizes_def well_formed_def is_member_def word_le_nat_alt)
  show ?thesis
    using guardian_quorums_intersect [OF a b] a b c by (simp add: Let_def)
qed



text \<open>
  C13: a decision is final.  Resolving changes nothing but the status; once it has left deciding, no
  later resolution under any electorate changes the referendum; and a referendum is approved only
  after its period has run, if it was not killed and its tally passes its track's threshold.
\<close>

theorem resolve_is_final:
  assumes "resolve now e r = (s, r')"
  shows "r' = r\<lparr>ref_status := s\<rparr> \<and>
     (s \<noteq> Deciding \<longrightarrow> (\<forall>later e'. resolve later e' r' = (s, r'))) \<and>
     (ref_status r = Deciding \<longrightarrow> s = Approved \<longrightarrow>
        \<not> killed r \<and> ready r now \<and> deposit_refunded r e)"
proof -
  from resolve_fields [OF assms] have r': "r' = r\<lparr>ref_status := s\<rparr>" .
  moreover have "resolve later e' r' = (s, r')" if "s \<noteq> Deciding" for later e'
    using that by (simp add: r' resolve_def)
  moreover have "\<not> killed r \<and> ready r now \<and> deposit_refunded r e"
    if "ref_status r = Deciding" "s = Approved"
    using assms that by (auto simp: resolve_def deposit_refunded_def Let_def split: if_splits)
  ultimately show ?thesis by blast
qed

definition sample_referendum :: referendum where
  "sample_referendum = (open_referendum 1 Mint [7] 100 5)
     \<lparr>ref_tally := \<lparr>aye_stake = 70, nay_stake = 0, aye_weight = 70, nay_weight = 0\<rparr>\<rparr>"

theorem resolve_is_final_witness:
  "resolve 400000 100 sample_referendum = (Approved, sample_referendum\<lparr>ref_status := Approved\<rparr>) \<and>
   resolve 900000 9999 (sample_referendum\<lparr>ref_status := Approved\<rparr>) =
     (Approved, sample_referendum\<lparr>ref_status := Approved\<rparr>)"
proof -
  have r: "resolve 400000 100 sample_referendum = (Approved, sample_referendum\<lparr>ref_status := Approved\<rparr>)"
    by (simp add: resolve_def sample_referendum_def open_referendum_def ready_def decides_at_def
        period_seconds_def approved_def turnout_def threshold_bps_def gov_consts saturating_mul_def
        saturating_add_def checked_mul_def checked_add_def)
  show ?thesis
    using resolve_is_final [OF r] r by simp
qed

text \<open>
  C14: an action can be enacted exactly during the thirty days that start when its voting period and
  its track's delay have both run; a time that would overflow the clock never opens the window.
\<close>

theorem enactment_window:
  "enactable r now \<longleftrightarrow>
     unat (submitted_at r) + unat (period_seconds (ref_track r)) + unat (enactment_delay (ref_track r)) \<le> unat now \<and>
     unat now < unat (submitted_at r) + unat (period_seconds (ref_track r)) +
       unat (enactment_delay (ref_track r)) + 30 * 86400 \<and>
     unat now < 2 ^ 64 - 1"
  unfolding enactable_iff opens_at_def ..

text \<open>
  C15: the two generations of the stored formats are told apart.  No stored referendum and no stored
  receipt is readable both in the present format and in the older one, so the fallback reader never
  changes the meaning of a record.
\<close>

theorem stored_formats_disjoint:
  "(\<exists>e. from_bytes decode_referendum bs = Inl e \<or>
        from_bytes (decode_referendum_with legacy_tally) bs = Inl e) \<and>
   (\<exists>e. from_bytes decode_receipt bs = Inl e \<or>
        from_bytes (decode_receipt_with legacy_tally) bs = Inl e)"
  by (rule conjI; rule not_both;
      auto simp: from_bytes_Inr intro: stored_referendum_disjoint stored_receipt_disjoint)

end
