(* ===== verification/Idfmt.thy ===== *)
theory Idfmt
  imports Prelude
begin

text \<open>
  The Bech32m identifiers, \<^verbatim>\<open>src/crates/qtv-idfmt/src/lib.rs\<close>: the checksum, the regrouping
  of bits, the renderers and the parsers.  Text is its bytes.  The lemmas show that the checksum is
  linear, so the six check characters of a data part are unique, and that regrouping is a bijection
  between byte strings and zero-padded groups; the claims are the round trip and the canonicity of
  addresses.
\<close>

unbundle bit_operations_syntax

section \<open>Model\<close>

definition HRP_ADDRESS :: bytes where "HRP_ADDRESS = ascii ''Q''"
definition HRP_SECRET :: bytes where "HRP_SECRET = ascii ''Q2''"
definition HRP_TX :: bytes where "HRP_TX = ascii ''QTX''"
definition HRP_BLOCK :: bytes where "HRP_BLOCK = ascii ''QBK''"
definition HRP_STATE :: bytes where "HRP_STATE = ascii ''QST''"
definition HRP_CID :: bytes where "HRP_CID = ascii ''QCID''"
definition HRP_PROOF :: bytes where "HRP_PROOF = ascii ''QPF''"

definition KEY_FLOOR :: nat where "KEY_FLOOR = 32"
definition DIGEST_LEN :: nat where "DIGEST_LEN = 32"
definition MAX_ENCODED :: nat where "MAX_ENCODED = 128"

definition CHARSET :: bytes where "CHARSET = ascii ''qpzry9x8gf2tvdw0s3jn54khce6mua7l''"
definition BECH32M_CONST :: u32 where "BECH32M_CONST = 734539939"
definition GENERATOR :: "u32 list" where
  "GENERATOR = [996825010, 642813549, 513874426, 1027748829, 705979059]"

datatype id_error =
    TooShort nat nat
  | BadLength nat nat
  | WrongPrefix
  | BadChecksum
  | BadChar
  | MixedCase
  | NoSeparator
  | BadData

definition is_ascii_lowercase :: "u8 \<Rightarrow> bool" where
  "is_ascii_lowercase b \<longleftrightarrow> 97 \<le> b \<and> b \<le> 122"

definition is_ascii_uppercase :: "u8 \<Rightarrow> bool" where
  "is_ascii_uppercase b \<longleftrightarrow> 65 \<le> b \<and> b \<le> 90"

definition to_ascii_lowercase :: "u8 \<Rightarrow> u8" where
  "to_ascii_lowercase b = (if is_ascii_uppercase b then b + 32 else b)"

definition to_ascii_uppercase :: "u8 \<Rightarrow> u8" where
  "to_ascii_uppercase b = (if is_ascii_lowercase b then b - 32 else b)"

definition charset_index :: "u8 \<Rightarrow> u8 option" where
  "charset_index b = map_option word_of_nat (List.find (\<lambda>i. CHARSET ! i = b) [0..<32])"

definition polymod_step :: "u32 \<Rightarrow> u8 \<Rightarrow> u32" where
  "polymod_step chk v =
     (let top = drop_bit 25 chk;
          next = push_bit 5 (chk AND 33554431) XOR ucast v
      in fold (\<lambda>b next. next XOR (GENERATOR ! b AND (0 - (drop_bit b top AND 1)))) [0..<5] next)"

definition polymod :: "u32 \<Rightarrow> u8 list \<Rightarrow> u32" where
  "polymod chk vs = fold (\<lambda>v chk. polymod_step chk v) vs chk"

definition hrp_polymod :: "bytes \<Rightarrow> u32" where
  "hrp_polymod hrp =
     (let chk = polymod 1 (map (\<lambda>b. drop_bit 5 (to_ascii_lowercase b)) hrp);
          chk = polymod_step chk 0
      in polymod chk (map (\<lambda>b. to_ascii_lowercase b AND 31) hrp))"

text \<open>The inner \<^verbatim>\<open>while bits >= to\<close> of \<^verbatim>\<open>convert_bits\<close>; the bit count falls by \<open>to\<close>.\<close>

function emit_groups :: "nat \<Rightarrow> u32 \<Rightarrow> nat \<Rightarrow> u8 list \<Rightarrow> nat \<times> u8 list" where
  "emit_groups to acc bits out =
     (if to = 0 \<or> bits < to then (bits, out)
      else emit_groups to acc (bits - to) (out @ [ucast (drop_bit (bits - to) acc AND (2 ^ to - 1))]))"
  by pat_completeness auto
termination
  by (relation "measure (\<lambda>(to, acc, bits, out). bits)") auto

declare emit_groups.simps [simp del]

fun convert_loop :: "nat \<Rightarrow> nat \<Rightarrow> u32 \<Rightarrow> nat \<Rightarrow> u8 list \<Rightarrow> u8 list \<Rightarrow> (u32 \<times> nat \<times> u8 list) option" where
  "convert_loop from to acc bits out [] = Some (acc, bits, out)"
| "convert_loop from to acc bits out (byte # data) =
     (let v = ucast byte :: u32 in
      if drop_bit from v \<noteq> 0 then None
      else
        let acc = (push_bit from acc OR v) AND (2 ^ (from + to - 1) - 1);
            (bits, out) = emit_groups to acc (bits + from) out
        in convert_loop from to acc bits out data)"

definition convert_bits :: "u8 list \<Rightarrow> nat \<Rightarrow> nat \<Rightarrow> bool \<Rightarrow> u8 list option" where
  "convert_bits data from to pad =
     (case convert_loop from to 0 0 [] data of
        None \<Rightarrow> None
      | Some (acc, bits, out) \<Rightarrow>
          let rest = push_bit (to - bits) acc AND (2 ^ to - 1) in
          if pad then Some (if 0 < bits then out @ [ucast rest] else out)
          else if from \<le> bits \<or> rest \<noteq> 0 then None
          else Some out)"

definition bech_encode :: "bytes \<Rightarrow> u8 list \<Rightarrow> bytes" where
  "bech_encode hrp data =
     (let chk = polymod (polymod (hrp_polymod hrp) data) (replicate 6 0);
          residue = chk XOR BECH32M_CONST
      in hrp @ ascii ''1'' @ map (\<lambda>g. CHARSET ! unat g) data @
         map (\<lambda>slot. CHARSET ! unat (drop_bit (5 * (5 - slot)) residue AND 31)) [0..<6])"

definition render_text :: "bytes \<Rightarrow> bytes \<Rightarrow> bytes option" where
  "render_text hrp payload = map_option (\<lambda>groups. map to_ascii_uppercase (bech_encode hrp groups))
     (convert_bits payload 8 5 True)"

definition rfind :: "u8 \<Rightarrow> bytes \<Rightarrow> nat option" where
  "rfind c xs =
     (let n = length (takeWhile (\<lambda>x. x \<noteq> c) (rev xs))
      in if n = length xs then None else Some (length xs - 1 - n))"

fun body_groups :: "bytes \<Rightarrow> u8 list option" where
  "body_groups [] = Some []"
| "body_groups (b # bs) =
     (case charset_index b of None \<Rightarrow> None | Some g \<Rightarrow> map_option ((#) g) (body_groups bs))"

definition bech_decode :: "bytes \<Rightarrow> id_error + bytes \<times> bytes" where
  "bech_decode text =
     (if MAX_ENCODED < length text then Inl (BadLength MAX_ENCODED (length text))
      else if list_ex is_ascii_lowercase text \<and> list_ex is_ascii_uppercase text then Inl MixedCase
      else
        let lowered = map to_ascii_lowercase text in
        case rfind 49 lowered of
          None \<Rightarrow> Inl NoSeparator
        | Some separator \<Rightarrow>
            if separator < 1 \<or> length lowered < separator + 7 then Inl NoSeparator
            else
              let hrp = take separator lowered in
              if list_ex (\<lambda>b. \<not> (33 \<le> b \<and> b \<le> 126)) hrp then Inl BadChar
              else case body_groups (drop (separator + 1) lowered) of
                None \<Rightarrow> Inl BadChar
              | Some groups \<Rightarrow>
                  if polymod (hrp_polymod hrp) groups \<noteq> BECH32M_CONST then Inl BadChecksum
                  else case convert_bits (take (length groups - 6) groups) 5 8 False of
                    None \<Rightarrow> Inl BadData
                  | Some payload \<Rightarrow> Inr (hrp, payload))"

definition parse_text :: "bytes \<Rightarrow> bytes \<Rightarrow> id_error + bytes" where
  "parse_text expected text =
     (case bech_decode text of
        Inl e \<Rightarrow> Inl e
      | Inr (hrp, payload) \<Rightarrow>
          if map to_ascii_lowercase hrp \<noteq> map to_ascii_lowercase expected then Inl WrongPrefix
          else Inr payload)"

definition check_floor :: "nat \<Rightarrow> id_error + unit" where
  "check_floor len = (if len < KEY_FLOOR then Inl (TooShort KEY_FLOOR len) else Inr ())"

definition check_digest :: "nat \<Rightarrow> id_error + unit" where
  "check_digest len = (if len \<noteq> DIGEST_LEN then Inl (BadLength DIGEST_LEN len) else Inr ())"

text \<open>
  The two macros; the outer option of a renderer is the panic of its \<^verbatim>\<open>expect\<close>.
\<close>

definition render_checked :: "(nat \<Rightarrow> id_error + unit) \<Rightarrow> bytes \<Rightarrow> bytes \<Rightarrow> (id_error + bytes) option" where
  "render_checked check hrp bs =
     (case check (length bs) of Inl e \<Rightarrow> Some (Inl e) | Inr _ \<Rightarrow> map_option Inr (render_text hrp bs))"

definition parse_checked :: "(nat \<Rightarrow> id_error + unit) \<Rightarrow> bytes \<Rightarrow> bytes \<Rightarrow> id_error + bytes" where
  "parse_checked check hrp text =
     (case parse_text hrp text of
        Inl e \<Rightarrow> Inl e
      | Inr bs \<Rightarrow> (case check (length bs) of Inl e \<Rightarrow> Inl e | Inr _ \<Rightarrow> Inr bs))"

definition render_address where "render_address = render_checked check_digest HRP_ADDRESS"
definition parse_address where "parse_address = parse_checked check_digest HRP_ADDRESS"
definition render_secret where "render_secret = render_checked check_floor HRP_SECRET"
definition parse_secret where "parse_secret = parse_checked check_floor HRP_SECRET"
definition render_tx where "render_tx = render_checked check_digest HRP_TX"
definition parse_tx where "parse_tx = parse_checked check_digest HRP_TX"
definition render_block where "render_block = render_checked check_digest HRP_BLOCK"
definition parse_block where "parse_block = parse_checked check_digest HRP_BLOCK"
definition render_state where "render_state = render_checked check_digest HRP_STATE"
definition parse_state where "parse_state = parse_checked check_digest HRP_STATE"
definition render_cid where "render_cid = render_checked check_digest HRP_CID"
definition parse_cid where "parse_cid = parse_checked check_digest HRP_CID"
definition render_proof where "render_proof = render_checked check_digest HRP_PROOF"
definition parse_proof where "parse_proof = parse_checked check_digest HRP_PROOF"

section \<open>The checksum is linear\<close>

text \<open>The generator that bit \<open>25 + b\<close> of the checksum selects.\<close>

definition gen_term :: "u32 \<Rightarrow> nat \<Rightarrow> u32" where
  "gen_term c b = (if bit c (25 + b) then GENERATOR ! b else 0)"

lemma selected: "(g :: u32) AND (0 - (drop_bit b (drop_bit 25 c) AND 1)) = (if bit c (25 + b) then g else 0)"
proof -
  have "drop_bit b (drop_bit 25 c) AND 1 = of_bool (bit c (25 + b))"
    by (simp add: and_one_eq mod_2_eq_odd bit_iff_odd_drop_bit add.commute)
  then show ?thesis
    by (simp only:) simp
qed

lemma low_25: "c AND 33554431 = take_bit 25 (c :: u32)"
  by (simp add: take_bit_eq_mask mask_eq_exp_minus_1)

lemma fold_upt_5: "fold f [0..<5] x = f 4 (f 3 (f 2 (f 1 (f (0 :: nat) x))))"
  by (simp add: upt_rec numeral_eq_Suc)

text \<open>The step without its input value.\<close>

definition shift_step :: "u32 \<Rightarrow> u32" where
  "shift_step c = push_bit 5 (take_bit 25 c) XOR
     (gen_term c 0 XOR gen_term c 1 XOR gen_term c 2 XOR gen_term c 3 XOR gen_term c 4)"

lemma polymod_step_eq: "polymod_step c v = shift_step c XOR ucast v"
  unfolding polymod_step_def Let_def fold_upt_5 selected low_25 shift_step_def gen_term_def
  by (simp only: ac_simps)

lemma gen_term_xor: "gen_term (a XOR b) k = gen_term a k XOR gen_term b k"
  by (simp add: gen_term_def bit_xor_iff)

lemma shift_step_xor: "shift_step (a XOR b) = shift_step a XOR shift_step b"
  unfolding shift_step_def gen_term_xor take_bit_xor push_bit_xor by (simp only: ac_simps)

lemma gen_term_small: "take_bit 25 c = c \<Longrightarrow> gen_term c k = 0"
  unfolding gen_term_def by (metis bit_take_bit_iff not_add_less1)

lemma shift_step_small: "take_bit 25 c = c \<Longrightarrow> shift_step c = push_bit 5 c"
  by (simp add: shift_step_def gen_term_small)

lemma generator_bound: "k < 5 \<Longrightarrow> take_bit 30 (GENERATOR ! k) = GENERATOR ! k"
proof -
  assume "k < 5"
  then have "k \<in> {0, 1, 2, 3, 4}" by auto
  then show ?thesis
    by (auto simp: GENERATOR_def take_bit_eq_mod)
qed

lemma gen_term_bound: "k < 5 \<Longrightarrow> take_bit 30 (gen_term c k) = gen_term c k"
  by (simp add: gen_term_def generator_bound)

lemma shift_step_bound: "take_bit 30 (shift_step c) = shift_step c"
  unfolding shift_step_def by (simp add: take_bit_xor gen_term_bound take_bit_push_bit)

section \<open>Six check values\<close>

text \<open>Values packed five bits each, the first in front.\<close>

primrec pack :: "u8 list \<Rightarrow> u32" where
  "pack [] = 0"
| "pack (v # vs) = push_bit 5 (pack vs) XOR ucast v"

definition group5 :: "u8 \<Rightarrow> bool" where
  "group5 v \<longleftrightarrow> take_bit 5 v = v"

lemma polymod_append: "polymod c (us @ vs) = polymod (polymod c us) vs"
  by (simp add: polymod_def)

lemma polymod_rev_Cons: "polymod c (rev (v # vs)) = shift_step (polymod c (rev vs)) XOR ucast v"
  by (simp add: polymod_def polymod_step_eq)

lemma take_bit_larger: "take_bit m x = x \<Longrightarrow> m \<le> n \<Longrightarrow> take_bit n x = (x :: 'a::len word)"
  by (metis min_absorb2 take_bit_take_bit)

lemma ucast_group: "group5 v \<Longrightarrow> take_bit 5 (ucast v :: u32) = ucast v"
  unfolding group5_def by (metis take_bit_of_nat unsigned_take_bit_eq)

lemma pack_bound:
  "list_all group5 vs \<Longrightarrow> length vs \<le> 6 \<Longrightarrow> take_bit (5 * length vs) (pack vs) = pack vs"
proof (induction vs)
  case (Cons v vs)
  then have v: "take_bit 5 (ucast v :: u32) = ucast v"
    by (intro ucast_group) simp
  have "take_bit (5 * length (v # vs)) (ucast v :: u32) = ucast v"
    by (rule take_bit_larger [OF v]) simp
  moreover have "5 * length (v # vs) - 5 = 5 * length vs"
    by simp
  moreover have "take_bit (5 * length vs) (pack vs) = pack vs"
    using Cons by simp
  ultimately show ?case
    by (simp only: pack.simps take_bit_xor take_bit_push_bit)
qed simp

lemma polymod_pack:
  "list_all group5 vs \<Longrightarrow> length vs \<le> 6 \<Longrightarrow>
     polymod c (rev vs) = (shift_step ^^ length vs) c XOR pack vs"
proof (induction vs)
  case (Cons v vs)
  have "take_bit 25 (pack vs) = pack vs"
    using Cons.prems by (auto intro!: take_bit_larger [OF pack_bound])
  then have "shift_step (pack vs) = push_bit 5 (pack vs)"
    by (rule shift_step_small)
  moreover have "polymod c (rev vs) = (shift_step ^^ length vs) c XOR pack vs"
    using Cons by simp
  ultimately show ?case
    unfolding polymod_rev_Cons pack.simps by (simp add: shift_step_xor xor.assoc)
qed (simp add: polymod_def)

fun unpack :: "nat \<Rightarrow> u32 \<Rightarrow> u8 list" where
  "unpack 0 r = []"
| "unpack (Suc n) r = ucast (r AND 31) # unpack n (drop_bit 5 r)"

lemma low_5: "(r :: 'a::len word) AND 31 = take_bit 5 r"
  by (simp add: take_bit_eq_mask mask_eq_exp_minus_1)

lemma group5_of_low: "group5 (ucast (r AND 31 :: u32))"
  by (simp add: group5_def low_5 bit_eq_iff bit_simps)

lemma unpack_groups: "list_all group5 (unpack n r) \<and> length (unpack n r) = n"
  by (induction n r rule: unpack.induct) (simp_all add: group5_of_low)

lemma ucast_low: "ucast (ucast (r AND 31 :: u32) :: u8) = r AND 31"
  by (simp add: low_5 bit_eq_iff bit_simps) auto

lemma split_low: "push_bit 5 (drop_bit 5 r) XOR (r AND 31) = (r :: u32)"
  by (auto simp: low_5 bit_eq_iff bit_simps)

lemma pack_unpack: "take_bit (5 * n) r = r \<Longrightarrow> pack (unpack n r) = r"
proof (induction n arbitrary: r)
  case (Suc n)
  have "take_bit (5 * n) (drop_bit 5 r) = drop_bit 5 r"
    using Suc.prems by (metis add_diff_cancel_left' drop_bit_take_bit mult_Suc_right)
  with Suc.IH show ?case
    by (simp add: ucast_low split_low)
qed simp

lemma group5_bits: "group5 v \<Longrightarrow> bit v i \<Longrightarrow> i < 5"
  by (metis bit_take_bit_iff group5_def)

lemma unpack_pack:
  "list_all group5 vs \<Longrightarrow> length vs \<le> 6 \<Longrightarrow> unpack (length vs) (pack vs) = vs"
proof (induction vs)
  case (Cons v vs)
  have v: "group5 v" using Cons.prems by simp
  have b: "take_bit 25 (pack vs) = pack vs"
    using Cons.prems by (auto intro!: take_bit_larger [OF pack_bound])
  have low: "ucast (pack (v # vs) AND 31) = v"
    using group5_bits [OF v] by (auto simp: low_5 bit_eq_iff bit_simps)
  have "drop_bit 5 (pack (v # vs)) = pack vs"
  proof (rule bit_word_eqI)
    fix i assume "i < LENGTH(32)"
    have "bit (pack vs) i \<Longrightarrow> i < 25"
      using b by (metis bit_take_bit_iff)
    then show "bit (drop_bit 5 (pack (v # vs))) i = bit (pack vs) i"
      using group5_bits [OF v] by (auto simp: bit_simps)
  qed
  with low Cons show ?case by simp
qed simp

lemma shift_steps_bound: "0 < n \<Longrightarrow> take_bit 30 ((shift_step ^^ n) c) = (shift_step ^^ n) c"
  by (cases n) (simp_all add: shift_step_bound)

lemma pack_zeros: "pack (replicate n 0) = 0"
  by (induction n) simp_all

definition check_values :: "u32 \<Rightarrow> u8 list" where
  "check_values c = rev (unpack 6 (polymod c (replicate 6 0) XOR BECH32M_CONST))"

lemma polymod_zeros: "polymod c (replicate 6 0) = (shift_step ^^ 6) c"
  using polymod_pack [of "replicate 6 0" c] by (simp add: pack_zeros group5_def list_all_length)

lemma xor_move: "a XOR p = c \<longleftrightarrow> p = a XOR (c :: u32)"
  by (auto simp: xor.assoc [symmetric])

lemma checksum_unique:
  assumes "list_all group5 vs" and "length vs = 6"
  shows "polymod c vs = BECH32M_CONST \<longleftrightarrow> vs = check_values c"
proof -
  let ?r = "(shift_step ^^ 6) c XOR BECH32M_CONST"
  have r: "take_bit (5 * 6) ?r = ?r"
    by (simp only: take_bit_xor) (simp add: shift_steps_bound BECH32M_CONST_def)
  have "polymod c vs = (shift_step ^^ 6) c XOR pack (rev vs)"
    using polymod_pack [of "rev vs" c] assms by simp
  then have "polymod c vs = BECH32M_CONST \<longleftrightarrow> pack (rev vs) = ?r"
    by (simp add: xor_move)
  also have "\<dots> \<longleftrightarrow> rev vs = unpack 6 ?r"
    using unpack_pack [of "rev vs"] pack_unpack [OF r] assms by auto
  also have "\<dots> \<longleftrightarrow> vs = check_values c"
    by (auto simp: check_values_def polymod_zeros rev_swap)
  finally show ?thesis .
qed

lemma check_values_groups: "list_all group5 (check_values c) \<and> length (check_values c) = 6"
  using unpack_groups [of 6] by (simp add: check_values_def list_all_iff)

lemma check_values_slots:
  "map (\<lambda>slot. CHARSET ! unat (drop_bit (5 * (5 - slot)) r AND 31)) [0..<6] =
   map (\<lambda>g. CHARSET ! unat g) (rev (unpack 6 r))"
proof -
  have c: "unat (ucast (x AND 31 :: u32) :: u8) = unat (x AND 31)" for x
    by (simp add: low_5 unsigned_ucast_eq unsigned_take_bit_eq)
  show ?thesis
    by (simp add: upt_rec numeral_eq_Suc c)
qed

section \<open>Regrouping bits\<close>

text \<open>The lowest \<open>w\<close> bits of a word, most significant first.\<close>

definition msb :: "nat \<Rightarrow> 'a::len word \<Rightarrow> bool list" where
  "msb w v = map (bit v) (rev [0..<w])"

definition fits :: "nat \<Rightarrow> u8 \<Rightarrow> bool" where
  "fits w v \<longleftrightarrow> take_bit w v = v"

lemma length_msb [simp]: "length (msb w v) = w"
  by (simp add: msb_def)

lemma msb_cong: "(\<And>i. i < w \<Longrightarrow> bit u i = bit v i) \<Longrightarrow> msb w u = msb w v"
  by (simp add: msb_def)

lemma msb_add: "msb (a + b) v = msb a (drop_bit b v) @ msb b v"
proof -
  have "[0..<a + b] = [0..<b] @ map (\<lambda>i. i + b) [0..<a]"
    using upt_add_eq_append [of 0 b a] by (simp add: map_add_upt add.commute)
  then show ?thesis
    by (simp add: msb_def rev_map bit_drop_bit_eq comp_def add.commute)
qed

lemma msb_zero: "msb w 0 = replicate w False"
  by (induction w) (simp_all add: msb_def)

lemma fits_bits: "fits w v \<Longrightarrow> bit v i \<Longrightarrow> i < w"
  unfolding fits_def by (metis bit_take_bit_iff)

lemma msb_inj: "fits w u \<Longrightarrow> fits w v \<Longrightarrow> msb w u = msb w v \<Longrightarrow> u = v"
proof (rule bit_word_eqI)
  fix i
  assume f: "fits w u" "fits w v" "msb w u = msb w v"
  then have "\<forall>j<w. bit u j = bit v j"
    by (simp add: msb_def)
  then show "bit u i = bit v i"
    using fits_bits f by blast
qed

lemma regroup_unique:
  assumes "concat (map (msb w) xs) @ r = concat (map (msb w) ys) @ s"
    and "length r < w" "length s < w" "list_all (fits w) xs" "list_all (fits w) ys"
  shows "xs = ys \<and> r = s"
  using assms
proof (induction xs arbitrary: ys)
  case Nil
  have "length r = length (concat (map (msb w) ys)) + length s"
    using Nil.prems(1) by (metis append_Nil concat.simps(1) length_append list.simps(8))
  then have "ys = []"
    using Nil.prems(2) by (cases ys) simp_all
  then show ?case
    using Nil.prems(1) by simp
next
  case (Cons x xs)
  have "length (concat (map (msb w) (x # xs)) @ r) = length (concat (map (msb w) ys) @ s)"
    by (simp only: Cons.prems(1))
  then obtain y zs where ys: "ys = y # zs"
    using Cons.prems(3) by (cases ys) simp_all
  have "msb w x @ concat (map (msb w) xs) @ r = msb w y @ concat (map (msb w) zs) @ s"
    using Cons.prems(1) ys by simp
  then have eq: "msb w x = msb w y" "concat (map (msb w) xs) @ r = concat (map (msb w) zs) @ s"
    by (simp_all only: append_eq_append_conv length_msb simp_thms)
  have "xs = zs \<and> r = s"
    using Cons.IH [OF eq(2)] Cons.prems ys by simp
  moreover have "x = y"
    using msb_inj [OF _ _ eq(1)] Cons.prems ys by simp
  ultimately show ?case
    using ys by simp
qed

lemma mask_word: "(2 ^ n - 1 :: 'a::len word) = mask n"
  by (simp add: mask_eq_exp_minus_1)

lemma emitted_group:
  assumes "to \<le> 8"
  shows "fits to (ucast (drop_bit k acc AND mask to :: u32)) \<and>
    msb to (ucast (drop_bit k acc AND mask to :: u32) :: u8) = msb to (drop_bit k acc)"
  using assms by (auto simp: fits_def bit_eq_iff bit_simps intro!: msb_cong)

lemma emit_groups_spec:
  assumes "0 < to" "to \<le> 8" "emit_groups to acc bits out = (bits', out')"
  shows "\<exists>new. out' = out @ new \<and> list_all (fits to) new \<and> bits' < to \<and>
     concat (map (msb to) new) @ msb bits' acc = msb bits acc"
  using assms
proof (induction to acc bits out rule: emit_groups.induct)
  case (1 to acc bits out)
  show ?case
  proof (cases "bits < to")
    case True
    with 1(2-) show ?thesis by (simp add: emit_groups.simps [of to acc bits out])
  next
    case False
    let ?g = "ucast (drop_bit (bits - to) acc AND mask to) :: u8"
    have step: "emit_groups to acc (bits - to) (out @ [?g]) = (bits', out')"
      using 1(2-) False by (simp add: emit_groups.simps [of to acc bits out] mask_word)
    have "\<exists>new. out' = (out @ [?g]) @ new \<and> list_all (fits to) new \<and> bits' < to \<and>
        concat (map (msb to) new) @ msb bits' acc = msb (bits - to) acc"
      using 1(1) 1(2,3) False step by (simp add: mask_word)
    then obtain new where new: "out' = out @ ?g # new" "list_all (fits to) new" "bits' < to"
      "concat (map (msb to) new) @ msb bits' acc = msb (bits - to) acc"
      by auto
    have "msb bits acc = msb to (drop_bit (bits - to) acc) @ msb (bits - to) acc"
      using msb_add [of to "bits - to" acc] False by simp
    with new emitted_group [OF 1(3)] show ?thesis
      by (intro exI [of _ "?g # new"]) simp
  qed
qed

lemma value_fits: "drop_bit from (ucast b :: u32) = 0 \<longleftrightarrow> fits from b"
proof
  assume z: "drop_bit from (ucast b :: u32) = 0"
  have "i < from" if "bit b i" for i
  proof (rule ccontr)
    assume "\<not> i < from"
    then have "bit (drop_bit from (ucast b :: u32)) (i - from) = bit (ucast b :: u32) i"
      by (simp add: bit_drop_bit_eq)
    moreover have "bit (ucast b :: u32) i"
      using that bit_imp_le_length [OF that] by (simp add: bit_ucast_iff)
    ultimately show False
      using z by simp
  qed
  then show "fits from b"
    unfolding fits_def by (intro bit_word_eqI) (auto simp: bit_take_bit_iff)
next
  assume f: "fits from b"
  show "drop_bit from (ucast b :: u32) = 0"
    by (rule bit_word_eqI) (use fits_bits [OF f] in \<open>auto simp: bit_drop_bit_eq bit_ucast_iff\<close>)
qed

lemma accumulated:
  assumes "fits from b" "bits < to" "from \<le> 8" "to \<le> 8"
  shows "msb (bits + from) ((push_bit from acc OR ucast b) AND mask (from + to - 1) :: u32) =
    msb bits acc @ msb from b"
proof -
  let ?acc = "(push_bit from acc OR ucast b) AND mask (from + to - 1) :: u32"
  have "msb bits (drop_bit from ?acc) = msb bits acc"
    using assms(2-4) fits_bits [OF assms(1)] by (intro msb_cong) (auto simp: bit_simps)
  moreover have "msb from ?acc = msb from b"
    using assms(2-4) by (intro msb_cong) (auto simp: bit_simps)
  ultimately show ?thesis
    by (simp add: msb_add)
qed

lemma convert_loop_spec:
  assumes "0 < to" "to \<le> 8" "from \<le> 8" "bits < to" "list_all (fits from) data"
  shows "\<exists>acc' bits' new. convert_loop from to acc bits out data = Some (acc', bits', out @ new) \<and>
     list_all (fits to) new \<and> bits' < to \<and>
     concat (map (msb to) new) @ msb bits' acc' = msb bits acc @ concat (map (msb from) data)"
  using assms(4,5)
proof (induction data arbitrary: acc bits out)
  case (Cons b data)
  let ?acc = "(push_bit from acc OR ucast b) AND mask (from + to - 1)"
  obtain bits1 out1 where e: "emit_groups to ?acc (bits + from) out = (bits1, out1)"
    by fastforce
  from emit_groups_spec [OF assms(1,2) e] obtain new1 where
    new1: "out1 = out @ new1" "list_all (fits to) new1" "bits1 < to"
      "concat (map (msb to) new1) @ msb bits1 ?acc = msb (bits + from) ?acc"
    by blast
  obtain acc' bits' new where
    r: "convert_loop from to ?acc bits1 out1 data = Some (acc', bits', out1 @ new)"
      "list_all (fits to) new" "bits' < to"
      "concat (map (msb to) new) @ msb bits' acc' = msb bits1 ?acc @ concat (map (msb from) data)"
    using Cons.IH [OF new1(3)] Cons.prems by fastforce
  have "drop_bit from (ucast b :: u32) = 0"
    using Cons.prems by (simp add: value_fits)
  with e r(1) have "convert_loop from to acc bits out (b # data) = Some (acc', bits', out1 @ new)"
    by (simp add: Let_def mask_word)
  moreover have "concat (map (msb to) (new1 @ new)) @ msb bits' acc' =
      msb bits acc @ concat (map (msb from) (b # data))"
  proof -
    have "concat (map (msb to) (new1 @ new)) @ msb bits' acc' =
        (concat (map (msb to) new1) @ msb bits1 ?acc) @ concat (map (msb from) data)"
      by (simp add: r(4))
    then show ?thesis
      using accumulated [of "from" b bits to acc] Cons.prems assms by (simp only: new1(4)) simp
  qed
  ultimately show ?case
    using new1 r by (intro exI [of _ acc'] exI [of _ bits'] exI [of _ "new1 @ new"]) simp
qed simp

lemma convert_loop_None: "\<not> list_all (fits from) data \<Longrightarrow> convert_loop from to acc bits out data = None"
  by (induction data arbitrary: acc bits out) (auto simp: Let_def value_fits split: prod.splits)

lemma rest_bits:
  assumes "bits \<le> to" "to \<le> 8"
  shows "msb to (push_bit (to - bits) acc AND mask to :: u32) = msb bits acc @ replicate (to - bits) False"
proof -
  let ?r = "push_bit (to - bits) acc AND mask to :: u32"
  have "msb bits (drop_bit (to - bits) ?r) = msb bits acc"
    using assms by (intro msb_cong) (auto simp: bit_simps)
  moreover have "msb (to - bits) ?r = msb (to - bits) (0 :: u32)"
    by (intro msb_cong) (auto simp: bit_simps)
  ultimately show ?thesis
    using msb_add [of bits "to - bits" ?r] assms by (simp add: msb_zero)
qed

lemma msb_all_zero: "msb w v = replicate w False \<longleftrightarrow> take_bit w v = 0"
proof
  assume "msb w v = replicate w False"
  then have "msb w v = msb w (0 :: 'a word)"
    by (simp add: msb_zero)
  then have "\<forall>i<w. \<not> bit v i"
    by (simp add: msb_def)
  then show "take_bit w v = 0"
    by (auto simp: bit_eq_iff bit_take_bit_iff)
next
  assume "take_bit w v = 0"
  then have "msb w v = msb w (0 :: 'a word)"
    by (intro msb_cong) (metis bit_0_eq bit_take_bit_iff bot_apply bot_bool_def)
  then show "msb w v = replicate w False" by (simp add: msb_zero)
qed

lemma fits_8 [simp]: "fits 8 b"
  by (simp add: fits_def take_bit_word_eq_self)

lemma list_all_fits_8 [simp]: "list_all (fits 8) bs"
  by (simp add: list_all_iff)

lemma to_groups:
  "\<exists>g k. convert_bits p 8 5 True = Some g \<and> list_all (fits 5) g \<and> k < 5 \<and>
     concat (map (msb 5) g) = concat (map (msb 8) p) @ replicate k False"
proof -
  from convert_loop_spec [of 5 8 0 p 0 "[]"] obtain acc bits new where
    l: "convert_loop 8 5 0 0 [] p = Some (acc, bits, new)" "list_all (fits 5) new" "bits < 5"
      "concat (map (msb 5) new) @ msb bits acc = concat (map (msb 8) p)"
    by (auto simp: msb_def)
  show ?thesis
  proof (cases "bits = 0")
    case True
    with l show ?thesis
      by (intro exI [of _ new] exI [of _ 0]) (simp add: convert_bits_def Let_def msb_def)
  next
    case False
    let ?r = "push_bit (5 - bits) acc AND mask 5" and ?g = "ucast (push_bit (5 - bits) acc AND mask 5) :: u8"
    have "fits 5 ?g \<and> msb 5 ?g = msb 5 (push_bit (5 - bits) acc)"
      using emitted_group [of 5 0 "push_bit (5 - bits) acc"] by simp
    moreover have "msb 5 ?r = msb 5 (push_bit (5 - bits) acc)"
      by (intro msb_cong) (auto simp: bit_simps)
    ultimately have g: "fits 5 ?g" "msb 5 ?g = msb bits acc @ replicate (5 - bits) False"
      using rest_bits [of bits 5 acc] l(3) by simp_all
    have "convert_bits p 8 5 True = Some (new @ [?g])"
      using l False by (simp add: convert_bits_def Let_def mask_word [of 5, simplified])
    with g l False show ?thesis
      by (intro exI [of _ "new @ [?g]"] exI [of _ "5 - bits"]) (simp flip: l(4))
  qed
qed

lemma from_groups:
  assumes "list_all (fits 5) g"
  shows "convert_bits g 5 8 False = Some p \<longleftrightarrow>
    (\<exists>k<5. concat (map (msb 5) g) = concat (map (msb 8) p) @ replicate k False)"
proof -
  from convert_loop_spec [of 8 5 0 g 0 "[]"] assms obtain acc bits new where
    l: "convert_loop 5 8 0 0 [] g = Some (acc, bits, new)" "bits < 8"
      "concat (map (msb 8) new) @ msb bits acc = concat (map (msb 5) g)"
    by (auto simp: msb_def)
  let ?r = "push_bit (8 - bits) acc AND mask 8 :: u32"
  have "?r = 0 \<longleftrightarrow> msb 8 ?r = replicate 8 False"
    by (simp add: msb_all_zero flip: take_bit_eq_mask)
  also have "\<dots> \<longleftrightarrow> msb bits acc @ replicate (8 - bits) False = replicate bits False @ replicate (8 - bits) False"
    using rest_bits [of bits 8 acc] l(2) by (simp flip: replicate_add)
  also have "\<dots> \<longleftrightarrow> msb bits acc = replicate bits False"
    by simp
  finally have "convert_bits g 5 8 False = Some p \<longleftrightarrow> bits < 5 \<and> msb bits acc = replicate bits False \<and> new = p"
    using l by (auto simp: convert_bits_def Let_def mask_word [of 8, simplified])
  also have "\<dots> \<longleftrightarrow> (\<exists>k<5. concat (map (msb 5) g) = concat (map (msb 8) p) @ replicate k False)"
  proof
    assume "bits < 5 \<and> msb bits acc = replicate bits False \<and> new = p"
    then show "\<exists>k<5. concat (map (msb 5) g) = concat (map (msb 8) p) @ replicate k False"
      using l(3) by metis
  next
    assume "\<exists>k<5. concat (map (msb 5) g) = concat (map (msb 8) p) @ replicate k False"
    then obtain k where k: "k < 5"
      "concat (map (msb 8) new) @ msb bits acc = concat (map (msb 8) p) @ replicate k False"
      using l(3) by auto
    have "new = p \<and> msb bits acc = replicate k False"
      using l(2) k(1) by (intro regroup_unique [OF k(2)]) simp_all
    moreover from this have "bits = k"
      by (metis length_msb length_replicate)
    ultimately show "bits < 5 \<and> msb bits acc = replicate bits False \<and> new = p"
      using k(1) by simp
  qed
  finally show ?thesis .
qed

lemma groups_roundtrip:
  "convert_bits p 8 5 True = Some g \<Longrightarrow> list_all (fits 5) g \<and> convert_bits g 5 8 False = Some p"
  using to_groups [of p] from_groups by fastforce

lemma groups_canonical:
  assumes "list_all (fits 5) g" and "convert_bits g 5 8 False = Some p"
  shows "convert_bits p 8 5 True = Some g"
proof -
  obtain k where k: "k < 5" "concat (map (msb 5) g) = concat (map (msb 8) p) @ replicate k False"
    using from_groups [OF assms(1)] assms(2) by auto
  obtain h j where h: "convert_bits p 8 5 True = Some h" "list_all (fits 5) h" "j < 5"
    "concat (map (msb 5) h) = concat (map (msb 8) p) @ replicate j False"
    using to_groups [of p] by auto
  have len: "length (concat (map (msb w) xs)) = w * length xs" for w and xs :: "u8 list"
    by (induction xs) simp_all
  have "5 * length g = 8 * length p + k" "5 * length h = 8 * length p + j"
    using arg_cong [OF k(2), of length] arg_cong [OF h(4), of length] by (simp_all add: len)
  with k(1) h(3) have "k = j"
    by (cases "length g" "length h" rule: linorder_cases) linarith+
  then have "concat (map (msb 5) g) @ [] = concat (map (msb 5) h) @ []"
    using k(2) h(4) by simp
  then have "g = h"
    using regroup_unique [of 5 g "[]" h "[]"] assms(1) h(2) by simp
  with h(1) show ?thesis by simp
qed

section \<open>Characters and text\<close>

lemma upper_lower [simp]: "to_ascii_uppercase (to_ascii_lowercase b) = to_ascii_uppercase b"
  by (auto simp: to_ascii_uppercase_def to_ascii_lowercase_def is_ascii_uppercase_def
      is_ascii_lowercase_def word_le_nat_alt unat_word_ariths)

lemma lower_idem [simp]: "to_ascii_lowercase (to_ascii_lowercase b) = to_ascii_lowercase b"
  by (auto simp: to_ascii_lowercase_def is_ascii_uppercase_def word_le_nat_alt unat_word_ariths)

lemma lower_upper [simp]: "to_ascii_lowercase (to_ascii_uppercase b) = to_ascii_lowercase b"
proof (cases "is_ascii_lowercase b")
  case True
  then have "32 \<le> unat b" "unat b \<le> 122" "97 \<le> unat b"
    by (simp_all add: is_ascii_lowercase_def word_le_nat_alt)
  then have "unat (b - 32) = unat b - 32"
    by (simp add: unat_sub word_le_nat_alt)
  with True show ?thesis
    by (auto simp: to_ascii_lowercase_def to_ascii_uppercase_def is_ascii_uppercase_def
        is_ascii_lowercase_def word_le_nat_alt)
qed (simp add: to_ascii_uppercase_def)

lemma upper_not_lower: "\<not> is_ascii_lowercase (to_ascii_uppercase b)"
proof (cases "is_ascii_lowercase b")
  case True
  then have "97 \<le> unat b" "unat b \<le> 122"
    by (simp_all add: is_ascii_lowercase_def word_le_nat_alt)
  then have "unat (b - 32) = unat b - 32"
    by (simp add: unat_sub word_le_nat_alt)
  with \<open>unat b \<le> 122\<close> True show ?thesis
    by (simp add: to_ascii_uppercase_def is_ascii_lowercase_def word_le_nat_alt)
qed (simp add: to_ascii_uppercase_def)

lemmas CHARSET_bytes = CHARSET_def ascii_def

lemma CHARSET_facts:
  "length CHARSET = 32" "distinct CHARSET" "49 \<notin> set CHARSET"
  "list_all (\<lambda>c. to_ascii_lowercase c = c) CHARSET"
  by (simp_all add: CHARSET_bytes to_ascii_lowercase_def is_ascii_uppercase_def word_le_nat_alt)

lemma fits_5: "fits 5 g \<longleftrightarrow> unat g < 32"
proof
  assume "fits 5 g"
  then have "unat g = take_bit 5 (unat g)"
    by (metis fits_def unsigned_take_bit_eq)
  then show "unat g < 32"
    using take_bit_nat_less_exp [of 5 "unat g"] by simp
next
  assume "unat g < 32"
  then show "fits 5 g"
    by (simp add: fits_def word_unat_eq_iff unsigned_take_bit_eq take_bit_nat_eq_self)
qed

lemma group5_fits: "group5 = fits 5"
  by (simp add: fun_eq_iff group5_def fits_def)

abbreviation char_of_group :: "u8 \<Rightarrow> u8" where
  "char_of_group g \<equiv> CHARSET ! unat g"

lemma charset_index_Some: "charset_index b = Some g \<longleftrightarrow> fits 5 g \<and> char_of_group g = b"
proof -
  have "List.find (\<lambda>i. CHARSET ! i = b) [0..<32] = Some i \<longleftrightarrow> i < 32 \<and> CHARSET ! i = b" for i
    using CHARSET_facts(1,2) by (auto simp: find_Some_iff nth_eq_iff_index_eq)
  moreover have "i < 32 \<Longrightarrow> unat (word_of_nat i :: u8) = i" for i
    by (simp add: unat_of_nat)
  ultimately show ?thesis
    by (auto simp: charset_index_def fits_5 intro!: exI [of _ "unat g"])
qed

lemma body_groups_Some:
  "body_groups bs = Some gs \<longleftrightarrow> list_all (fits 5) gs \<and> bs = map char_of_group gs"
proof (induction bs arbitrary: gs)
  case (Cons b bs)
  have "body_groups (b # bs) = Some gs \<longleftrightarrow>
      (\<exists>g hs. charset_index b = Some g \<and> body_groups bs = Some hs \<and> gs = g # hs)"
    by (auto split: option.splits)
  then show ?case
    by (cases gs) (auto simp: charset_index_Some Cons)
qed auto

lemma bech_encode_eq:
  "bech_encode hrp data =
     hrp @ 49 # map char_of_group (data @ check_values (polymod (hrp_polymod hrp) data))"
proof -
  have "ascii ''1'' = [49 :: u8]"
    by (simp add: ascii_def)
  then show ?thesis
    unfolding bech_encode_def Let_def check_values_slots check_values_def by simp
qed

lemma rfind_Some:
  "rfind c xs = Some n \<longleftrightarrow> (\<exists>front rear. xs = front @ c # rear \<and> c \<notin> set rear \<and> n = length front)"
proof
  assume r: "rfind c xs = Some n"
  define rear where "rear = takeWhile (\<lambda>x. x \<noteq> c) (rev xs)"
  define tail where "tail = dropWhile (\<lambda>x. x \<noteq> c) (rev xs)"
  have split: "rev xs = rear @ tail"
    unfolding rear_def tail_def by (rule takeWhile_dropWhile_id [symmetric])
  have n: "length rear \<noteq> length xs" "n = length xs - 1 - length rear"
    using r unfolding rfind_def Let_def rear_def by (simp_all split: if_splits)
  have "tail \<noteq> []"
    using n(1) arg_cong [OF split, of length] by auto
  moreover from this have "hd tail = c"
    unfolding tail_def using hd_dropWhile by blast
  ultimately obtain y where y: "tail = c # y"
    by (cases tail) auto
  have xs: "xs = rev y @ c # rev rear"
    using arg_cong [OF split, of rev] by (simp add: y)
  moreover have "c \<notin> set (rev rear)"
    unfolding rear_def using set_takeWhileD by fastforce
  moreover have "n = length (rev y)"
    using n(2) by (simp add: xs)
  ultimately show "\<exists>front rear. xs = front @ c # rear \<and> c \<notin> set rear \<and> n = length front"
    by blast
next
  assume "\<exists>front rear. xs = front @ c # rear \<and> c \<notin> set rear \<and> n = length front"
  then obtain front rear where "xs = front @ c # rear" "c \<notin> set rear" "n = length front"
    by blast
  moreover from this have "takeWhile (\<lambda>x. x \<noteq> c) (rev rear @ c # rev front) = rev rear"
    by (subst takeWhile_append2) auto
  ultimately show "rfind c xs = Some n"
    by (simp add: rfind_def Let_def)
qed

text \<open>What the decoder accepts: prefix, separator, groups and their one valid checksum.\<close>

definition valid_hrp :: "bytes \<Rightarrow> bool" where
  "valid_hrp hrp \<longleftrightarrow> hrp \<noteq> [] \<and> list_all (\<lambda>b. 33 \<le> b \<and> b \<le> 126) hrp"

lemma chars_no_separator: "list_all (fits 5) gs \<Longrightarrow> 49 \<notin> set (map char_of_group gs)"
  using CHARSET_facts(1,3) nth_mem [of _ CHARSET] by (fastforce simp: list_all_iff fits_5)

lemma checked_groups:
  assumes "list_all (fits 5) gs" and "6 \<le> length gs"
  shows "polymod c gs = BECH32M_CONST \<longleftrightarrow>
    gs = take (length gs - 6) gs @ check_values (polymod c (take (length gs - 6) gs))"
proof -
  let ?d = "take (length gs - 6) gs" and ?v = "drop (length gs - 6) gs"
  have "polymod c gs = polymod (polymod c ?d) ?v"
    using polymod_append [of c ?d ?v] by simp
  moreover have "list_all group5 ?v" "length ?v = 6"
    using assms by (auto simp: group5_fits list_all_iff dest: in_set_dropD)
  ultimately have "polymod c gs = BECH32M_CONST \<longleftrightarrow> ?v = check_values (polymod c ?d)"
    by (simp add: checksum_unique)
  also have "\<dots> \<longleftrightarrow> ?d @ ?v = ?d @ check_values (polymod c ?d)"
    by (simp only: same_append_eq)
  finally show ?thesis
    by (simp only: append_take_drop_id)
qed

lemma bech_decode_Inr:
  "bech_decode text = Inr (hrp, p) \<longleftrightarrow>
     length text \<le> MAX_ENCODED \<and>
     \<not> (list_ex is_ascii_lowercase text \<and> list_ex is_ascii_uppercase text) \<and>
     valid_hrp hrp \<and>
     (\<exists>data. map to_ascii_lowercase text = bech_encode hrp data \<and> list_all (fits 5) data \<and>
        convert_bits data 5 8 False = Some p)"
    (is "?lhs \<longleftrightarrow> ?rhs")
proof
  assume ?lhs
  then obtain n gs where d: "length text \<le> MAX_ENCODED"
    "\<not> (list_ex is_ascii_lowercase text \<and> list_ex is_ascii_uppercase text)"
    "rfind 49 (map to_ascii_lowercase text) = Some n" "1 \<le> n" "n + 7 \<le> length text"
    "hrp = take n (map to_ascii_lowercase text)" "\<not> list_ex (\<lambda>b. \<not> (33 \<le> b \<and> b \<le> 126)) hrp"
    "body_groups (drop (n + 1) (map to_ascii_lowercase text)) = Some gs"
    "polymod (hrp_polymod hrp) gs = BECH32M_CONST"
    "convert_bits (take (length gs - 6) gs) 5 8 False = Some p"
    by (auto simp: bech_decode_def Let_def not_less split: if_splits option.splits)
  let ?d = "take (length gs - 6) gs"
  obtain front rear where f: "map to_ascii_lowercase text = front @ 49 # rear" "n = length front"
    using d(3) by (auto simp: rfind_Some)
  have hrp: "hrp = front" and g: "list_all (fits 5) gs" "rear = map char_of_group gs"
    using d(6,8) f by (simp_all add: body_groups_Some)
  have "length gs = length text - n - 1"
    using arg_cong [OF f(1), of length] f(2) g(2) by simp
  then have "gs = ?d @ check_values (polymod (hrp_polymod hrp) ?d)"
    using d(5,9) g(1) by (subst (asm) checked_groups) simp_all
  then have "map to_ascii_lowercase text = bech_encode hrp ?d"
    using f(1) hrp g(2) by (simp only: bech_encode_eq)
  moreover have "valid_hrp hrp"
    using d(4,7) hrp f(2) by (auto simp: valid_hrp_def list_all_iff list_ex_iff)
  moreover have "list_all (fits 5) ?d"
    using g(1) by (auto simp: list_all_iff dest: in_set_takeD)
  ultimately show ?rhs
    using d(1,2,10) by blast
next
  assume ?rhs
  then obtain data where d: "length text \<le> MAX_ENCODED"
    "\<not> (list_ex is_ascii_lowercase text \<and> list_ex is_ascii_uppercase text)" "valid_hrp hrp"
    "map to_ascii_lowercase text = bech_encode hrp data" "list_all (fits 5) data"
    "convert_bits data 5 8 False = Some p"
    by blast
  let ?v = "check_values (polymod (hrp_polymod hrp) data)"
  have v: "list_all (fits 5) ?v" "length ?v = 6"
    using check_values_groups by (simp_all add: group5_fits)
  have t: "map to_ascii_lowercase text = hrp @ 49 # map char_of_group (data @ ?v)"
    using d(4) by (simp only: bech_encode_eq)
  have g: "list_all (fits 5) (data @ ?v)"
    using d(5) v(1) by simp
  have "rfind 49 (hrp @ 49 # map char_of_group (data @ ?v)) = Some (length hrp)"
    unfolding rfind_Some using chars_no_separator [OF g] by blast
  moreover have "length text = length hrp + 7 + length data"
    using arg_cong [OF t, of length] v(2) by simp
  moreover have "body_groups (map char_of_group (data @ ?v)) = Some (data @ ?v)"
    using g by (simp add: body_groups_Some)
  moreover have "polymod (hrp_polymod hrp) (data @ ?v) = BECH32M_CONST"
    by (subst checked_groups [OF g]) (simp_all add: v(2))
  ultimately show ?lhs
    using d(1-3,6) v(2) unfolding bech_decode_def Let_def t
    by (auto simp: valid_hrp_def list_all_iff list_ex_iff Suc_le_eq)
qed

lemma hrp_polymod_lower: "hrp_polymod (map to_ascii_lowercase hrp) = hrp_polymod hrp"
  by (simp add: hrp_polymod_def comp_def)

lemma lower_chars: "list_all (fits 5) gs \<Longrightarrow> map to_ascii_lowercase (map char_of_group gs) = map char_of_group gs"
  using CHARSET_facts(1,4) by (auto simp: list_all_iff fits_5)

lemma lower_bech_encode:
  assumes "list_all (fits 5) data"
  shows "map to_ascii_lowercase (bech_encode hrp data) = bech_encode (map to_ascii_lowercase hrp) data"
proof -
  let ?v = "check_values (polymod (hrp_polymod hrp) data)"
  have "list_all (fits 5) (data @ ?v)"
    using assms check_values_groups by (simp add: group5_fits)
  moreover have "to_ascii_lowercase 49 = 49"
    by (simp add: to_ascii_lowercase_def is_ascii_uppercase_def word_le_nat_alt)
  ultimately show ?thesis
    using lower_chars [of "data @ ?v"] by (simp add: bech_encode_eq hrp_polymod_lower)
qed

lemma parse_text_Inr:
  assumes "valid_hrp (map to_ascii_lowercase hrp)"
  shows "parse_text hrp text = Inr p \<longleftrightarrow>
     length text \<le> MAX_ENCODED \<and>
     \<not> (list_ex is_ascii_lowercase text \<and> list_ex is_ascii_uppercase text) \<and>
     (\<exists>data. map to_ascii_lowercase text = map to_ascii_lowercase (bech_encode hrp data) \<and>
        convert_bits p 8 5 True = Some data)"
proof -
  let ?h = "map to_ascii_lowercase hrp"
  have lowered: "map to_ascii_lowercase h = h" if "bech_decode text = Inr (h, q)" for h q
  proof -
    from that obtain data where "map to_ascii_lowercase text = bech_encode h data" "list_all (fits 5) data"
      by (auto simp: bech_decode_Inr)
    moreover have "map to_ascii_lowercase (map to_ascii_lowercase text) = map to_ascii_lowercase text"
      by simp
    ultimately have "bech_encode (map to_ascii_lowercase h) data = bech_encode h data"
      using lower_bech_encode [of data h] by simp
    then show ?thesis
      by (simp add: bech_encode_eq hrp_polymod_lower)
  qed
  have "parse_text hrp text = Inr p \<longleftrightarrow> bech_decode text = Inr (?h, p)"
    using lowered by (auto simp: parse_text_def comp_def split: sum.splits prod.splits if_splits)
  moreover have "map to_ascii_lowercase text = bech_encode ?h data \<and> list_all (fits 5) data \<and>
      convert_bits data 5 8 False = Some p \<longleftrightarrow>
      map to_ascii_lowercase text = map to_ascii_lowercase (bech_encode hrp data) \<and>
      convert_bits p 8 5 True = Some data" for data
    using groups_canonical [of data p] groups_roundtrip [of p data] lower_bech_encode [of data hrp]
    by auto
  ultimately show ?thesis
    using assms by (simp only: bech_decode_Inr simp_thms)
qed

lemma case_eq: "map to_ascii_lowercase s = map to_ascii_lowercase t \<longleftrightarrow>
    map to_ascii_uppercase s = map to_ascii_uppercase t"
proof
  assume "map to_ascii_lowercase s = map to_ascii_lowercase t"
  from arg_cong [OF this, of "map to_ascii_uppercase"]
  show "map to_ascii_uppercase s = map to_ascii_uppercase t" by (simp add: comp_def)
next
  assume "map to_ascii_uppercase s = map to_ascii_uppercase t"
  from arg_cong [OF this, of "map to_ascii_lowercase"]
  show "map to_ascii_lowercase s = map to_ascii_lowercase t" by (simp add: comp_def)
qed

definition one_case :: "bytes \<Rightarrow> bool" where
  "one_case t \<longleftrightarrow> \<not> (list_ex is_ascii_lowercase t \<and> list_ex is_ascii_uppercase t)"

lemma parse_iff_render:
  assumes "valid_hrp (map to_ascii_lowercase hrp)"
  shows "parse_text hrp t = Inr p \<longleftrightarrow>
     length t \<le> MAX_ENCODED \<and> one_case t \<and> render_text hrp p = Some (map to_ascii_uppercase t)"
  unfolding parse_text_Inr [OF assms] case_eq one_case_def render_text_def by auto

lemma render_text_total: "\<exists>t. render_text hrp p = Some t"
  using to_groups [of p] by (auto simp: render_text_def)

lemma render_text_upper: "render_text hrp p = Some t \<Longrightarrow> map to_ascii_uppercase t = t \<and> one_case t"
proof -
  have idem: "to_ascii_uppercase (to_ascii_uppercase b) = to_ascii_uppercase b" for b
    using upper_not_lower [of b] by (simp add: to_ascii_uppercase_def)
  show "render_text hrp p = Some t \<Longrightarrow> map to_ascii_uppercase t = t \<and> one_case t"
    by (auto simp: render_text_def idem one_case_def list_ex_iff upper_not_lower)
qed

lemma render_digest_length:
  assumes "render_text hrp p = Some t" "length p = 32"
  shows "length t = length hrp + 59"
proof -
  obtain g k where g: "convert_bits p 8 5 True = Some g" "list_all (fits 5) g" "k < 5"
    "concat (map (msb 5) g) = concat (map (msb 8) p) @ replicate k False"
    using to_groups [of p] by auto
  have len: "length (concat (map (msb w) xs)) = w * length xs" for w and xs :: "u8 list"
    by (induction xs) simp_all
  have "5 * length g = 256 + k"
    using arg_cong [OF g(4), of length] assms(2) by (simp add: len)
  with g(3) have "length g = 52" by linarith
  with assms(1) g(1) check_values_groups show ?thesis
    by (auto simp: render_text_def bech_encode_eq)
qed

lemmas hrp_bytes = HRP_ADDRESS_def HRP_SECRET_def HRP_TX_def HRP_BLOCK_def HRP_STATE_def HRP_CID_def
  HRP_PROOF_def ascii_def

lemma valid_hrps:
  "h \<in> {HRP_ADDRESS, HRP_SECRET, HRP_TX, HRP_BLOCK, HRP_STATE, HRP_CID, HRP_PROOF} \<Longrightarrow>
     valid_hrp (map to_ascii_lowercase h)"
  by (auto simp: hrp_bytes valid_hrp_def to_ascii_lowercase_def is_ascii_uppercase_def word_le_nat_alt)

lemma parse_text_prefix:
  assumes "parse_text h t = Inr p" "parse_text h' t = Inr q"
  shows "map to_ascii_lowercase h = map to_ascii_lowercase h'"
  using assms by (auto simp: parse_text_def split: sum.splits prod.splits if_splits)

lemma at_most_one:
  assumes "distinct (map f xs)" and "\<And>a b. P a \<Longrightarrow> P b \<Longrightarrow> f a = f b"
  shows "length (filter P xs) \<le> 1"
proof -
  have "distinct (filter P xs)" and inj: "inj_on f (set xs)"
    using assms(1) by (auto simp: distinct_map)
  moreover have "a = b" if "a \<in> set (filter P xs)" "b \<in> set (filter P xs)" for a b
    using that assms(2) inj by (auto dest: inj_onD)
  ultimately show ?thesis
    by (metis One_nat_def card_le_Suc0_iff_eq distinct_card finite_set)
qed

section \<open>Claims\<close>

text \<open>
  C16: an address round trips.  Rendering a 32-byte digest succeeds and parsing the text, in upper or
  in lower case, gives the digest back.
\<close>

theorem address_roundtrip:
  assumes "length p = 32"
  shows "\<exists>t. render_address p = Some (Inr t) \<and> parse_address t = Inr p \<and>
     parse_address (map to_ascii_lowercase t) = Inr p"
proof -
  obtain t where t: "render_text HRP_ADDRESS p = Some t"
    using render_text_total by blast
  have len: "length t = 60"
    using render_digest_length [OF t assms] by (simp add: hrp_bytes)
  have up: "map to_ascii_uppercase t = t" "one_case t"
    using render_text_upper [OF t] by simp_all
  have "map to_ascii_uppercase (map to_ascii_lowercase t) = t"
    using up(1) by (simp add: comp_def)
  moreover have "one_case (map to_ascii_lowercase t)"
    by (auto simp: one_case_def list_ex_iff to_ascii_lowercase_def is_ascii_uppercase_def
        word_le_nat_alt unat_word_ariths)
  ultimately have "parse_text HRP_ADDRESS t = Inr p" "parse_text HRP_ADDRESS (map to_ascii_lowercase t) = Inr p"
    using t len up by (simp_all add: parse_iff_render valid_hrps MAX_ENCODED_def)
  with t assms show ?thesis
    by (simp add: render_address_def parse_address_def render_checked_def parse_checked_def
        check_digest_def DIGEST_LEN_def)
qed

theorem address_roundtrip_witness:
  "\<exists>t. render_address (replicate 32 7) = Some (Inr t) \<and> parse_address t = Inr (replicate 32 7)"
  using address_roundtrip [of "replicate 32 7"] by auto

text \<open>
  C17: addresses are canonical.  A text parses as an address exactly when it is in a single case and
  is the rendering of the digest it yields, up to case: every digest has one address, and no other
  checksum, padding or length is accepted.
\<close>

theorem address_canonical:
  "parse_address t = Inr p \<longleftrightarrow>
     one_case t \<and> render_address p = Some (Inr (map to_ascii_uppercase t))"
proof -
  have "render_text HRP_ADDRESS p = Some (map to_ascii_uppercase t) \<Longrightarrow> length p = 32 \<Longrightarrow> length t \<le> MAX_ENCODED"
    using render_digest_length [of HRP_ADDRESS p "map to_ascii_uppercase t"]
    by (simp add: hrp_bytes MAX_ENCODED_def)
  moreover have "parse_address t = Inr p \<longleftrightarrow> parse_text HRP_ADDRESS t = Inr p \<and> length p = 32"
    by (auto simp: parse_address_def parse_checked_def check_digest_def DIGEST_LEN_def
        split: sum.splits if_splits)
  moreover have "render_address p = Some (Inr u) \<longleftrightarrow> length p = 32 \<and> render_text HRP_ADDRESS p = Some u" for u
    by (auto simp: render_address_def render_checked_def check_digest_def DIGEST_LEN_def)
  ultimately show ?thesis
    by (auto simp: parse_iff_render valid_hrps)
qed

text \<open>
  C18: the identifier families do not overlap.  No text is accepted by two of the seven parsers, so a
  transaction id is never taken for an address, nor a secret for a digest.
\<close>

theorem id_families_disjoint:
  "length (filter (\<lambda>h. \<exists>p. parse_text h t = Inr p)
     [HRP_ADDRESS, HRP_SECRET, HRP_TX, HRP_BLOCK, HRP_STATE, HRP_CID, HRP_PROOF]) \<le> 1"
proof (rule at_most_one [of "map to_ascii_lowercase"])
  show "distinct (map (map to_ascii_lowercase)
      [HRP_ADDRESS, HRP_SECRET, HRP_TX, HRP_BLOCK, HRP_STATE, HRP_CID, HRP_PROOF])"
    by (simp add: hrp_bytes to_ascii_lowercase_def is_ascii_uppercase_def word_le_nat_alt)
qed (use parse_text_prefix in blast)

end
