(* ===== verification/Events.thy ===== *)
theory Events
  imports Codec
begin

text \<open>
  The events a block leaves behind, \<^verbatim>\<open>src/crates/qtv-node/src/ledger.rs\<close>: block events, which are
  the leaves of the event root, and side events with their tagged encoding.  A Rust string is its
  bytes, and the readers refuse bytes that are not UTF-8.  The readers drop the error of a failed
  read, so a reader that fails carries an arbitrary error here and its caller sees only \<open>None\<close>.
\<close>

section \<open>Block events\<close>

definition NATIVE_EVENT_SOURCE :: bytes where "NATIVE_EVENT_SOURCE = ascii ''qtv/native''"
definition SLASH_DISPOSITION_BURN :: bytes where "SLASH_DISPOSITION_BURN = ascii ''burn''"
definition SLASH_DISPOSITION_TREASURY :: bytes where "SLASH_DISPOSITION_TREASURY = ascii ''treasury''"

definition EVENT_TRANSFER :: bytes where "EVENT_TRANSFER = ascii ''QXFR''"
definition EVENT_BOND :: bytes where "EVENT_BOND = ascii ''QBND''"
definition EVENT_UNBOND :: bytes where "EVENT_UNBOND = ascii ''QUBD''"
definition EVENT_SLASH :: bytes where "EVENT_SLASH = ascii ''QSLH''"
definition EVENT_MINT :: bytes where "EVENT_MINT = ascii ''QMNT''"
definition EVENT_REWARD :: bytes where "EVENT_REWARD = ascii ''QRWD''"
definition EVENT_BRIDGE_MINT :: bytes where "EVENT_BRIDGE_MINT = ascii ''QBMT''"
definition EVENT_BRIDGE_BURN :: bytes where "EVENT_BRIDGE_BURN = ascii ''QBBN''"
definition EVENT_BRIDGE_SETTLE :: bytes where "EVENT_BRIDGE_SETTLE = ascii ''QBSE''"
definition EVENT_BRIDGE_SLASH :: bytes where "EVENT_BRIDGE_SLASH = ascii ''QBSL''"

record block_event =
  event_contract :: bytes
  event_selector :: bytes
  event_data :: bytes
  event_tx :: bytes

definition encode_block_event :: "block_event \<Rightarrow> encoder \<Rightarrow> encoder" where
  "encode_block_event e = puts [put_bytes (event_contract e), put_bytes (event_selector e),
     put_bytes (event_data e), put_bytes (event_tx e)]"

definition dropped :: codec_error where
  "dropped = UnknownTag 0"

definition put_text :: "bytes \<Rightarrow> encoder \<Rightarrow> encoder" where
  "put_text t = put_bytes t"

definition get_text :: "bytes decode" where
  "get_text = dbind get_bytes (\<lambda>t. if utf8_valid t then dret t else dfail dropped)"

definition get_word32 :: "bytes decode" where
  "get_word32 = get_array 32 dropped"

definition get_word16 :: "bytes decode" where
  "get_word16 = get_array 16 dropped"

definition decode_block_event :: "block_event decode" where
  "decode_block_event =
     dbind get_text (\<lambda>c. dbind (get_array 4 dropped) (\<lambda>s. dbind get_bytes (\<lambda>dat. \<lambda>d.
       dbind (if 0 < remaining d then get_text else dret []) (\<lambda>t.
         dret \<lparr>event_contract = c, event_selector = s, event_data = dat, event_tx = t\<rparr>) d)))"

definition native_event :: "bytes \<Rightarrow> bytes \<Rightarrow> block_event" where
  "native_event kind dat =
     \<lparr>event_contract = NATIVE_EVENT_SOURCE, event_selector = kind, event_data = dat, event_tx = []\<rparr>"

section \<open>Side events\<close>

datatype (plugins only: ) side_event =
    GovPropose u64 bytes u8 bytes u64
  | GovVote u64 bytes bool u8 u64
  | GovTally u64 bytes u128 u128
  | GovEnact u64 bytes bytes
  | Ev_Mint bytes u64
  | Ev_Spend bytes bytes u64
  | Ev_Parameter bytes bytes
  | Ev_Blacklist bytes
  | Ev_Freeze bytes
  | Ev_Unfreeze bytes
  | RecoverySeizure bytes bytes u64 bytes
  | RecoveryCredit bytes u64 bytes
  | GuardianFreeze bytes u64
  | Ev_GuardianRotate u32 u32
  | Ev_CommitteeRotate u32 u32
  | Ev_OperatorRevoke u32
  | Ev_AssetRegister bytes u128 u128 bool
  | Ev_EpochAdvance u64
  | Ev_Activate bytes u64
  | Ev_BridgeMigration bytes
  | Ev_BridgeUnfreeze
  | Ev_Bond bytes u64 u64
  | Unbond bytes u64
  | Slash bytes u64 bytes
  | Reward bytes u64
  | RewardClaim bytes u64
  | ContractTransfer bytes bytes u64
  | BridgeMint bytes bytes u128
  | BridgeBurn bytes bytes u128 bytes u64 bytes
  | BridgeSettle bytes bytes u128 bytes
  | BridgeSlash bytes bytes u128 bytes
  | CallFailed bytes bytes bytes u16 u32

definition known_actions :: "bytes list" where
  "known_actions = map ascii [''activate'', ''mint'', ''bridge_migration'', ''bridge_unfreeze'',
     ''guardian_rotate'', ''committee_rotate'', ''asset_register'', ''bridge_anchor_set'',
     ''epoch_advance'', ''operator_revoke'', ''freeze_recovery'', ''blacklist'', ''freeze'',
     ''parameter'', ''spend'', ''unfreeze'']"

definition known_statuses :: "bytes list" where
  "known_statuses = map ascii [''deciding'', ''approved'', ''rejected'']"

definition known_dispositions :: "bytes list" where
  "known_dispositions = [SLASH_DISPOSITION_BURN, SLASH_DISPOSITION_TREASURY]"

definition intern :: "bytes list \<Rightarrow> bytes \<Rightarrow> bytes option" where
  "intern known t = List.find (\<lambda>k. k = t) known"

definition get_interned :: "bytes list \<Rightarrow> bytes decode" where
  "get_interned known = dbind get_text (\<lambda>t.
     case intern known t of None \<Rightarrow> dfail dropped | Some k \<Rightarrow> dret k)"

definition encode_side_event :: "side_event \<Rightarrow> encoder \<Rightarrow> encoder" where
  "encode_side_event e = (case e of
       GovPropose r p t a dep \<Rightarrow> puts [put_tag 1, put_u64 r, put_text p, put_u8 t, put_text a, put_u64 dep]
     | GovVote r v y c s \<Rightarrow> puts [put_tag 2, put_u64 r, put_text v, put_bool y, put_u8 c, put_u64 s]
     | GovTally r s a n \<Rightarrow> puts [put_tag 3, put_u64 r, put_text s, put_u128 a, put_u128 n]
     | GovEnact r a h \<Rightarrow> puts [put_tag 4, put_u64 r, put_text a, put_bytes h]
     | Ev_Mint t a \<Rightarrow> puts [put_tag 5, put_text t, put_u64 a]
     | Ev_Spend s t a \<Rightarrow> puts [put_tag 6, put_text s, put_text t, put_u64 a]
     | Ev_Parameter k v \<Rightarrow> puts [put_tag 7, put_bytes k, put_bytes v]
     | Ev_Blacklist t \<Rightarrow> puts [put_tag 8, put_text t]
     | Ev_Freeze t \<Rightarrow> puts [put_tag 9, put_text t]
     | Ev_Unfreeze t \<Rightarrow> puts [put_tag 10, put_text t]
     | RecoverySeizure v f a s \<Rightarrow> puts [put_tag 11, put_text v, put_text f, put_u64 a, put_bytes s]
     | RecoveryCredit v a s \<Rightarrow> puts [put_tag 12, put_text v, put_u64 a, put_bytes s]
     | GuardianFreeze t b \<Rightarrow> puts [put_tag 13, put_text t, put_u64 b]
     | Ev_GuardianRotate s t \<Rightarrow> puts [put_tag 14, put_u32 s, put_u32 t]
     | Ev_CommitteeRotate os t \<Rightarrow> puts [put_tag 15, put_u32 os, put_u32 t]
     | Ev_OperatorRevoke i \<Rightarrow> puts [put_tag 16, put_u32 i]
     | Ev_AssetRegister i c ec st \<Rightarrow>
         puts [put_tag 17, put_bytes i, put_u128 c, put_u128 ec, put_bool st]
     | Ev_EpochAdvance ep \<Rightarrow> puts [put_tag 18, put_u64 ep]
     | Ev_Activate f v \<Rightarrow> puts [put_tag 19, put_bytes f, put_u64 v]
     | Ev_BridgeMigration v \<Rightarrow> puts [put_tag 20, put_text v]
     | Ev_BridgeUnfreeze \<Rightarrow> puts [put_tag 21]
     | Ev_Bond v a f \<Rightarrow> puts [put_tag 22, put_text v, put_u64 a, put_u64 f]
     | Unbond v a \<Rightarrow> puts [put_tag 23, put_text v, put_u64 a]
     | Slash v a dis \<Rightarrow> puts [put_tag 24, put_text v, put_u64 a, put_text dis]
     | Reward v a \<Rightarrow> puts [put_tag 25, put_text v, put_u64 a]
     | RewardClaim v a \<Rightarrow> puts [put_tag 26, put_text v, put_u64 a]
     | ContractTransfer c t a \<Rightarrow> puts [put_tag 27, put_text c, put_text t, put_u64 a]
     | BridgeMint i r a \<Rightarrow> puts [put_tag 28, put_bytes i, put_bytes r, put_u128 a]
     | BridgeBurn i h a dst ch b \<Rightarrow>
         puts [put_tag 29, put_bytes i, put_bytes h, put_u128 a, put_bytes dst, put_u64 ch, put_bytes b]
     | BridgeSettle i ben a b \<Rightarrow> puts [put_tag 30, put_bytes i, put_bytes ben, put_u128 a, put_bytes b]
     | BridgeSlash i ben a b \<Rightarrow> puts [put_tag 31, put_bytes i, put_bytes ben, put_u128 a, put_bytes b]
     | CallFailed tx c s r l \<Rightarrow>
         puts [put_tag 32, put_text tx, put_text c, put_bytes s, put_u32 (ucast r), put_u32 l])"

definition get_rule :: "u16 decode" where
  "get_rule = dbind get_u32 (\<lambda>r. if unat r < 2 ^ 16 then dret (ucast r) else dfail dropped)"

definition decode_side_event_body :: "u8 \<Rightarrow> side_event decode" where
  "decode_side_event_body tag =
     (if tag = 1 then dbind get_u64 (\<lambda>r. dbind get_text (\<lambda>p. dbind get_u8 (\<lambda>t.
        dbind (get_interned known_actions) (\<lambda>a. dbind get_u64 (\<lambda>dep. dret (GovPropose r p t a dep))))))
      else if tag = 2 then dbind get_u64 (\<lambda>r. dbind get_text (\<lambda>v. dbind get_flag (\<lambda>y.
        dbind get_u8 (\<lambda>c. dbind get_u64 (\<lambda>s. dret (GovVote r v y c s))))))
      else if tag = 3 then dbind get_u64 (\<lambda>r. dbind (get_interned known_statuses) (\<lambda>s.
        dbind get_u128 (\<lambda>a. dbind get_u128 (\<lambda>n. dret (GovTally r s a n)))))
      else if tag = 4 then dbind get_u64 (\<lambda>r. dbind (get_interned known_actions) (\<lambda>a.
        dbind get_word32 (\<lambda>h. dret (GovEnact r a h))))
      else if tag = 5 then dbind get_text (\<lambda>t. dbind get_u64 (\<lambda>a. dret (Ev_Mint t a)))
      else if tag = 6 then dbind get_text (\<lambda>s. dbind get_text (\<lambda>t. dbind get_u64 (\<lambda>a. dret (Ev_Spend s t a))))
      else if tag = 7 then dbind get_bytes (\<lambda>k. dbind get_bytes (\<lambda>v. dret (Ev_Parameter k v)))
      else if tag = 8 then dbind get_text (\<lambda>t. dret (Ev_Blacklist t))
      else if tag = 9 then dbind get_text (\<lambda>t. dret (Ev_Freeze t))
      else if tag = 10 then dbind get_text (\<lambda>t. dret (Ev_Unfreeze t))
      else if tag = 11 then dbind get_text (\<lambda>v. dbind get_text (\<lambda>f. dbind get_u64 (\<lambda>a.
        dbind get_word32 (\<lambda>s. dret (RecoverySeizure v f a s)))))
      else if tag = 12 then dbind get_text (\<lambda>v. dbind get_u64 (\<lambda>a. dbind get_word32 (\<lambda>s.
        dret (RecoveryCredit v a s))))
      else if tag = 13 then dbind get_text (\<lambda>t. dbind get_u64 (\<lambda>b. dret (GuardianFreeze t b)))
      else if tag = 14 then dbind get_u32 (\<lambda>s. dbind get_u32 (\<lambda>t. dret (Ev_GuardianRotate s t)))
      else if tag = 15 then dbind get_u32 (\<lambda>os. dbind get_u32 (\<lambda>t. dret (Ev_CommitteeRotate os t)))
      else if tag = 16 then dbind get_u32 (\<lambda>i. dret (Ev_OperatorRevoke i))
      else if tag = 17 then dbind get_word16 (\<lambda>i. dbind get_u128 (\<lambda>c. dbind get_u128 (\<lambda>ec.
        dbind get_flag (\<lambda>st. dret (Ev_AssetRegister i c ec st)))))
      else if tag = 18 then dbind get_u64 (\<lambda>ep. dret (Ev_EpochAdvance ep))
      else if tag = 19 then dbind get_bytes (\<lambda>f. dbind get_u64 (\<lambda>v. dret (Ev_Activate f v)))
      else if tag = 20 then dbind get_text (\<lambda>v. dret (Ev_BridgeMigration v))
      else if tag = 21 then dret Ev_BridgeUnfreeze
      else if tag = 22 then dbind get_text (\<lambda>v. dbind get_u64 (\<lambda>a. dbind get_u64 (\<lambda>f. dret (Ev_Bond v a f))))
      else if tag = 23 then dbind get_text (\<lambda>v. dbind get_u64 (\<lambda>a. dret (Unbond v a)))
      else if tag = 24 then dbind get_text (\<lambda>v. dbind get_u64 (\<lambda>a.
        dbind (get_interned known_dispositions) (\<lambda>dis. dret (Slash v a dis))))
      else if tag = 25 then dbind get_text (\<lambda>v. dbind get_u64 (\<lambda>a. dret (Reward v a)))
      else if tag = 26 then dbind get_text (\<lambda>v. dbind get_u64 (\<lambda>a. dret (RewardClaim v a)))
      else if tag = 27 then dbind get_text (\<lambda>c. dbind get_text (\<lambda>t. dbind get_u64 (\<lambda>a.
        dret (ContractTransfer c t a))))
      else if tag = 28 then dbind get_word16 (\<lambda>i. dbind get_word32 (\<lambda>r. dbind get_u128 (\<lambda>a.
        dret (BridgeMint i r a))))
      else if tag = 29 then dbind get_word16 (\<lambda>i. dbind get_word32 (\<lambda>h. dbind get_u128 (\<lambda>a.
        dbind get_word32 (\<lambda>dst. dbind get_u64 (\<lambda>ch. dbind get_word32 (\<lambda>b. dret (BridgeBurn i h a dst ch b)))))))
      else if tag = 30 then dbind get_word16 (\<lambda>i. dbind get_word32 (\<lambda>ben. dbind get_u128 (\<lambda>a.
        dbind get_word32 (\<lambda>b. dret (BridgeSettle i ben a b)))))
      else if tag = 31 then dbind get_word16 (\<lambda>i. dbind get_word32 (\<lambda>ben. dbind get_u128 (\<lambda>a.
        dbind get_word32 (\<lambda>b. dret (BridgeSlash i ben a b)))))
      else if tag = 32 then dbind get_text (\<lambda>tx. dbind get_text (\<lambda>c. dbind (get_array 4 dropped) (\<lambda>s.
        dbind get_rule (\<lambda>r. dbind get_u32 (\<lambda>l. dret (CallFailed tx c s r l))))))
      else dfail dropped)"

definition decode_side_event :: "bytes \<Rightarrow> side_event option" where
  "decode_side_event bs = (case from_bytes (dbind get_tag decode_side_event_body) bs of Inl _ \<Rightarrow> None | Inr e \<Rightarrow> Some e)"

text \<open>The values the Rust types admit: strings are UTF-8, names are interned, arrays are sized.\<close>

definition valid_side_event :: "side_event \<Rightarrow> bool" where
  "valid_side_event e = (case e of
       GovPropose r p t a dep \<Rightarrow> utf8_valid p \<and> a \<in> set known_actions
     | GovVote r v y c s \<Rightarrow> utf8_valid v
     | GovTally r s a n \<Rightarrow> s \<in> set known_statuses
     | GovEnact r a h \<Rightarrow> a \<in> set known_actions \<and> length h = 32
     | Ev_Mint t a \<Rightarrow> utf8_valid t
     | Ev_Spend s t a \<Rightarrow> utf8_valid s \<and> utf8_valid t
     | Ev_Blacklist t \<Rightarrow> utf8_valid t
     | Ev_Freeze t \<Rightarrow> utf8_valid t
     | Ev_Unfreeze t \<Rightarrow> utf8_valid t
     | RecoverySeizure v f a s \<Rightarrow> utf8_valid v \<and> utf8_valid f \<and> length s = 32
     | RecoveryCredit v a s \<Rightarrow> utf8_valid v \<and> length s = 32
     | GuardianFreeze t b \<Rightarrow> utf8_valid t
     | Ev_AssetRegister i c ec st \<Rightarrow> length i = 16
     | Ev_BridgeMigration v \<Rightarrow> utf8_valid v
     | Ev_Bond v a f \<Rightarrow> utf8_valid v
     | Unbond v a \<Rightarrow> utf8_valid v
     | Slash v a dis \<Rightarrow> utf8_valid v \<and> dis \<in> set known_dispositions
     | Reward v a \<Rightarrow> utf8_valid v
     | RewardClaim v a \<Rightarrow> utf8_valid v
     | ContractTransfer c t a \<Rightarrow> utf8_valid c \<and> utf8_valid t
     | BridgeMint i r a \<Rightarrow> length i = 16 \<and> length r = 32
     | BridgeBurn i h a dst ch b \<Rightarrow> length i = 16 \<and> length h = 32 \<and> length dst = 32 \<and> length b = 32
     | BridgeSettle i ben a b \<Rightarrow> length i = 16 \<and> length ben = 32 \<and> length b = 32
     | BridgeSlash i ben a b \<Rightarrow> length i = 16 \<and> length ben = 32 \<and> length b = 32
     | CallFailed tx c s r l \<Rightarrow> utf8_valid tx \<and> utf8_valid c \<and> length s = 4
     | _ \<Rightarrow> True)"

section \<open>Round trip\<close>

interpretation tagc: canonical_codec put_tag get_tag "\<lambda>_. True"
  by unfold_locales (simp_all add: put_append get_tag_Inr)

lemmas [wire] = tagc.puts_encode tagc.decode_iff [symmetric, simplified]

lemma get_text_read: "get_bytes d = Inr (t, d') \<Longrightarrow> utf8_valid t \<Longrightarrow> get_text d = Inr (t, d')"
  by (simp add: get_text_def dbind_read dret_def)

lemma intern_known: "t \<in> set known \<Longrightarrow> intern known t = Some t"
  by (induction known) (auto simp: intern_def)

lemma known_utf8:
  "t \<in> set known_actions \<Longrightarrow> utf8_valid t"
  "t \<in> set known_statuses \<Longrightarrow> utf8_valid t"
  "t \<in> set known_dispositions \<Longrightarrow> utf8_valid t"
  by (auto simp: known_actions_def known_statuses_def known_dispositions_def SLASH_DISPOSITION_BURN_def
      SLASH_DISPOSITION_TREASURY_def ascii_def word_le_nat_alt)

lemma get_interned_read:
  "get_bytes d = Inr (t, d') \<Longrightarrow> t \<in> set known \<Longrightarrow> utf8_valid t \<Longrightarrow> get_interned known d = Inr (t, d')"
  by (simp add: get_interned_def dbind_read [OF get_text_read] intern_known dret_def)

lemma get_rule_read: "get_u32 d = Inr (ucast (r :: u16), d') \<Longrightarrow> get_rule d = Inr (r, d')"
proof -
  have "unat (ucast r :: u32) = unat r"
    by (simp add: unsigned_ucast_eq take_bit_nat_eq_self unsigned_less [THEN less_le_trans])
  moreover have "unat r < 2 ^ 16"
    using unat_lt_power [of r] by simp
  moreover have "ucast (ucast r :: u32) = r"
    by (simp add: bit_eq_iff bit_simps)
  ultimately show "get_u32 d = Inr (ucast r, d') \<Longrightarrow> get_rule d = Inr (r, d')"
    by (simp add: get_rule_def dbind_read dret_def)
qed

lemmas text_reads = dbind_read get_text_read get_interned_read get_rule_read get_array_read
  get_flag_written known_utf8

lemma side_event_append: "encode_side_event e buf = buf @ encode_side_event e []"
  by (cases e) (simp_all add: encode_side_event_def put_text_def wire)

lemma side_event_decoded:
  assumes "valid_side_event e" and "consumes d (encode_side_event e []) d'"
  shows "dbind get_tag decode_side_event_body d = Inr (e, d')"
  using assms
  by (cases e; clarsimp simp: encode_side_event_def put_text_def valid_side_event_def wire;
      simp add: decode_side_event_body_def text_reads dret_def get_word32_def get_word16_def)

interpretation sidec: wire_codec encode_side_event "dbind get_tag decode_side_event_body" valid_side_event
  using side_event_append side_event_decoded by unfold_locales

lemma block_event_read:
  assumes "utf8_valid (event_contract e)" "length (event_selector e) = 4" "utf8_valid (event_tx e)"
    and "consumes d (encode_block_event e []) d'"
  shows "decode_block_event d = Inr (e, d')"
proof -
  from assms(4) obtain d1 d2 d3 where r: "get_bytes d = Inr (event_contract e, d1)"
    "get_bytes d1 = Inr (event_selector e, d2)" "get_bytes d2 = Inr (event_data e, d3)"
    "get_bytes d3 = Inr (event_tx e, d')"
    by (auto simp: encode_block_event_def wire)
  then have "0 < remaining d3"
    by (auto simp: get_bytes_Inr dest: consumes_remaining)
  with r assms(1-3) show ?thesis
    by (simp add: decode_block_event_def text_reads dret_def)
qed

interpretation blockc: wire_codec encode_block_event decode_block_event
  "\<lambda>e. utf8_valid (event_contract e) \<and> length (event_selector e) = 4 \<and> utf8_valid (event_tx e)"
  by unfold_locales (auto simp: block_event_read encode_block_event_def wire)

section \<open>Claims\<close>

text \<open>
  C19: every side event is read back from its encoding: each of the thirty-two kinds keeps its tag, its
  texts, its interned names and its fixed-size words.
\<close>

theorem side_event_roundtrip:
  assumes "valid_side_event e" and "length (to_bytes encode_side_event e) < 2 ^ 64"
  shows "decode_side_event (to_bytes encode_side_event e) = Some e"
  using sidec.from_to_bytes [OF assms] by (simp add: decode_side_event_def)

theorem side_event_roundtrip_witness:
  "decode_side_event (to_bytes encode_side_event (Slash (ascii ''v'') 5 SLASH_DISPOSITION_BURN)) =
     Some (Slash (ascii ''v'') 5 SLASH_DISPOSITION_BURN)"
  by (rule side_event_roundtrip)
    (simp_all add: valid_side_event_def known_dispositions_def ascii_def word_le_nat_alt to_bytes_def
      encode_side_event_def puts.simps put_append put_text_def SLASH_DISPOSITION_BURN_def)

end
