(* ===== verification/Bridge.thy ===== *)
theory Bridge
  imports Codec
begin

text \<open>
  Bridge artifacts, \<^verbatim>\<open>src/crates/qtv-node/src/bridge.rs\<close>: facts, attestations, mint artifacts
  and exit acknowledgements with their fixed layouts, the operator set, and the two quorum checks.
  A \<^verbatim>\<open>Reader\<close> fails with \<^verbatim>\<open>None\<close>; it is modelled over the decoder type, every failure being
  the one error \<open>unread\<close>, and \<open>read_all\<close> turns the result into an option.  Signature verification
  and the extendable-output hash are external code, the parameters \<open>verify\<close> and \<open>shake\<close>.
\<close>

section \<open>The reader\<close>

definition unread :: codec_error where
  "unread = UnknownTag 0"

definition reader_take :: "nat \<Rightarrow> bytes decode" where
  "reader_take n r =
     (let finish = dpos r + n in
      if 2 ^ 64 \<le> finish then Inl unread
      else if length (dinput r) < finish then Inl unread
      else Inr (take n (drop (dpos r) (dinput r)), r\<lparr>dpos := finish\<rparr>))"

definition reader_u8 :: "u8 decode" where
  "reader_u8 = dbind (reader_take 1) (\<lambda>bs. dret (hd bs))"

definition reader_u16 :: "u16 decode" where
  "reader_u16 = dbind (reader_take 2) (\<lambda>bs. dret (word_of_nat (nat_of_le bs)))"

definition reader_u32 :: "u32 decode" where
  "reader_u32 = dbind (reader_take 4) (\<lambda>bs. dret (word_of_nat (nat_of_le bs)))"

definition reader_u64 :: "u64 decode" where
  "reader_u64 = dbind (reader_take 8) (\<lambda>bs. dret (word_of_nat (nat_of_le bs)))"

definition reader_u128 :: "u128 decode" where
  "reader_u128 = dbind (reader_take 16) (\<lambda>bs. dret (word_of_nat (nat_of_le bs)))"

definition reader_array :: "nat \<Rightarrow> bytes decode" where
  "reader_array n = reader_take n"

definition reader_done :: "decoder \<Rightarrow> bool" where
  "reader_done r \<longleftrightarrow> dpos r = length (dinput r)"

definition read_all :: "'a decode \<Rightarrow> bytes \<Rightarrow> 'a option" where
  "read_all p bs =
     (case p (new_decoder bs) of
        Inl _ \<Rightarrow> None
      | Inr (x, r) \<Rightarrow> if reader_done r then Some x else None)"

definition put_raw :: "bytes \<Rightarrow> encoder \<Rightarrow> encoder" where
  "put_raw bs buf = buf @ bs"

lemma reader_take_Inr: "reader_take n r = Inr x \<longleftrightarrow> take_bytes n r = Inr x"
  by (simp add: reader_take_def take_bytes_def Let_def)

lemma reader_bind_Inr:
  "dbind (reader_take n) (\<lambda>bs. dret (f bs)) r = Inr (x, r') \<longleftrightarrow>
     dbind (take_bytes n) (\<lambda>bs. dret (f bs)) r = Inr (x, r')"
  by (simp add: dbind_Inr reader_take_Inr)

lemma reader_Inr [wire]:
  "reader_u8 r = Inr (a, r') \<longleftrightarrow> get_u8 r = Inr (a, r')"
  "reader_u16 r = Inr (b, r') \<longleftrightarrow> get_u16 r = Inr (b, r')"
  "reader_u32 r = Inr (c, r') \<longleftrightarrow> get_u32 r = Inr (c, r')"
  "reader_u64 r = Inr (d, r') \<longleftrightarrow> get_u64 r = Inr (d, r')"
  "reader_u128 r = Inr (e, r') \<longleftrightarrow> get_u128 r = Inr (e, r')"
  by (simp_all only: reader_bind_Inr reader_u8_def reader_u16_def reader_u32_def reader_u64_def
      reader_u128_def get_u8_def get_u16_def get_u32_def get_u64_def get_u128_def)

lemma reader_array_Inr [wire]:
  "reader_array n r = Inr (bs, r') \<longleftrightarrow> length bs = n \<and> take_bytes n r = Inr (bs, r')"
  "reader_take n r = Inr (bs, r') \<longleftrightarrow> length bs = n \<and> take_bytes n r = Inr (bs, r')"
  by (auto simp: reader_array_def reader_take_Inr take_bytes_Inr)

lemma consumes_raw [wire]:
  "consumes d (put_raw b []) d' \<longleftrightarrow> take_bytes (length b) d = Inr (b, d')"
  by (simp add: put_raw_def take_bytes_Inr)

lemma puts_raw [wire]: "puts (put_raw b # ps) buf = puts ps (buf @ put_raw b [])"
  by (simp add: puts.simps put_raw_def)

lemma case_dfail_Inr [wire]:
  "(case x of None \<Rightarrow> dfail e | Some y \<Rightarrow> f y) d = Inr r \<longleftrightarrow> (\<exists>y. x = Some y \<and> f y d = Inr r)"
  by (auto simp: dfail_def split: option.splits)

context canonical_codec
begin

lemma read_all_iff:
  "read_all decode bs = Some x \<longleftrightarrow> valid x \<and> encode x [] = bs \<and> length bs < 2 ^ 64"
proof -
  have "read_all decode bs = Some x \<longleftrightarrow> from_bytes decode bs = Inr x"
    by (auto simp: read_all_def from_bytes_def finish_def reader_done_def split: sum.splits prod.splits)
  then show ?thesis
    by (simp add: from_bytes_iff to_bytes_def)
qed

end

text \<open>Counted sequences and blobs of the bridge layouts, with 32- and 16-bit length words.\<close>

definition put_seq32 :: "('a \<Rightarrow> encoder \<Rightarrow> encoder) \<Rightarrow> 'a list \<Rightarrow> encoder \<Rightarrow> encoder" where
  "put_seq32 enc xs = puts [put_u32 (word_of_nat (length xs)), encode_each enc xs]"

definition get_seq32 :: "'a decode \<Rightarrow> 'a list decode" where
  "get_seq32 dec = dbind reader_u32 (\<lambda>count. decode_n dec (unat count))"

definition put_blob16 :: "bytes \<Rightarrow> encoder \<Rightarrow> encoder" where
  "put_blob16 bs = puts [put_u16 (word_of_nat (length bs)), put_raw bs]"

definition get_blob16 :: "bytes decode" where
  "get_blob16 = dbind reader_u16 (\<lambda>len. reader_take (unat len))"

definition put_blob32 :: "bytes \<Rightarrow> encoder \<Rightarrow> encoder" where
  "put_blob32 bs = puts [put_u32 (word_of_nat (length bs)), put_raw bs]"

definition get_blob32 :: "bytes decode" where
  "get_blob32 = dbind reader_u32 (\<lambda>len. reader_take (unat len))"

lemma word_count_iff:
  "n = unat (w :: 'a::len word) \<longleftrightarrow> w = word_of_nat n \<and> n < 2 ^ LENGTH('a)"
  using unsigned_less [of w] by (auto simp: unat_of_nat)

lemma get_blob_Inr:
  "get_blob16 d = Inr (bs, d') \<longleftrightarrow> length bs < 2 ^ 16 \<and> consumes d (put_blob16 bs []) d'"
  "get_blob32 d = Inr (bs, d') \<longleftrightarrow> length bs < 2 ^ 32 \<and> consumes d (put_blob32 bs []) d'"
  by (auto simp: put_blob16_def get_blob16_def put_blob32_def get_blob32_def wire word_count_iff
      unat_of_nat)

interpretation blob16c: canonical_codec put_blob16 get_blob16 "\<lambda>bs. length bs < 2 ^ 16"
  by unfold_locales (auto simp: get_blob_Inr put_blob16_def puts.simps put_append put_raw_def)

interpretation blob32c: canonical_codec put_blob32 get_blob32 "\<lambda>bs. length bs < 2 ^ 32"
  by unfold_locales (auto simp: get_blob_Inr put_blob32_def puts.simps put_append put_raw_def)

lemmas [wire] = blob16c.puts_encode blob32c.puts_encode

context canonical_codec
begin

lemma put_seq32_bytes:
  "put_seq32 encode xs buf = buf @ put_u32 (word_of_nat (length xs)) [] @ encode_each encode xs []"
  using encode_each_append [of xs "put_u32 (word_of_nat (length xs)) buf"]
  by (simp add: put_seq32_def puts.simps put_append)

lemma seq32_canonical:
  "canonical_codec (put_seq32 encode) (get_seq32 decode)
     (\<lambda>xs. list_all valid xs \<and> length xs < 2 ^ 32)"
proof -
  have iff: "get_seq32 decode d = Inr (xs, d') \<longleftrightarrow>
      (list_all valid xs \<and> length xs < 2 ^ 32) \<and> consumes d (put_seq32 encode xs []) d'" for d xs d'
  proof -
    have step: "get_u32 d = Inr (count, d1) \<Longrightarrow> decode_n decode (unat count) d1 = Inr (xs, d') \<longleftrightarrow>
        length xs = unat count \<and> list_all valid xs \<and> consumes d1 (encode_each encode xs []) d'"
      for count d1
      using consumes_within by (intro decode_n_iff) (auto simp: get_u32_Inr)
    show ?thesis
      by (auto simp: get_seq32_def put_seq32_bytes wire step word_count_iff cong: conj_cong)
  qed
  show ?thesis
    by unfold_locales (simp_all only: iff put_seq32_bytes append_Nil)
qed

end

section \<open>Deposit facts\<close>

definition ATTEST_DOMAIN :: bytes where "ATTEST_DOMAIN = ascii ''QUANTOVA/Q-ORACLE/ATTEST/v1''"
definition STATEMENT_DOMAIN :: bytes where "STATEMENT_DOMAIN = ascii ''QUANTOVA/Q-ORACLE/BRIDGE-PROVER/v1''"
definition FACT_VERSION :: u8 where "FACT_VERSION = 1"
definition FACT_ENCODED_LEN :: nat where "FACT_ENCODED_LEN = 138"
definition ARTIFACT_ATTESTATION :: u8 where "ARTIFACT_ATTESTATION = 1"
definition ARTIFACT_STARK :: u8 where "ARTIFACT_STARK = 2"
definition ENVELOPE_VERSION :: u8 where "ENVELOPE_VERSION = 1"

datatype direction = Deposit | ExitAck

fun direction_tag :: "direction \<Rightarrow> u8" where
  "direction_tag Deposit = 0"
| "direction_tag ExitAck = 1"

definition direction_from_tag :: "u8 \<Rightarrow> direction option" where
  "direction_from_tag t = (if t = 0 then Some Deposit else if t = 1 then Some ExitAck else None)"

record fact =
  fact_version :: u8
  source_chain :: u32
  fact_dest_chain :: u32
  route_id :: u32
  fact_direction :: direction
  fact_nonce :: u64
  source_ref :: bytes
  fact_asset_id :: bytes
  fact_amount :: u128
  fact_recipient :: bytes
  finality_depth :: u32
  observed_height :: u64
  expiry_height :: u64

definition fact_encode :: "fact \<Rightarrow> bytes" where
  "fact_encode f = puts
    [put_u8 (fact_version f), put_u32 (source_chain f), put_u32 (fact_dest_chain f),
     put_u32 (route_id f), put_u8 (direction_tag (fact_direction f)), put_u64 (fact_nonce f),
     put_raw (source_ref f), put_raw (fact_asset_id f), put_u128 (fact_amount f),
     put_raw (fact_recipient f), put_u32 (finality_depth f), put_u64 (observed_height f),
     put_u64 (expiry_height f)] []"

definition fact_read :: "fact decode" where
  "fact_read =
     dbind reader_u8 (\<lambda>version. dbind reader_u32 (\<lambda>source_chain. dbind reader_u32 (\<lambda>dest_chain.
     dbind reader_u32 (\<lambda>route_id. dbind reader_u8 (\<lambda>tag.
     case direction_from_tag tag of None \<Rightarrow> dfail unread | Some direction \<Rightarrow>
     dbind reader_u64 (\<lambda>nonce. dbind (reader_array 32) (\<lambda>source_ref.
     dbind (reader_array 16) (\<lambda>asset_id. dbind reader_u128 (\<lambda>amount.
     dbind (reader_array 32) (\<lambda>recipient. dbind reader_u32 (\<lambda>finality_depth.
     dbind reader_u64 (\<lambda>observed_height. dbind reader_u64 (\<lambda>expiry_height.
     dret \<lparr>fact_version = version, source_chain = source_chain, fact_dest_chain = dest_chain,
           route_id = route_id, fact_direction = direction, fact_nonce = nonce,
           source_ref = source_ref, fact_asset_id = asset_id, fact_amount = amount,
           fact_recipient = recipient, finality_depth = finality_depth,
           observed_height = observed_height, expiry_height = expiry_height\<rparr>)))))))))))))"

definition fact_decode :: "bytes \<Rightarrow> fact option" where
  "fact_decode = read_all fact_read"

definition attest_preimage :: "fact \<Rightarrow> u64 \<Rightarrow> bytes" where
  "attest_preimage f chain_id = puts [put_raw ATTEST_DOMAIN, put_raw (fact_encode f), put_u64 chain_id] []"

definition statement_digest :: "(bytes \<Rightarrow> bytes) \<Rightarrow> fact \<Rightarrow> u32 \<Rightarrow> bytes" where
  "statement_digest shake f operator =
     shake (puts [put_raw STATEMENT_DOMAIN, put_u32 operator, put_raw (fact_encode f)] [])"

definition fact_well_formed :: "fact \<Rightarrow> bool" where
  "fact_well_formed f \<longleftrightarrow>
     fact_version f = FACT_VERSION \<and> source_chain f \<noteq> 0 \<and> fact_dest_chain f \<noteq> 0 \<and>
     fact_amount f \<noteq> 0 \<and> fact_asset_id f \<noteq> replicate 16 0 \<and>
     fact_recipient f \<noteq> replicate 32 0 \<and> source_ref f \<noteq> replicate 32 0"

text \<open>The array sizes of the \<^verbatim>\<open>Fact\<close> type.\<close>

definition fact_ok :: "fact \<Rightarrow> bool" where
  "fact_ok f \<longleftrightarrow> length (source_ref f) = 32 \<and> length (fact_asset_id f) = 16 \<and> length (fact_recipient f) = 32"

lemma direction_from_tag_Some [wire]: "direction_from_tag t = Some v \<longleftrightarrow> t = direction_tag v"
  by (cases v) (auto simp: direction_from_tag_def)

lemma fact_read_Inr: "fact_read d = Inr (f, d') \<longleftrightarrow> fact_ok f \<and> consumes d (fact_encode f) d'"
  by (cases f) (auto simp: fact_read_def fact_encode_def fact_ok_def wire)

interpretation factc: canonical_codec "\<lambda>f. put_raw (fact_encode f)" fact_read fact_ok
  by unfold_locales (simp_all add: fact_read_Inr put_raw_def)

lemma fact_encode_length: "fact_ok f \<Longrightarrow> length (fact_encode f) = FACT_ENCODED_LEN"
  by (simp add: fact_ok_def fact_encode_def puts.simps put_append put_raw_def FACT_ENCODED_LEN_def)

lemma fact_encode_inject: "fact_ok f \<Longrightarrow> fact_ok g \<Longrightarrow> fact_encode f = fact_encode g \<longleftrightarrow> f = g"
  using factc.encoding_prefix_free [of f g "[]" "[]"]
  by (auto simp: to_bytes_def put_raw_def fact_encode_length FACT_ENCODED_LEN_def)

section \<open>Attestations and mint artifacts\<close>

record signer_sig =
  operator_of :: u32
  signature_of :: bytes

record attestation =
  att_fact :: fact
  att_signatures :: "signer_sig list"

record stark_envelope =
  env_digest :: bytes
  env_proof :: bytes

record mint_artifact =
  art_attestation :: attestation
  art_stark :: "stark_envelope option"

definition put_signer :: "signer_sig \<Rightarrow> encoder \<Rightarrow> encoder" where
  "put_signer s = puts [put_u32 (operator_of s), put_blob16 (signature_of s)]"

definition read_signer :: "signer_sig decode" where
  "read_signer = dbind reader_u32 (\<lambda>operator_id. dbind get_blob16 (\<lambda>signature.
     dret \<lparr>operator_of = operator_id, signature_of = signature\<rparr>))"

definition attestation_encode :: "attestation \<Rightarrow> bytes" where
  "attestation_encode a = puts
    [put_u8 ARTIFACT_ATTESTATION, put_u8 ENVELOPE_VERSION, put_raw (fact_encode (att_fact a)),
     put_seq32 put_signer (att_signatures a)] []"

definition attestation_read :: "attestation decode" where
  "attestation_read =
     dbind reader_u8 (\<lambda>kind. if kind \<noteq> ARTIFACT_ATTESTATION then dfail unread else
     dbind reader_u8 (\<lambda>version. if version \<noteq> ENVELOPE_VERSION then dfail unread else
     dbind fact_read (\<lambda>fact. dbind (get_seq32 read_signer) (\<lambda>signatures.
     dret \<lparr>att_fact = fact, att_signatures = signatures\<rparr>))))"

definition stark_encode :: "stark_envelope \<Rightarrow> bytes" where
  "stark_encode e = puts [put_u8 ARTIFACT_STARK, put_raw (env_digest e), put_blob32 (env_proof e)] []"

definition stark_read :: "stark_envelope decode" where
  "stark_read =
     dbind reader_u8 (\<lambda>kind. if kind \<noteq> ARTIFACT_STARK then dfail unread else
     dbind (reader_array 32) (\<lambda>statement_digest. dbind get_blob32 (\<lambda>proof.
     dret \<lparr>env_digest = statement_digest, env_proof = proof\<rparr>)))"

definition artifact_encode :: "mint_artifact \<Rightarrow> bytes" where
  "artifact_encode m = puts
    [put_blob32 (attestation_encode (art_attestation m)),
     put_blob32 (case art_stark m of None \<Rightarrow> [] | Some e \<Rightarrow> stark_encode e)] []"

definition artifact_read :: "mint_artifact decode" where
  "artifact_read =
     dbind get_blob32 (\<lambda>attestation_bytes.
     case read_all attestation_read attestation_bytes of None \<Rightarrow> dfail unread | Some attestation \<Rightarrow>
     dbind reader_u32 (\<lambda>stark_len.
     if unat stark_len = 0 then dret \<lparr>art_attestation = attestation, art_stark = None\<rparr>
     else dbind (reader_take (unat stark_len)) (\<lambda>stark_bytes.
       case read_all stark_read stark_bytes of None \<Rightarrow> dfail unread | Some envelope \<Rightarrow>
       dret \<lparr>art_attestation = attestation, art_stark = Some envelope\<rparr>)))"

definition artifact_decode :: "bytes \<Rightarrow> mint_artifact option" where
  "artifact_decode = read_all artifact_read"

definition signer_ok :: "signer_sig \<Rightarrow> bool" where
  "signer_ok s \<longleftrightarrow> length (signature_of s) < 2 ^ 16"

definition attestation_ok :: "attestation \<Rightarrow> bool" where
  "attestation_ok a \<longleftrightarrow> fact_ok (att_fact a) \<and> list_all signer_ok (att_signatures a) \<and>
     length (att_signatures a) < 2 ^ 32"

definition stark_ok :: "stark_envelope \<Rightarrow> bool" where
  "stark_ok e \<longleftrightarrow> length (env_digest e) = 32 \<and> length (env_proof e) < 2 ^ 32"

definition artifact_ok :: "mint_artifact \<Rightarrow> bool" where
  "artifact_ok m \<longleftrightarrow> attestation_ok (art_attestation m) \<and> pred_option stark_ok (art_stark m) \<and>
     length (attestation_encode (art_attestation m)) < 2 ^ 32 \<and>
     (\<forall>e. art_stark m = Some e \<longrightarrow> length (stark_encode e) < 2 ^ 32)"

lemma if_dfail_Inr [wire]:
  "(if c then dfail e else p) d = Inr r \<longleftrightarrow> \<not> c \<and> p d = Inr r"
  by (simp add: dfail_def)

lemma read_signer_Inr:
  "read_signer d = Inr (s, d') \<longleftrightarrow> signer_ok s \<and> consumes d (put_signer s []) d'"
  by (cases s) (auto simp: put_signer_def read_signer_def signer_ok_def wire blob16c.decode_iff)

interpretation signerc: canonical_codec put_signer read_signer signer_ok
  by unfold_locales (simp_all add: read_signer_Inr, simp add: put_signer_def wire)

interpretation signersc: canonical_codec "put_seq32 put_signer" "get_seq32 read_signer"
    "\<lambda>xs. list_all signer_ok xs \<and> length xs < 2 ^ 32"
  by (rule signerc.seq32_canonical)

lemmas [wire] = signersc.puts_encode

lemma attestation_read_Inr:
  "attestation_read d = Inr (a, d') \<longleftrightarrow> attestation_ok a \<and> consumes d (attestation_encode a) d'"
proof -
  have fact: "consumes d (put_raw (fact_encode f) []) d' = consumes d (fact_encode f) d'" for f d d'
    by (simp add: put_raw_def)
  show ?thesis
    by (cases a)
      (auto simp: attestation_read_def attestation_encode_def attestation_ok_def wire
        fact_read_Inr signersc.decode_iff fact simp del: consumes_raw)
qed

interpretation attestationc:
    canonical_codec "\<lambda>a. put_raw (attestation_encode a)" attestation_read attestation_ok
  by unfold_locales (simp_all add: attestation_read_Inr put_raw_def)

lemma stark_read_Inr:
  "stark_read d = Inr (e, d') \<longleftrightarrow> stark_ok e \<and> consumes d (stark_encode e) d'"
  by (cases e) (auto simp: stark_read_def stark_encode_def stark_ok_def wire blob32c.decode_iff)

interpretation starkc: canonical_codec "\<lambda>a. put_raw (stark_encode a)" stark_read stark_ok
  by unfold_locales (simp_all add: stark_read_Inr put_raw_def)

definition read_stark_frame :: "stark_envelope option decode" where
  "read_stark_frame = dbind get_blob32 (\<lambda>bs.
     if bs = [] then dret None
     else case read_all stark_read bs of None \<Rightarrow> dfail unread | Some e \<Rightarrow> dret (Some e))"

lemma stark_encode_nonempty: "stark_encode e \<noteq> []"
  by (simp add: stark_encode_def puts.simps put_append put_raw_def put_blob32_def)

lemma read_stark_frame_Inr:
  "read_stark_frame d = Inr (st, d') \<longleftrightarrow>
     pred_option stark_ok st \<and> pred_option (\<lambda>e. length (stark_encode e) < 2 ^ 32) st \<and>
     consumes d (put_blob32 (case st of None \<Rightarrow> [] | Some e \<Rightarrow> stark_encode e) []) d'"
proof -
  have frame: "(if bs = [] then dret None else
      case read_all stark_read bs of None \<Rightarrow> dfail unread | Some e \<Rightarrow> dret (Some e)) d1 = Inr (st, d') \<longleftrightarrow>
      bs = (case st of None \<Rightarrow> [] | Some e \<Rightarrow> stark_encode e) \<and> d1 = d' \<and> pred_option stark_ok st \<and>
        length bs < 2 ^ 64" for bs d1
  proof (cases "bs = []")
    case True
    then show ?thesis
      by (cases st) (auto simp: dret_def stark_encode_nonempty stark_encode_nonempty [symmetric])
  next
    case False
    have "(case read_all stark_read bs of None \<Rightarrow> dfail unread | Some e \<Rightarrow> dret (Some e)) d1 = Inr (st, d') \<longleftrightarrow>
      (\<exists>e. read_all stark_read bs = Some e \<and> st = Some e) \<and> d1 = d'"
      by (auto simp: dret_def dfail_def split: option.splits)
    with False show ?thesis
      by (cases st) (auto simp: starkc.read_all_iff put_raw_def)
  qed
  have "read_stark_frame d = Inr (st, d') \<longleftrightarrow> (\<exists>bs. get_blob32 d = Inr (bs, d') \<and>
      bs = (case st of None \<Rightarrow> [] | Some e \<Rightarrow> stark_encode e) \<and> pred_option stark_ok st \<and>
        length bs < 2 ^ 64)"
    by (simp only: read_stark_frame_def dbind_Inr frame) blast
  then show ?thesis
    by (cases st) (auto simp: blob32c.decode_iff)
qed

lemma stark_frame_inline:
  "dbind reader_u32 (\<lambda>len. if unat len = 0 then dret (f None)
     else dbind (reader_take (unat len)) (\<lambda>bs.
       case read_all stark_read bs of None \<Rightarrow> dfail unread | Some e \<Rightarrow> dret (f (Some e)))) d = Inr (x, d') \<longleftrightarrow>
   (\<exists>st. read_stark_frame d = Inr (st, d') \<and> x = f st)"
proof (cases "get_u32 d")
  case (Inl e)
  then show ?thesis by (simp add: read_stark_frame_def get_blob32_def wire)
next
  case (Inr r)
  obtain len d1 where r: "r = (len, d1)" by fastforce
  with Inr have len: "reader_u32 d = Inr (len, d1)"
    by (simp add: wire)
  show ?thesis
  proof (cases "reader_take (unat len) d1")
    case (Inl e)
    moreover have "reader_take 0 d1 = Inr ([], d1)"
      using Inr r consumes_within by (auto simp: get_u32_Inr wire take_bytes_Inr consumes_Nil)
    ultimately show ?thesis
      by (auto simp: len read_stark_frame_def get_blob32_def dbind_def dret_def)
  next
    case (Inr q)
    obtain bs d2 where q: "q = (bs, d2)" by fastforce
    with Inr have l: "length bs = unat len"
      by (simp add: wire)
    have "unat len = 0 \<Longrightarrow> d2 = d1"
      using Inr q by (auto simp: wire take_bytes_Inr consumes_def)
    then show ?thesis
      using Inr q l
      by (cases "read_all stark_read bs")
        (auto simp: len read_stark_frame_def get_blob32_def dbind_def dret_def dfail_def)
  qed
qed

lemma artifact_read_Inr:
  "artifact_read d = Inr (m, d') \<longleftrightarrow> artifact_ok m \<and> consumes d (artifact_encode m) d'"
proof (cases m)
  case (fields a st)
  have "artifact_read d = Inr (m, d') \<longleftrightarrow>
     (\<exists>bs d1. get_blob32 d = Inr (bs, d1) \<and> read_all attestation_read bs = Some a \<and>
        read_stark_frame d1 = Inr (st, d'))"
    using stark_frame_inline [of "\<lambda>st. \<lparr>art_attestation = a, art_stark = st\<rparr>" for a]
    by (simp add: artifact_read_def dbind_Inr case_dfail_Inr fields)
  also have "\<dots> \<longleftrightarrow> (\<exists>d1. length (attestation_encode a) < 2 ^ 32 \<and> attestation_ok a \<and>
      consumes d (put_blob32 (attestation_encode a) []) d1 \<and> read_stark_frame d1 = Inr (st, d'))"
    by (auto simp: blob32c.decode_iff attestationc.read_all_iff put_raw_def
        intro!: exI [of _ "attestation_encode a"])
  finally show ?thesis
    by (auto simp: fields artifact_ok_def artifact_encode_def wire read_stark_frame_Inr pred_option_def)
qed

interpretation artifactc: canonical_codec "\<lambda>a. put_raw (artifact_encode a)" artifact_read artifact_ok
  by unfold_locales (simp_all add: artifact_read_Inr put_raw_def)

section \<open>Operators\<close>

definition POP_DOMAIN :: bytes where "POP_DOMAIN = ascii ''QUANTOVA/Q-ORACLE/OPERATOR-POP/v1''"

text \<open>
  \<open>verify pk_bytes sig_bytes pk message sig context\<close> is \<^verbatim>\<open>ml_dsa::verify\<close> together with the
  conversions of key and signature to arrays: a key or signature of another length is refused.
\<close>

record ml_dsa =
  PUBLIC_KEY_BYTES :: nat
  SIGNATURE_BYTES :: nat
  ml_dsa_verify :: "bytes \<Rightarrow> bytes \<Rightarrow> bytes \<Rightarrow> bytes \<Rightarrow> bool"

definition operator_pop_challenge :: "u32 \<Rightarrow> bytes \<Rightarrow> u64 \<Rightarrow> bytes" where
  "operator_pop_challenge operator_id public_key chain_id =
     puts [put_u64 chain_id, put_u32 operator_id, put_raw public_key] []"

definition operator_pop_ok :: "ml_dsa \<Rightarrow> u32 \<Rightarrow> bytes \<Rightarrow> bytes \<Rightarrow> u64 \<Rightarrow> bool" where
  "operator_pop_ok sch operator_id public_key pop chain_id \<longleftrightarrow>
     (if length public_key \<noteq> PUBLIC_KEY_BYTES sch then False
      else if length pop \<noteq> SIGNATURE_BYTES sch then False
      else ml_dsa_verify sch public_key (operator_pop_challenge operator_id public_key chain_id) pop
        POP_DOMAIN)"

record operator_set =
  operators :: "(u32 \<times> bytes) list"
  op_threshold :: u32
  revoked :: "u32 list"

definition operator_set_new :: "(u32 \<times> bytes) list \<Rightarrow> u32 \<Rightarrow> operator_set" where
  "operator_set_new ops t = \<lparr>operators = ops, op_threshold = t, revoked = []\<rparr>"

definition is_revoked :: "operator_set \<Rightarrow> u32 \<Rightarrow> bool" where
  "is_revoked s i \<longleftrightarrow> i \<in> set (revoked s)"

definition revoke :: "u32 \<Rightarrow> operator_set \<Rightarrow> bool \<times> operator_set" where
  "revoke i s =
     (let known = list_ex (\<lambda>(j, _). j = i) (operators s) in
      if \<not> known \<or> is_revoked s i then (False, s)
      else (True, s\<lparr>revoked := revoked s @ [i]\<rparr>))"

definition public_key_of :: "operator_set \<Rightarrow> u32 \<Rightarrow> bytes option" where
  "public_key_of s i =
     (if is_revoked s i then None
      else map_option snd (find (\<lambda>(j, _). j = i) (operators s)))"

definition put_operator :: "u32 \<times> bytes \<Rightarrow> encoder \<Rightarrow> encoder" where
  "put_operator x = puts [put_u32 (fst x), put_bytes (snd x)]"

definition get_operator :: "(u32 \<times> bytes) decode" where
  "get_operator = dbind get_u32 (\<lambda>i. dbind get_bytes (\<lambda>key. dret (i, key)))"

definition encode_operator_set :: "operator_set \<Rightarrow> encoder \<Rightarrow> encoder" where
  "encode_operator_set s = puts
    [put_seq32 put_operator (operators s), put_u32 (op_threshold s), put_seq32 put_u32 (revoked s)]"

definition get_counted :: "'a decode \<Rightarrow> 'a list decode" where
  "get_counted dec = dbind get_u32 (\<lambda>count. decode_n dec (unat count))"

definition decode_operator_set :: "operator_set decode" where
  "decode_operator_set =
     dbind (get_counted get_operator) (\<lambda>ops. dbind get_u32 (\<lambda>t.
     dbind (get_counted get_u32) (\<lambda>rs.
     dret \<lparr>operators = ops, op_threshold = t, revoked = rs\<rparr>)))"

definition operator_set_ok :: "operator_set \<Rightarrow> bool" where
  "operator_set_ok s \<longleftrightarrow> length (operators s) < 2 ^ 32 \<and> length (revoked s) < 2 ^ 32"

lemma get_counted_Inr: "get_counted dec d = Inr (x, d') \<longleftrightarrow> get_seq32 dec d = Inr (x, d')"
  by (simp add: get_counted_def get_seq32_def wire)

interpretation operatorc: canonical_codec put_operator get_operator "\<lambda>_. True"
  by unfold_locales (auto simp: put_operator_def get_operator_def wire)

interpretation operatorsc: canonical_codec "put_seq32 put_operator" "get_seq32 get_operator"
    "\<lambda>xs. length xs < 2 ^ 32"
  using operatorc.seq32_canonical by (simp add: list.pred_True)

interpretation u32sc: canonical_codec "put_seq32 put_u32" "get_seq32 get_u32" "\<lambda>xs. length xs < 2 ^ 32"
  using u32c.seq32_canonical by (simp add: list.pred_True)

lemma decode_operator_set_Inr:
  "decode_operator_set d = Inr (s, d') \<longleftrightarrow>
     operator_set_ok s \<and> consumes d (encode_operator_set s []) d'"
  by (cases s)
    (auto simp: decode_operator_set_def encode_operator_set_def operator_set_ok_def wire
      get_counted_Inr operatorsc.decode_iff u32sc.decode_iff operatorsc.puts_encode u32sc.puts_encode)

interpretation operator_setc: canonical_codec encode_operator_set decode_operator_set operator_set_ok
  by unfold_locales (simp_all add: decode_operator_set_Inr,
    simp add: encode_operator_set_def wire operatorsc.puts_encode u32sc.puts_encode)

lemma public_key_of_Some:
  "public_key_of s i = Some k \<Longrightarrow> (i, k) \<in> set (operators s) \<and> i \<notin> set (revoked s)"
  by (auto simp: public_key_of_def is_revoked_def find_Some_iff in_set_conv_nth split: if_splits)

section \<open>Exits\<close>

definition EXIT_ACK_DOMAIN :: bytes where "EXIT_ACK_DOMAIN = ascii ''QUANTOVA/Q-ORACLE/EXIT-ACK/v1''"
definition EXIT_FACT_VERSION :: u8 where "EXIT_FACT_VERSION = 1"
definition EXIT_FACT_ENCODED_LEN :: nat where "EXIT_FACT_ENCODED_LEN = 138"
definition ARTIFACT_EXIT_ACK :: u8 where "ARTIFACT_EXIT_ACK = 3"

record exit_request =
  req_asset_id :: bytes
  req_amount :: u128
  req_destination :: bytes

definition exit_request_encode :: "exit_request \<Rightarrow> bytes" where
  "exit_request_encode r =
     puts [put_raw (req_asset_id r), put_u128 (req_amount r), put_raw (req_destination r)] []"

definition exit_request_decode :: "bytes \<Rightarrow> exit_request option" where
  "exit_request_decode = read_all
    (dbind (reader_array 16) (\<lambda>asset_id. dbind reader_u128 (\<lambda>amount.
     dbind (reader_array 32) (\<lambda>destination.
     dret \<lparr>req_asset_id = asset_id, req_amount = amount, req_destination = destination\<rparr>))))"

definition attest_context :: "bytes \<Rightarrow> bytes" where
  "attest_context era = puts [put_raw ATTEST_DOMAIN, put_raw era] []"

definition exit_ack_context :: "bytes \<Rightarrow> bytes" where
  "exit_ack_context era = puts [put_raw EXIT_ACK_DOMAIN, put_raw era] []"

datatype exit_outcome = Settle | Slash

fun outcome_tag :: "exit_outcome \<Rightarrow> u8" where
  "outcome_tag Settle = 1"
| "outcome_tag Slash = 2"

definition outcome_from_tag :: "u8 \<Rightarrow> exit_outcome option" where
  "outcome_from_tag t = (if t = 1 then Some Settle else if t = 2 then Some Slash else None)"

record exit_fact =
  exit_version :: u8
  corridor :: u32
  exit_dest_chain :: u32
  exit_asset_id :: bytes
  exit_amount :: u128
  exit_holder :: bytes
  exit_destination :: bytes
  burn_ref :: bytes
  exit_outcome :: exit_outcome

definition exit_fact_encode :: "exit_fact \<Rightarrow> bytes" where
  "exit_fact_encode f = puts
    [put_u8 (exit_version f), put_u32 (corridor f), put_u32 (exit_dest_chain f),
     put_raw (exit_asset_id f), put_u128 (exit_amount f), put_raw (exit_holder f),
     put_raw (exit_destination f), put_raw (burn_ref f), put_u8 (outcome_tag (exit_outcome f))] []"

definition exit_fact_read :: "exit_fact decode" where
  "exit_fact_read =
     dbind reader_u8 (\<lambda>version. dbind reader_u32 (\<lambda>corridor. dbind reader_u32 (\<lambda>dest_chain.
     dbind (reader_array 16) (\<lambda>asset_id. dbind reader_u128 (\<lambda>amount.
     dbind (reader_array 32) (\<lambda>holder. dbind (reader_array 32) (\<lambda>destination.
     dbind (reader_array 32) (\<lambda>burn_ref. dbind reader_u8 (\<lambda>tag.
     case outcome_from_tag tag of None \<Rightarrow> dfail unread | Some outcome \<Rightarrow>
     dret \<lparr>exit_version = version, corridor = corridor, exit_dest_chain = dest_chain,
           exit_asset_id = asset_id, exit_amount = amount, exit_holder = holder,
           exit_destination = destination, burn_ref = burn_ref, exit_outcome = outcome\<rparr>)))))))))"

definition exit_fact_decode :: "bytes \<Rightarrow> exit_fact option" where
  "exit_fact_decode = read_all exit_fact_read"

definition ack_preimage :: "exit_fact \<Rightarrow> u64 \<Rightarrow> bytes" where
  "ack_preimage f chain_id = puts [put_raw EXIT_ACK_DOMAIN, put_raw (exit_fact_encode f), put_u64 chain_id] []"

definition exit_fact_well_formed :: "exit_fact \<Rightarrow> bool" where
  "exit_fact_well_formed f \<longleftrightarrow>
     exit_version f = EXIT_FACT_VERSION \<and> corridor f \<noteq> 0 \<and> exit_dest_chain f \<noteq> 0 \<and>
     exit_amount f \<noteq> 0 \<and> exit_asset_id f \<noteq> replicate 16 0 \<and> exit_holder f \<noteq> replicate 32 0 \<and>
     exit_destination f \<noteq> replicate 32 0 \<and> burn_ref f \<noteq> replicate 32 0"

record exit_attestation =
  ack_fact :: exit_fact
  ack_signatures :: "signer_sig list"

definition exit_attestation_encode :: "exit_attestation \<Rightarrow> bytes" where
  "exit_attestation_encode a = puts
    [put_u8 ARTIFACT_EXIT_ACK, put_u8 ENVELOPE_VERSION, put_raw (exit_fact_encode (ack_fact a)),
     put_seq32 put_signer (ack_signatures a)] []"

definition exit_attestation_read :: "exit_attestation decode" where
  "exit_attestation_read =
     dbind reader_u8 (\<lambda>kind. if kind \<noteq> ARTIFACT_EXIT_ACK then dfail unread else
     dbind reader_u8 (\<lambda>version. if version \<noteq> ENVELOPE_VERSION then dfail unread else
     dbind exit_fact_read (\<lambda>fact. dbind (get_seq32 read_signer) (\<lambda>signatures.
     dret \<lparr>ack_fact = fact, ack_signatures = signatures\<rparr>))))"

definition exit_attestation_decode :: "bytes \<Rightarrow> exit_attestation option" where
  "exit_attestation_decode = read_all exit_attestation_read"

definition exit_fact_ok :: "exit_fact \<Rightarrow> bool" where
  "exit_fact_ok f \<longleftrightarrow> length (exit_asset_id f) = 16 \<and> length (exit_holder f) = 32 \<and>
     length (exit_destination f) = 32 \<and> length (burn_ref f) = 32"

definition exit_attestation_ok :: "exit_attestation \<Rightarrow> bool" where
  "exit_attestation_ok a \<longleftrightarrow> exit_fact_ok (ack_fact a) \<and> list_all signer_ok (ack_signatures a) \<and>
     length (ack_signatures a) < 2 ^ 32"

lemma outcome_from_tag_Some [wire]: "outcome_from_tag t = Some v \<longleftrightarrow> t = outcome_tag v"
  by (cases v) (auto simp: outcome_from_tag_def)

lemma exit_fact_read_Inr:
  "exit_fact_read d = Inr (f, d') \<longleftrightarrow> exit_fact_ok f \<and> consumes d (exit_fact_encode f) d'"
  by (cases f) (auto simp: exit_fact_read_def exit_fact_encode_def exit_fact_ok_def wire)

interpretation exit_factc: canonical_codec "\<lambda>f. put_raw (exit_fact_encode f)" exit_fact_read exit_fact_ok
  by unfold_locales (simp_all add: exit_fact_read_Inr put_raw_def)

lemma exit_fact_encode_length: "exit_fact_ok f \<Longrightarrow> length (exit_fact_encode f) = EXIT_FACT_ENCODED_LEN"
  by (simp add: exit_fact_ok_def exit_fact_encode_def puts.simps put_append put_raw_def
      EXIT_FACT_ENCODED_LEN_def)

lemma exit_fact_encode_inject:
  "exit_fact_ok f \<Longrightarrow> exit_fact_ok g \<Longrightarrow> exit_fact_encode f = exit_fact_encode g \<longleftrightarrow> f = g"
  using exit_factc.encoding_prefix_free [of f g "[]" "[]"]
  by (auto simp: to_bytes_def put_raw_def exit_fact_encode_length EXIT_FACT_ENCODED_LEN_def)

lemma exit_attestation_read_Inr:
  "exit_attestation_read d = Inr (a, d') \<longleftrightarrow>
     exit_attestation_ok a \<and> consumes d (exit_attestation_encode a) d'"
proof -
  have fact: "consumes d (put_raw (exit_fact_encode f) []) d' = consumes d (exit_fact_encode f) d'"
    for f d d'
    by (simp add: put_raw_def)
  show ?thesis
    by (cases a)
      (auto simp: exit_attestation_read_def exit_attestation_encode_def exit_attestation_ok_def wire
        exit_fact_read_Inr signersc.decode_iff fact simp del: consumes_raw)
qed

interpretation exit_attestationc: canonical_codec "\<lambda>a. put_raw (exit_attestation_encode a)"
    exit_attestation_read exit_attestation_ok
  by unfold_locales (simp_all add: exit_attestation_read_Inr put_raw_def)

section \<open>Quorum checks\<close>

definition verify_signature :: "ml_dsa \<Rightarrow> bytes \<Rightarrow> bytes \<Rightarrow> bytes \<Rightarrow> bytes \<Rightarrow> bool" where
  "verify_signature sch pk message sig era \<longleftrightarrow> ml_dsa_verify sch pk message sig (attest_context era)"

definition verify_exit_signature :: "ml_dsa \<Rightarrow> bytes \<Rightarrow> bytes \<Rightarrow> bytes \<Rightarrow> bytes \<Rightarrow> bool" where
  "verify_exit_signature sch pk message sig era \<longleftrightarrow> ml_dsa_verify sch pk message sig (exit_ack_context era)"

text \<open>
  One round of the signer loop, shared by the two checks: \<open>attempted\<close> are the operators tried,
  \<open>counted\<close> the keys whose signature verified, and \<open>check pk sig\<close> the verification call.
\<close>

definition count_signer ::
  "ml_dsa \<Rightarrow> operator_set \<Rightarrow> (bytes \<Rightarrow> bytes \<Rightarrow> bool) \<Rightarrow> signer_sig \<Rightarrow> u32 set \<times> bytes set \<Rightarrow>
     u32 set \<times> bytes set" where
  "count_signer sch s check signer st =
     (case st of (attempted, counted) \<Rightarrow>
      if operator_of signer \<in> attempted then (attempted, counted)
      else let attempted = insert (operator_of signer) attempted in
        case public_key_of s (operator_of signer) of
          None \<Rightarrow> (attempted, counted)
        | Some key \<Rightarrow>
            if key \<in> counted then (attempted, counted)
            else if length key \<noteq> PUBLIC_KEY_BYTES sch then (attempted, counted)
            else if length (signature_of signer) \<noteq> SIGNATURE_BYTES sch then (attempted, counted)
            else if check key (signature_of signer) then (attempted, insert key counted)
            else (attempted, counted))"

definition counted_keys ::
  "ml_dsa \<Rightarrow> operator_set \<Rightarrow> (bytes \<Rightarrow> bytes \<Rightarrow> bool) \<Rightarrow> signer_sig list \<Rightarrow> bytes set" where
  "counted_keys sch s check signatures = snd (fold (count_signer sch s check) signatures ({}, {}))"

definition quorum_attests ::
  "ml_dsa \<Rightarrow> operator_set \<Rightarrow> attestation \<Rightarrow> u32 \<Rightarrow> u64 \<Rightarrow> bytes \<Rightarrow> bool" where
  "quorum_attests sch s a dest_chain chain_id era \<longleftrightarrow>
     (let fact = att_fact a in
      if op_threshold s = 0 then False
      else if \<not> fact_well_formed fact then False
      else if fact_dest_chain fact \<noteq> dest_chain \<or> fact_direction fact \<noteq> Deposit then False
      else if length (operators s) < length (att_signatures a) then False
      else let message = attest_preimage fact chain_id;
               keys = counted_keys sch s (\<lambda>pk sig. verify_signature sch pk message sig era)
                 (att_signatures a)
           in op_threshold s \<le> word_of_nat (card keys))"

definition exit_quorum_attests ::
  "ml_dsa \<Rightarrow> operator_set \<Rightarrow> exit_attestation \<Rightarrow> u32 \<Rightarrow> u64 \<Rightarrow> bytes \<Rightarrow> bool" where
  "exit_quorum_attests sch s a dest_chain chain_id era \<longleftrightarrow>
     (let fact = ack_fact a in
      if op_threshold s = 0 then False
      else if \<not> exit_fact_well_formed fact then False
      else if exit_dest_chain fact \<noteq> dest_chain then False
      else if length (operators s) < length (ack_signatures a) then False
      else let message = ack_preimage fact chain_id;
               keys = counted_keys sch s (\<lambda>pk sig. verify_exit_signature sch pk message sig era)
                 (ack_signatures a)
           in op_threshold s \<le> word_of_nat (card keys))"

fun first_operator_signs ::
  "ml_dsa \<Rightarrow> operator_set \<Rightarrow> signer_sig list \<Rightarrow> bytes \<Rightarrow> bytes \<Rightarrow> bool \<Rightarrow> bool" where
  "first_operator_signs sch s [] message era exit \<longleftrightarrow> False"
| "first_operator_signs sch s (signer # rest) message era exit \<longleftrightarrow>
     (case public_key_of s (operator_of signer) of
        None \<Rightarrow> first_operator_signs sch s rest message era exit
      | Some pk \<Rightarrow>
          if length pk \<noteq> PUBLIC_KEY_BYTES sch then False
          else if length (signature_of signer) \<noteq> SIGNATURE_BYTES sch then False
          else if exit then verify_exit_signature sch pk message (signature_of signer) era
          else verify_signature sch pk message (signature_of signer) era)"

datatype stark_check = Absent | BoundUnverified | Unbound

definition check_stark ::
  "(bytes \<Rightarrow> bytes) \<Rightarrow> fact \<Rightarrow> stark_envelope option \<Rightarrow> u32 \<Rightarrow> stark_check" where
  "check_stark shake f stark operator =
     (case stark of
        None \<Rightarrow> Absent
      | Some env \<Rightarrow>
          if env_digest env = statement_digest shake f operator then BoundUnverified else Unbound)"

text \<open>
  Reference for the loop: the keys of the unrevoked operators whose first listed signature
  verifies.
\<close>

definition signing_keys ::
  "ml_dsa \<Rightarrow> operator_set \<Rightarrow> (bytes \<Rightarrow> bytes \<Rightarrow> bool) \<Rightarrow> signer_sig list \<Rightarrow> bytes set" where
  "signing_keys sch s check signatures =
     {k. \<exists>us x vs. signatures = us @ x # vs \<and> operator_of x \<notin> operator_of ` set us \<and>
        public_key_of s (operator_of x) = Some k \<and> length k = PUBLIC_KEY_BYTES sch \<and>
        length (signature_of x) = SIGNATURE_BYTES sch \<and> check k (signature_of x)}"

lemma signing_keys_snoc:
  "signing_keys sch s check (xs @ [x]) =
     signing_keys sch s check xs \<union>
     {k. operator_of x \<notin> operator_of ` set xs \<and> public_key_of s (operator_of x) = Some k \<and>
        length k = PUBLIC_KEY_BYTES sch \<and> length (signature_of x) = SIGNATURE_BYTES sch \<and>
        check k (signature_of x)}"
proof -
  have snoc: "(xs @ [x] = us @ y # vs) \<longleftrightarrow>
      (vs = [] \<and> us = xs \<and> y = x) \<or> (\<exists>ws. vs = ws @ [x] \<and> xs = us @ y # ws)" for us y vs
    by (cases vs rule: rev_cases) auto
  show ?thesis
    unfolding signing_keys_def snoc by blast
qed

lemma count_signers:
  "fold (count_signer sch s check) xs ({}, {}) = (operator_of ` set xs, signing_keys sch s check xs)"
proof (induction xs rule: rev_induct)
  case Nil
  then show ?case by (simp add: signing_keys_def)
next
  case (snoc x xs)
  then show ?case
    by (cases "public_key_of s (operator_of x)")
      (auto simp: count_signer_def signing_keys_snoc Let_def)
qed

lemma counted_keys_eq: "counted_keys sch s check xs = signing_keys sch s check xs"
  by (simp add: counted_keys_def count_signers)

lemma signing_keys_sub:
  "signing_keys sch s check xs \<subseteq>
     {k \<in> snd ` set (filter (\<lambda>(i, _). \<not> is_revoked s i) (operators s)).
        \<exists>x \<in> set xs. public_key_of s (operator_of x) = Some k \<and> check k (signature_of x)}"
  using public_key_of_Some [of s] by (force simp: signing_keys_def is_revoked_def image_iff)

lemma signing_keys_finite: "finite (signing_keys sch s check xs)"
  using finite_subset [OF signing_keys_sub] by (auto intro: finite_subset)

lemma word_count_le: "(t :: 'a::len word) \<le> word_of_nat n \<Longrightarrow> unat t \<le> n"
  by (metis unat_of_nat mod_less_eq_dividend order_trans word_le_nat_alt)

lemma quorum_attestsD:
  assumes "quorum_attests sch s a dest_chain chain_id era"
  defines "K \<equiv> signing_keys sch s
      (\<lambda>pk sig. verify_signature sch pk (attest_preimage (att_fact a) chain_id) sig era) (att_signatures a)"
  shows "fact_well_formed (att_fact a)" "fact_dest_chain (att_fact a) = dest_chain"
    "fact_direction (att_fact a) = Deposit" "0 < unat (op_threshold s)" "unat (op_threshold s) \<le> card K"
  using assms word_count_le [of "op_threshold s"]
  by (auto simp: quorum_attests_def Let_def counted_keys_eq word_neq_0_conv unat_gt_0 split: if_splits)

lemma preimage_prefix:
  "attest_preimage f c = ATTEST_DOMAIN @ fact_encode f @ le_of_nat 8 (unat c)"
  "ack_preimage g c = EXIT_ACK_DOMAIN @ exit_fact_encode g @ le_of_nat 8 (unat c)"
  by (simp_all add: attest_preimage_def ack_preimage_def puts.simps put_raw_def put_append)

lemma domain_lengths: "length ATTEST_DOMAIN = 27" "length EXIT_ACK_DOMAIN = 29"
  by (simp_all add: ATTEST_DOMAIN_def EXIT_ACK_DOMAIN_def ascii_def)

lemma le8_inject: "le_of_nat 8 (unat (a :: u64)) = le_of_nat 8 (unat b) \<longleftrightarrow> a = b"
  using u64c.encoding_prefix_free [of a "[]" b "[]"] by (auto simp: to_bytes_def put_append)

section \<open>Claims\<close>

text \<open>
  C20: the frame of a mint artifact is canonical.  The decoder accepts exactly the encodings of the
  artifacts whose parts fit their length words, so no two byte strings carry the same artifact and
  no artifact is read from bytes that were not written for it.
\<close>

theorem artifact_canonical:
  "artifact_decode bs = Some m \<longleftrightarrow> artifact_ok m \<and> artifact_encode m = bs \<and> length bs < 2 ^ 64"
  by (simp add: artifact_decode_def artifactc.read_all_iff put_raw_def)

text \<open>
  C21: the quorum check computes its reference.  With its three guards passed, it accepts when the
  number of different keys, among those of unrevoked operators whose first listed signature
  verifies, reaches the threshold: repeating an operator or sharing a key never counts twice.
\<close>

theorem quorum_attests_reference:
  "quorum_attests sch s a dest_chain chain_id era \<longleftrightarrow>
     op_threshold s \<noteq> 0 \<and> fact_well_formed (att_fact a) \<and> fact_dest_chain (att_fact a) = dest_chain \<and>
     fact_direction (att_fact a) = Deposit \<and> length (att_signatures a) \<le> length (operators s) \<and>
     op_threshold s \<le> word_of_nat (card (signing_keys sch s
       (\<lambda>pk sig. verify_signature sch pk (attest_preimage (att_fact a) chain_id) sig era)
       (att_signatures a)))"
  by (auto simp: quorum_attests_def Let_def counted_keys_eq not_less)


text \<open>
  C23: what operators sign is unambiguous.  The attested message determines the deposit fact and
  the chain, the acknowledged message the exit fact and the chain, and the two kinds are signed
  under contexts that never coincide, so no signature can be replayed as the other kind.
\<close>

theorem bridge_messages_separate:
  assumes "fact_ok f" and "fact_ok g" and "exit_fact_ok u" and "exit_fact_ok v"
    and "length era = 32" and "length era' = 32"
  shows "(attest_preimage f c = attest_preimage g c' \<longleftrightarrow> f = g \<and> c = c') \<and>
    (ack_preimage u c = ack_preimage v c' \<longleftrightarrow> u = v \<and> c = c') \<and>
    attest_context era \<noteq> exit_ack_context era' \<and>
    (attest_context era = attest_context era' \<longrightarrow> era = era')"
proof (intro conjI)
  show "attest_preimage f c = attest_preimage g c' \<longleftrightarrow> f = g \<and> c = c'"
    using assms(1,2) by (auto simp: preimage_prefix fact_encode_length fact_encode_inject le8_inject)
  show "ack_preimage u c = ack_preimage v c' \<longleftrightarrow> u = v \<and> c = c'"
    using assms(3,4)
    by (auto simp: preimage_prefix exit_fact_encode_length exit_fact_encode_inject le8_inject)
  show "attest_context era \<noteq> exit_ack_context era'"
    using assms(5,6) domain_lengths
    by (auto simp: attest_context_def exit_ack_context_def puts.simps put_raw_def dest!: arg_cong [of _ _ length])
  show "attest_context era = attest_context era' \<longrightarrow> era = era'"
    by (simp add: attest_context_def puts.simps put_raw_def)
qed

definition sample_scheme :: ml_dsa where
  "sample_scheme = \<lparr>PUBLIC_KEY_BYTES = 1, SIGNATURE_BYTES = 1,
     ml_dsa_verify = (\<lambda>pk message sig context. sig = pk)\<rparr>"

definition sample_fact :: "u128 \<Rightarrow> fact" where
  "sample_fact amount = \<lparr>fact_version = 1, source_chain = 1, fact_dest_chain = 7, route_id = 0,
     fact_direction = Deposit, fact_nonce = 0, source_ref = replicate 32 1,
     fact_asset_id = replicate 16 1, fact_amount = amount, fact_recipient = replicate 32 1,
     finality_depth = 1, observed_height = 1, expiry_height = 9\<rparr>"

definition sample_set :: operator_set where
  "sample_set = \<lparr>operators = [(1, [1]), (2, [2]), (3, [3]), (4, [4])], op_threshold = 3, revoked = []\<rparr>"

definition sample_attestation :: "u128 \<Rightarrow> u32 list \<Rightarrow> attestation" where
  "sample_attestation amount ids = \<lparr>att_fact = sample_fact amount,
     att_signatures = map (\<lambda>i. \<lparr>operator_of = i, signature_of = [ucast i]\<rparr>) ids\<rparr>"

lemma sample_attested:
  "quorum_attests sample_scheme sample_set (sample_attestation 5 [1, 2, 3]) 7 0 (replicate 32 0)"
  "quorum_attests sample_scheme sample_set (sample_attestation 6 [2, 3, 4]) 7 0 (replicate 32 0)"
  by (simp_all add: quorum_attests_def sample_set_def sample_attestation_def sample_fact_def
      fact_well_formed_def FACT_VERSION_def counted_keys_def count_signer_def public_key_of_def
      is_revoked_def sample_scheme_def verify_signature_def Let_def)


theorem bridge_messages_separate_witness:
  "attest_preimage (sample_fact 5) 0 \<noteq> attest_preimage (sample_fact 6) 0 \<and>
   attest_context (replicate 32 0) \<noteq> exit_ack_context (replicate 32 0)"
proof -
  let ?u = "\<lparr>exit_version = 1, corridor = 1, exit_dest_chain = 7, exit_asset_id = replicate 16 1,
    exit_amount = 5, exit_holder = replicate 32 1, exit_destination = replicate 32 2,
    burn_ref = replicate 32 3, exit_outcome = Settle\<rparr>"
  have "fact_ok (sample_fact x)" for x
    by (simp add: fact_ok_def sample_fact_def)
  moreover have "exit_fact_ok ?u"
    by (simp add: exit_fact_ok_def)
  ultimately show ?thesis
    using bridge_messages_separate [of "sample_fact 5" "sample_fact 6" ?u ?u "replicate 32 0" "replicate 32 0"]
    by (simp add: sample_fact_def)
qed

end
