(* ===== verification/LedgerKeys.thy ===== *)
theory LedgerKeys
  imports Codec Idfmt "HOL-Library.Sublist"
begin

text \<open>
  The keys of the state, \<^verbatim>\<open>src/crates/qtv-node/src/ledger.rs\<close> and
  \<^verbatim>\<open>src/crates/qtv-block/src/light.rs\<close>.  Every leaf of the state tree lives under the hash of a tag
  and an identifier; \<open>leaf\<close> names the leaves and \<open>leaf_key\<close> is the key of each.  The hash is
  external code, the parameter \<open>H\<close>.  The main result is that the hashed strings of different
  leaves differ, so that two leaves share a key only when the hash collides.
\<close>

type_synonym hash = "bytes \<Rightarrow> bytes"

definition KEY_LEN :: nat where "KEY_LEN = 32"

section \<open>Tags\<close>

definition ACCOUNT_TAG :: bytes where "ACCOUNT_TAG = ascii ''qtv/account/''"
definition ACCOUNT_UNPARSED_TAG :: bytes where "ACCOUNT_UNPARSED_TAG = ascii ''qtv/account-unparsed/''"
definition STAKE_BOND_TAG :: bytes where "STAKE_BOND_TAG = ascii ''qtv/stake/bond/''"
definition STAKE_REWARDS_TAG :: bytes where "STAKE_REWARDS_TAG = ascii ''qtv/stake/rewards/''"
definition STAKE_POOL_TAG :: bytes where "STAKE_POOL_TAG = ascii ''qtv/stake/pool''"
definition STAKE_TREASURY_TAG :: bytes where "STAKE_TREASURY_TAG = ascii ''qtv/stake/treasury''"
definition SUPPLY_TAG :: bytes where "SUPPLY_TAG = ascii ''qtv/supply''"
definition STAKE_PRICE_TAG :: bytes where "STAKE_PRICE_TAG = ascii ''qtv/stake/price''"
definition STAKE_MAINNET_TAG :: bytes where "STAKE_MAINNET_TAG = ascii ''qtv/stake/mainnet''"
definition STAKE_METER_TAG :: bytes where "STAKE_METER_TAG = ascii ''qtv/stake/meter''"
definition GOV_DEPOSIT_TAG :: bytes where "GOV_DEPOSIT_TAG = ascii ''qtv/gov/deposit''"
definition STAKE_VALIDATORS_TAG :: bytes where "STAKE_VALIDATORS_TAG = ascii ''qtv/stake/validators''"
definition STAKE_TOTAL_TAG :: bytes where "STAKE_TOTAL_TAG = ascii ''qtv/stake/total''"
definition STAKE_TOTAL_ACTIVE_TAG :: bytes where "STAKE_TOTAL_ACTIVE_TAG = ascii ''qtv/stake/total/active''"
definition STAKE_TOTAL_RAISED_TAG :: bytes where "STAKE_TOTAL_RAISED_TAG = ascii ''qtv/stake/total/raised''"
definition STAKE_PAYEE_TAG :: bytes where "STAKE_PAYEE_TAG = ascii ''qtv/stake/payee/''"
definition BRIDGE_ASSET_TAG :: bytes where "BRIDGE_ASSET_TAG = ascii ''qtv/bridge/asset/''"
definition BRIDGE_BALANCE_TAG :: bytes where "BRIDGE_BALANCE_TAG = ascii ''qtv/bridge/bal/''"
definition ASSET_BALANCE_TAG :: bytes where "ASSET_BALANCE_TAG = ascii ''qtv/asset/bal/''"
definition ASSET_SUPPLY_TAG :: bytes where "ASSET_SUPPLY_TAG = ascii ''qtv/asset/supply/''"
definition ASSET_ID_DOMAIN :: bytes where "ASSET_ID_DOMAIN = ascii ''qtv/asset/id/v1''"
definition BRIDGE_SEEN_TAG :: bytes where "BRIDGE_SEEN_TAG = ascii ''qtv/bridge/seen/''"
definition BRIDGE_EPOCHMINT_TAG :: bytes where "BRIDGE_EPOCHMINT_TAG = ascii ''qtv/bridge/epochmint/''"
definition BRIDGE_OPERATORS_TAG :: bytes where "BRIDGE_OPERATORS_TAG = ascii ''qtv/bridge/operators''"
definition GUARDIAN_ENACT_NONCE_TAG :: bytes where "GUARDIAN_ENACT_NONCE_TAG = ascii ''qtv/guardian/enact-nonce''"
definition GUARDIAN_PENDING_ENACT_TAG :: bytes where "GUARDIAN_PENDING_ENACT_TAG = ascii ''qtv/guardian/pending-enact''"
definition BRIDGE_VAULTBAL_TAG :: bytes where "BRIDGE_VAULTBAL_TAG = ascii ''qtv/bridge/vaultbal/''"
definition BRIDGE_ASSET_LIST_TAG :: bytes where "BRIDGE_ASSET_LIST_TAG = ascii ''qtv/bridge/assetlist''"
definition BRIDGE_DESTCHAIN_TAG :: bytes where "BRIDGE_DESTCHAIN_TAG = ascii ''qtv/bridge/destchain''"
definition BRIDGE_ERA_TAG :: bytes where "BRIDGE_ERA_TAG = ascii ''qtv/bridge/era''"
definition CHAIN_GENESIS_TIME_TAG :: bytes where "CHAIN_GENESIS_TIME_TAG = ascii ''qtv/chain/genesistime''"
definition CHAIN_GENESIS_HASH_TAG :: bytes where "CHAIN_GENESIS_HASH_TAG = ascii ''qtv/chain/genesishash''"
definition BRIDGE_EPOCH_TAG :: bytes where "BRIDGE_EPOCH_TAG = ascii ''qtv/bridge/epoch''"
definition BRIDGE_BURN_REF_DOMAIN :: bytes where "BRIDGE_BURN_REF_DOMAIN = ascii ''qtv/bridge/burn-ref/v2''"
definition BRIDGE_EXIT_SEEN_TAG :: bytes where "BRIDGE_EXIT_SEEN_TAG = ascii ''qtv/bridge/exitseen/''"
definition BRIDGE_OUTSTANDING_TAG :: bytes where "BRIDGE_OUTSTANDING_TAG = ascii ''qtv/bridge/outstanding/''"
definition BRIDGE_EPOCHPAY_TAG :: bytes where "BRIDGE_EPOCHPAY_TAG = ascii ''qtv/bridge/epochpay/''"
definition BRIDGE_EPOCHPAYG_TAG :: bytes where "BRIDGE_EPOCHPAYG_TAG = ascii ''qtv/bridge/epochpayglobal/''"
definition ASSET_MINT_CEILING_TAG :: bytes where "ASSET_MINT_CEILING_TAG = ascii ''qtv/asset/mint-ceiling''"
definition GOV_MINT_PERIOD_TAG :: bytes where "GOV_MINT_PERIOD_TAG = ascii ''qtv/gov/mint-period/''"
definition STAKE_BANNED_TAG :: bytes where "STAKE_BANNED_TAG = ascii ''qtv/stake/banned/''"
definition STAKE_ATTEST_TAG :: bytes where "STAKE_ATTEST_TAG = ascii ''qtv/stake/attest/''"
definition GOV_NEXT_TAG :: bytes where "GOV_NEXT_TAG = ascii ''qtv/gov/next''"
definition GOV_LOCKED_TAG :: bytes where "GOV_LOCKED_TAG = ascii ''qtv/gov/locked''"
definition GOV_REF_TAG :: bytes where "GOV_REF_TAG = ascii ''qtv/gov/ref/''"
definition GOV_ACTION_TAG :: bytes where "GOV_ACTION_TAG = ascii ''qtv/gov/action/''"
definition GOV_BALLOT_TAG :: bytes where "GOV_BALLOT_TAG = ascii ''qtv/gov/ballot/''"
definition GOV_LOCK_TAG :: bytes where "GOV_LOCK_TAG = ascii ''qtv/gov/lock/''"
definition GOV_BLACKLIST_TAG :: bytes where "GOV_BLACKLIST_TAG = ascii ''qtv/gov/blacklist/''"
definition GOV_FREEZE_TAG :: bytes where "GOV_FREEZE_TAG = ascii ''qtv/gov/freeze/''"
definition GOV_STOPPED_ASSET_TAG :: bytes where "GOV_STOPPED_ASSET_TAG = ascii ''qtv/gov/stopped/asset/''"
definition GOV_FEATURE_TAG :: bytes where "GOV_FEATURE_TAG = ascii ''qtv/gov/feature/''"
definition GOV_GUARDIAN_TAG :: bytes where "GOV_GUARDIAN_TAG = ascii ''qtv/gov/guardians''"
definition GOV_GUARDIAN_EPOCH_TAG :: bytes where "GOV_GUARDIAN_EPOCH_TAG = ascii ''qtv/gov/guardian/epoch''"
definition GOV_GUARDIAN_FREEZE_TARGETS_TAG :: bytes where "GOV_GUARDIAN_FREEZE_TARGETS_TAG = ascii ''qtv/gov/guardian/freeze/targets''"
definition GOV_RECEIPT_TAG :: bytes where "GOV_RECEIPT_TAG = ascii ''qtv/gov/receipt/''"
definition GOV_ELECTORATE_TAG :: bytes where "GOV_ELECTORATE_TAG = ascii ''qtv/gov/electorate/''"
definition BRIDGE_FREEZE_TAG :: bytes where "BRIDGE_FREEZE_TAG = ascii ''qtv/bridge/freeze''"
definition BRIDGE_LAST_LIFT_TAG :: bytes where "BRIDGE_LAST_LIFT_TAG = ascii ''qtv/bridge/lastlift''"
definition BRIDGE_LAST_FREEZER_TAG :: bytes where "BRIDGE_LAST_FREEZER_TAG = ascii ''qtv/bridge/lastfreezer''"
definition BRIDGE_VAULT_TAG :: bytes where "BRIDGE_VAULT_TAG = ascii ''qtv/bridge/vault''"
definition BRIDGE_GATEWAY_TAG :: bytes where "BRIDGE_GATEWAY_TAG = ascii ''qtv/bridge/gateway''"
definition BRIDGE_EXITS_TAG :: bytes where "BRIDGE_EXITS_TAG = ascii ''qtv/bridge/exits''"
definition BRIDGE_EXIT_MAX_TAG :: bytes where "BRIDGE_EXIT_MAX_TAG = ascii ''qtv/bridge/exit-max''"
definition BRIDGE_FEDERATED_TAG :: bytes where "BRIDGE_FEDERATED_TAG = ascii ''qtv/bridge/federated''"
definition BRIDGE_PAYOUTCAP_TAG :: bytes where "BRIDGE_PAYOUTCAP_TAG = ascii ''qtv/bridge/payoutcap''"
definition VM_CODE_TAG :: bytes where "VM_CODE_TAG = ascii ''qtv/vm/code/''"
definition VM_CONTEXT_VERSION_TAG :: bytes where "VM_CONTEXT_VERSION_TAG = ascii ''qtv/vm/ctxver/''"
definition VM_STORE_TAG :: bytes where "VM_STORE_TAG = ascii ''qtv/vm/store/''"
definition VM_SLOT_TAG :: bytes where "VM_SLOT_TAG = ascii ''qtv/vm/slot/''"

section \<open>Keys\<close>

definition stake_singleton_key :: "hash \<Rightarrow> bytes \<Rightarrow> bytes" where
  "stake_singleton_key H tag = H tag"

definition stake_payee_key :: "hash \<Rightarrow> bytes \<Rightarrow> bytes" where
  "stake_payee_key H i = H (STAKE_PAYEE_TAG @ i)"

definition stake_bond_key :: "hash \<Rightarrow> bytes \<Rightarrow> bytes" where
  "stake_bond_key H i = H (STAKE_BOND_TAG @ i)"

definition stake_rewards_key :: "hash \<Rightarrow> bytes \<Rightarrow> bytes" where
  "stake_rewards_key H i = H (STAKE_REWARDS_TAG @ i)"

definition bridge_asset_key :: "hash \<Rightarrow> bytes \<Rightarrow> bytes" where
  "bridge_asset_key H asset_id = H (BRIDGE_ASSET_TAG @ asset_id)"

definition bridge_balance_key :: "hash \<Rightarrow> bytes \<Rightarrow> bytes \<Rightarrow> bytes" where
  "bridge_balance_key H asset_id holder = H (BRIDGE_BALANCE_TAG @ asset_id @ holder)"

definition asset_balance_key :: "hash \<Rightarrow> bytes \<Rightarrow> bytes \<Rightarrow> bytes" where
  "asset_balance_key H asset_id holder = H (ASSET_BALANCE_TAG @ asset_id @ holder)"

definition asset_mint_ceiling_key :: "hash \<Rightarrow> bytes \<Rightarrow> bytes" where
  "asset_mint_ceiling_key H asset_id = H (ASSET_MINT_CEILING_TAG @ asset_id)"

definition asset_supply_key :: "hash \<Rightarrow> bytes \<Rightarrow> bytes" where
  "asset_supply_key H asset_id = H (ASSET_SUPPLY_TAG @ asset_id)"

definition bridge_seen_key :: "hash \<Rightarrow> u32 \<Rightarrow> bytes \<Rightarrow> bytes" where
  "bridge_seen_key H source_chain source_ref = H (BRIDGE_SEEN_TAG @ le_of_nat 4 (unat source_chain) @ source_ref)"

definition feature_gate_key :: "hash \<Rightarrow> bytes \<Rightarrow> bytes" where
  "feature_gate_key H feature = H (GOV_FEATURE_TAG @ feature)"

definition bridge_vault_custody_key :: "hash \<Rightarrow> bytes \<Rightarrow> bytes \<Rightarrow> bytes" where
  "bridge_vault_custody_key H vault asset_id = H (BRIDGE_VAULTBAL_TAG @ vault @ asset_id)"

definition gov_mint_period_key :: "hash \<Rightarrow> u64 \<Rightarrow> bytes" where
  "gov_mint_period_key H period = H (GOV_MINT_PERIOD_TAG @ le_of_nat 8 (unat period))"

definition bridge_epochmint_key :: "hash \<Rightarrow> bytes \<Rightarrow> u64 \<Rightarrow> bytes" where
  "bridge_epochmint_key H asset_id epoch = H (BRIDGE_EPOCHMINT_TAG @ asset_id @ le_of_nat 8 (unat epoch))"

definition bridge_exit_seen_key :: "hash \<Rightarrow> bytes \<Rightarrow> bytes" where
  "bridge_exit_seen_key H burn_ref = H (BRIDGE_EXIT_SEEN_TAG @ burn_ref)"

definition bridge_outstanding_key :: "hash \<Rightarrow> bytes \<Rightarrow> bytes" where
  "bridge_outstanding_key H burn_ref = H (BRIDGE_OUTSTANDING_TAG @ burn_ref)"

definition bridge_epochpay_key :: "hash \<Rightarrow> bytes \<Rightarrow> u64 \<Rightarrow> bytes" where
  "bridge_epochpay_key H asset_id epoch = H (BRIDGE_EPOCHPAY_TAG @ asset_id @ le_of_nat 8 (unat epoch))"

definition bridge_epochpay_global_key :: "hash \<Rightarrow> u64 \<Rightarrow> bytes" where
  "bridge_epochpay_global_key H epoch = H (BRIDGE_EPOCHPAYG_TAG @ le_of_nat 8 (unat epoch))"

definition stake_banned_key :: "hash \<Rightarrow> bytes \<Rightarrow> bytes" where
  "stake_banned_key H i = H (STAKE_BANNED_TAG @ i)"

definition stake_attest_key :: "hash \<Rightarrow> bytes \<Rightarrow> bytes" where
  "stake_attest_key H i = H (STAKE_ATTEST_TAG @ i)"

definition gov_blacklist_key :: "hash \<Rightarrow> bytes \<Rightarrow> bytes" where
  "gov_blacklist_key H i = H (GOV_BLACKLIST_TAG @ i)"

definition gov_freeze_key :: "hash \<Rightarrow> bytes \<Rightarrow> bytes" where
  "gov_freeze_key H i = H (GOV_FREEZE_TAG @ i)"

definition gov_stopped_asset_key :: "hash \<Rightarrow> bytes \<Rightarrow> bytes" where
  "gov_stopped_asset_key H asset_id = H (GOV_STOPPED_ASSET_TAG @ asset_id)"

definition gov_receipt_key :: "hash \<Rightarrow> u64 \<Rightarrow> bytes" where
  "gov_receipt_key H i = H (GOV_RECEIPT_TAG @ le_of_nat 8 (unat i))"

definition gov_referendum_key :: "hash \<Rightarrow> u64 \<Rightarrow> bytes" where
  "gov_referendum_key H i = H (GOV_REF_TAG @ le_of_nat 8 (unat i))"

definition gov_action_key :: "hash \<Rightarrow> u64 \<Rightarrow> bytes" where
  "gov_action_key H i = H (GOV_ACTION_TAG @ le_of_nat 8 (unat i))"

definition gov_deposit_key :: "hash \<Rightarrow> u8 \<Rightarrow> bytes" where
  "gov_deposit_key H code = H (GOV_DEPOSIT_TAG @ [code])"

definition gov_electorate_key :: "hash \<Rightarrow> u64 \<Rightarrow> bytes" where
  "gov_electorate_key H i = H (GOV_ELECTORATE_TAG @ le_of_nat 8 (unat i))"

definition gov_ballot_key :: "hash \<Rightarrow> u64 \<Rightarrow> bytes \<Rightarrow> bytes" where
  "gov_ballot_key H referendum voter = H (GOV_BALLOT_TAG @ le_of_nat 8 (unat referendum) @ voter)"

definition gov_lock_key :: "hash \<Rightarrow> bytes \<Rightarrow> bytes" where
  "gov_lock_key H voter = H (GOV_LOCK_TAG @ voter)"

definition contract_code_key :: "hash \<Rightarrow> bytes \<Rightarrow> bytes" where
  "contract_code_key H i = H (VM_CODE_TAG @ i)"

definition contract_store_key :: "hash \<Rightarrow> bytes \<Rightarrow> bytes" where
  "contract_store_key H i = H (VM_STORE_TAG @ i)"

definition contract_context_version_key :: "hash \<Rightarrow> bytes \<Rightarrow> bytes" where
  "contract_context_version_key H i = H (VM_CONTEXT_VERSION_TAG @ i)"

definition SLOT_PREFIX_BYTES :: nat where "SLOT_PREFIX_BYTES = 8"

definition contract_slot_prefix :: "hash \<Rightarrow> bytes \<Rightarrow> bytes" where
  "contract_slot_prefix H i = take SLOT_PREFIX_BYTES (H (VM_SLOT_TAG @ i))"

definition contract_slot_key :: "hash \<Rightarrow> bytes \<Rightarrow> bytes \<Rightarrow> bytes" where
  "contract_slot_key H i slot =
     contract_slot_prefix H i @ drop SLOT_PREFIX_BYTES (H (VM_SLOT_TAG @ i @ slot))"

definition asset_id_of :: "hash \<Rightarrow> bytes \<Rightarrow> bytes" where
  "asset_id_of H issuer = take 16 (H (ASSET_ID_DOMAIN @ issuer))"

definition bridge_burn_ref ::
  "hash \<Rightarrow> u64 \<Rightarrow> bytes \<Rightarrow> bytes \<Rightarrow> bytes \<Rightarrow> u128 \<Rightarrow> bytes \<Rightarrow> u64 \<Rightarrow> u64 \<Rightarrow> bytes" where
  "bridge_burn_ref H chain_id genesis asset_id holder amount destination sender_nonce event_index =
     H (puts [put_bytes BRIDGE_BURN_REF_DOMAIN, put_u64 chain_id, put_bytes genesis,
       put_bytes asset_id, put_bytes holder, put_u128 amount, put_bytes destination,
       put_u64 sender_nonce, put_u64 event_index] [])"

section \<open>Addresses\<close>

text \<open>
  The digest has 32 bytes by its type, so rendering it does not fail (\<open>cached_address_parses\<close>).
\<close>

definition cached_address :: "hash \<Rightarrow> bytes \<Rightarrow> bytes" where
  "cached_address H tag = (case render_address (H tag) of Some (Inr a) \<Rightarrow> a | _ \<Rightarrow> [])"

definition evidence_address :: "hash \<Rightarrow> bytes" where
  "evidence_address H = cached_address H (ascii ''qtv/evidence'')"

definition registration_address :: "hash \<Rightarrow> bytes" where
  "registration_address H = cached_address H (ascii ''qtv/registration'')"

definition stake_system_address :: "hash \<Rightarrow> bytes" where
  "stake_system_address H = cached_address H (ascii ''qtv/stake/system'')"

definition stake_claim_address :: "hash \<Rightarrow> bytes" where
  "stake_claim_address H = cached_address H (ascii ''qtv/stake/claim'')"

definition stake_exit_address :: "hash \<Rightarrow> bytes" where
  "stake_exit_address H = cached_address H (ascii ''qtv/stake/exit'')"

definition stake_payee_address :: "hash \<Rightarrow> bytes" where
  "stake_payee_address H = cached_address H (ascii ''qtv/stake/payee'')"

definition stake_withdraw_address :: "hash \<Rightarrow> bytes" where
  "stake_withdraw_address H = cached_address H (ascii ''qtv/stake/withdraw'')"

definition grants_address :: "hash \<Rightarrow> bytes" where
  "grants_address H = cached_address H (ascii ''qtv/gov/grants'')"

definition stake_treasury_address :: "hash \<Rightarrow> bytes" where
  "stake_treasury_address H = cached_address H STAKE_TREASURY_TAG"

definition gov_system_address :: "hash \<Rightarrow> bytes" where
  "gov_system_address H = cached_address H (ascii ''qtv/gov/system'')"

definition key_register_address :: "hash \<Rightarrow> bytes" where
  "key_register_address H = cached_address H (ascii ''qtv/key/register'')"

definition bridge_freeze_address :: "hash \<Rightarrow> bytes" where
  "bridge_freeze_address H = cached_address H (ascii ''qtv/bridge/freeze/system'')"

definition bridge_unfreeze_address :: "hash \<Rightarrow> bytes" where
  "bridge_unfreeze_address H = cached_address H (ascii ''qtv/bridge/unfreeze/system'')"

definition bridge_bond_address :: "hash \<Rightarrow> bytes" where
  "bridge_bond_address H = cached_address H (ascii ''qtv/bridge/bond'')"

definition bridge_guardian_address :: "hash \<Rightarrow> bytes" where
  "bridge_guardian_address H = cached_address H (ascii ''qtv/bridge/guardian/system'')"

definition bridge_mint_address :: "hash \<Rightarrow> bytes" where
  "bridge_mint_address H = cached_address H (ascii ''qtv/bridge/mint/system'')"

definition bridge_exit_address :: "hash \<Rightarrow> bytes" where
  "bridge_exit_address H = cached_address H (ascii ''qtv/bridge/exit/system'')"

definition bridge_settle_address :: "hash \<Rightarrow> bytes" where
  "bridge_settle_address H = cached_address H (ascii ''qtv/bridge/settle/system'')"

definition vm_deploy_address :: "hash \<Rightarrow> bytes" where
  "vm_deploy_address H = cached_address H (ascii ''qtv/vm/deploy'')"

definition address_id :: "bytes \<Rightarrow> bytes option" where
  "address_id address =
     (case parse_address address of
        Inl _ \<Rightarrow> None
      | Inr payload \<Rightarrow> if length payload \<noteq> KEY_LEN then None else Some payload)"

definition id_bytes_to_address :: "bytes \<Rightarrow> bytes option" where
  "id_bytes_to_address i =
     (if length i \<noteq> KEY_LEN then None
      else case render_address i of Some (Inr a) \<Rightarrow> Some a | _ \<Rightarrow> None)"

definition id_from_slice :: "bytes \<Rightarrow> bytes option" where
  "id_from_slice i = (if length i \<noteq> KEY_LEN then None else Some i)"

definition reserved_pots :: "bytes list" where
  "reserved_pots = map ascii
    [''qtv/gov/grants'', ''qtv/stake/treasury'', ''qtv/stake/pool'', ''qtv/stake/system'',
     ''qtv/gov/system'', ''qtv/bridge/bond'', ''qtv/ecosystem/marketing'',
     ''qtv/ecosystem/market-maker'', ''qtv/ecosystem/foundation'']"

definition is_reserved_pot :: "hash \<Rightarrow> bytes \<Rightarrow> bool" where
  "is_reserved_pot H i \<longleftrightarrow> list_ex (\<lambda>tag. H tag = i) reserved_pots"

definition contract_address :: "hash \<Rightarrow> bytes \<Rightarrow> u64 \<Rightarrow> bytes option" where
  "contract_address H deployer nonce =
     (case address_id deployer of
        None \<Rightarrow> None
      | Some i \<Rightarrow>
          (case render_address (H (ascii ''qtv/vm/contract/'' @ i @ le_of_nat 8 (unat nonce))) of
             Some (Inr a) \<Rightarrow> Some a | _ \<Rightarrow> None))"

section \<open>Leaves\<close>

datatype (plugins only: ) singleton =
    StakePool
  | StakeTreasury
  | Supply
  | StakePrice
  | StakeMainnet
  | StakeMeter
  | StakeValidators
  | StakeTotal
  | StakeTotalActive
  | StakeTotalRaised
  | BridgeOperators
  | GuardianEnactNonce
  | GuardianPendingEnact
  | BridgeAssetList
  | BridgeDestchain
  | BridgeEra
  | ChainGenesisTime
  | ChainGenesisHash
  | BridgeEpoch
  | GovNext
  | GovLocked
  | GovGuardian
  | GovGuardianEpoch
  | GovGuardianFreezeTargets
  | BridgeFreeze
  | BridgeLastLift
  | BridgeLastFreezer
  | BridgeVault
  | BridgeGateway
  | BridgeExits
  | BridgeExitMax
  | BridgeFederated
  | BridgePayoutcap

datatype (plugins only: ) leaf =
    Acct bytes
  | AcctUnparsed bytes
  | Single singleton
  | StakePayee bytes
  | StakeBond bytes
  | StakeRewards bytes
  | BridgeAsset bytes
  | BridgeBalance bytes bytes
  | AssetBalance bytes bytes
  | AssetMintCeiling bytes
  | AssetSupply bytes
  | BridgeSeen u32 bytes
  | FeatureGate bytes
  | VaultCustody bytes bytes
  | GovMintPeriod u64
  | BridgeEpochMint bytes u64
  | BridgeExitSeen bytes
  | BridgeOutstanding bytes
  | BridgeEpochPay bytes u64
  | BridgeEpochPayGlobal u64
  | StakeBanned bytes
  | StakeAttest bytes
  | GovBlacklist bytes
  | GovFreeze bytes
  | GovStoppedAsset bytes
  | GovReceipt u64
  | GovRef u64
  | GovAction u64
  | GovDeposit u8
  | GovElectorate u64
  | GovBallot u64 bytes
  | GovLock bytes
  | VmCode bytes
  | VmStore bytes
  | VmContextVersion bytes
  | VmSlot bytes bytes

fun singleton_tag :: "singleton \<Rightarrow> bytes" where
  "singleton_tag StakePool = STAKE_POOL_TAG"
| "singleton_tag StakeTreasury = STAKE_TREASURY_TAG"
| "singleton_tag Supply = SUPPLY_TAG"
| "singleton_tag StakePrice = STAKE_PRICE_TAG"
| "singleton_tag StakeMainnet = STAKE_MAINNET_TAG"
| "singleton_tag StakeMeter = STAKE_METER_TAG"
| "singleton_tag StakeValidators = STAKE_VALIDATORS_TAG"
| "singleton_tag StakeTotal = STAKE_TOTAL_TAG"
| "singleton_tag StakeTotalActive = STAKE_TOTAL_ACTIVE_TAG"
| "singleton_tag StakeTotalRaised = STAKE_TOTAL_RAISED_TAG"
| "singleton_tag BridgeOperators = BRIDGE_OPERATORS_TAG"
| "singleton_tag GuardianEnactNonce = GUARDIAN_ENACT_NONCE_TAG"
| "singleton_tag GuardianPendingEnact = GUARDIAN_PENDING_ENACT_TAG"
| "singleton_tag BridgeAssetList = BRIDGE_ASSET_LIST_TAG"
| "singleton_tag BridgeDestchain = BRIDGE_DESTCHAIN_TAG"
| "singleton_tag BridgeEra = BRIDGE_ERA_TAG"
| "singleton_tag ChainGenesisTime = CHAIN_GENESIS_TIME_TAG"
| "singleton_tag ChainGenesisHash = CHAIN_GENESIS_HASH_TAG"
| "singleton_tag BridgeEpoch = BRIDGE_EPOCH_TAG"
| "singleton_tag GovNext = GOV_NEXT_TAG"
| "singleton_tag GovLocked = GOV_LOCKED_TAG"
| "singleton_tag GovGuardian = GOV_GUARDIAN_TAG"
| "singleton_tag GovGuardianEpoch = GOV_GUARDIAN_EPOCH_TAG"
| "singleton_tag GovGuardianFreezeTargets = GOV_GUARDIAN_FREEZE_TARGETS_TAG"
| "singleton_tag BridgeFreeze = BRIDGE_FREEZE_TAG"
| "singleton_tag BridgeLastLift = BRIDGE_LAST_LIFT_TAG"
| "singleton_tag BridgeLastFreezer = BRIDGE_LAST_FREEZER_TAG"
| "singleton_tag BridgeVault = BRIDGE_VAULT_TAG"
| "singleton_tag BridgeGateway = BRIDGE_GATEWAY_TAG"
| "singleton_tag BridgeExits = BRIDGE_EXITS_TAG"
| "singleton_tag BridgeExitMax = BRIDGE_EXIT_MAX_TAG"
| "singleton_tag BridgeFederated = BRIDGE_FEDERATED_TAG"
| "singleton_tag BridgePayoutcap = BRIDGE_PAYOUTCAP_TAG"

fun leaf_key :: "hash \<Rightarrow> leaf \<Rightarrow> bytes" where
  "leaf_key H (Acct payload) = H (ACCOUNT_TAG @ payload)"
| "leaf_key H (AcctUnparsed address) = H (ACCOUNT_UNPARSED_TAG @ address)"
| "leaf_key H (Single s) = stake_singleton_key H (singleton_tag s)"
| "leaf_key H (StakePayee i) = stake_payee_key H i"
| "leaf_key H (StakeBond i) = stake_bond_key H i"
| "leaf_key H (StakeRewards i) = stake_rewards_key H i"
| "leaf_key H (BridgeAsset asset_id) = bridge_asset_key H asset_id"
| "leaf_key H (BridgeBalance asset_id holder) = bridge_balance_key H asset_id holder"
| "leaf_key H (AssetBalance asset_id holder) = asset_balance_key H asset_id holder"
| "leaf_key H (AssetMintCeiling asset_id) = asset_mint_ceiling_key H asset_id"
| "leaf_key H (AssetSupply asset_id) = asset_supply_key H asset_id"
| "leaf_key H (BridgeSeen source_chain source_ref) = bridge_seen_key H source_chain source_ref"
| "leaf_key H (FeatureGate feature) = feature_gate_key H feature"
| "leaf_key H (VaultCustody vault asset_id) = bridge_vault_custody_key H vault asset_id"
| "leaf_key H (GovMintPeriod period) = gov_mint_period_key H period"
| "leaf_key H (BridgeEpochMint asset_id epoch) = bridge_epochmint_key H asset_id epoch"
| "leaf_key H (BridgeExitSeen burn_ref) = bridge_exit_seen_key H burn_ref"
| "leaf_key H (BridgeOutstanding burn_ref) = bridge_outstanding_key H burn_ref"
| "leaf_key H (BridgeEpochPay asset_id epoch) = bridge_epochpay_key H asset_id epoch"
| "leaf_key H (BridgeEpochPayGlobal epoch) = bridge_epochpay_global_key H epoch"
| "leaf_key H (StakeBanned i) = stake_banned_key H i"
| "leaf_key H (StakeAttest i) = stake_attest_key H i"
| "leaf_key H (GovBlacklist i) = gov_blacklist_key H i"
| "leaf_key H (GovFreeze i) = gov_freeze_key H i"
| "leaf_key H (GovStoppedAsset asset_id) = gov_stopped_asset_key H asset_id"
| "leaf_key H (GovReceipt i) = gov_receipt_key H i"
| "leaf_key H (GovRef i) = gov_referendum_key H i"
| "leaf_key H (GovAction i) = gov_action_key H i"
| "leaf_key H (GovDeposit code) = gov_deposit_key H code"
| "leaf_key H (GovElectorate i) = gov_electorate_key H i"
| "leaf_key H (GovBallot referendum voter) = gov_ballot_key H referendum voter"
| "leaf_key H (GovLock voter) = gov_lock_key H voter"
| "leaf_key H (VmCode i) = contract_code_key H i"
| "leaf_key H (VmStore i) = contract_store_key H i"
| "leaf_key H (VmContextVersion i) = contract_context_version_key H i"
| "leaf_key H (VmSlot i slot) = contract_slot_key H i slot"

definition state_leaf :: "bytes \<Rightarrow> leaf" where
  "state_leaf address =
     (case parse_address address of Inr payload \<Rightarrow> Acct payload | Inl _ \<Rightarrow> AcctUnparsed address)"

definition state_key :: "hash \<Rightarrow> bytes \<Rightarrow> bytes" where
  "state_key H address = leaf_key H (state_leaf address)"

text \<open>The sizes of the identifiers, arrays in the source.\<close>

fun leaf_ok :: "leaf \<Rightarrow> bool" where
  "leaf_ok (Acct payload) \<longleftrightarrow> True"
| "leaf_ok (AcctUnparsed address) \<longleftrightarrow> True"
| "leaf_ok (Single s) \<longleftrightarrow> True"
| "leaf_ok (StakePayee i) \<longleftrightarrow> length i = 32"
| "leaf_ok (StakeBond i) \<longleftrightarrow> length i = 32"
| "leaf_ok (StakeRewards i) \<longleftrightarrow> length i = 32"
| "leaf_ok (BridgeAsset asset_id) \<longleftrightarrow> length asset_id = 16"
| "leaf_ok (BridgeBalance asset_id holder) \<longleftrightarrow> length asset_id = 16 \<and> length holder = 32"
| "leaf_ok (AssetBalance asset_id holder) \<longleftrightarrow> length asset_id = 16 \<and> length holder = 32"
| "leaf_ok (AssetMintCeiling asset_id) \<longleftrightarrow> length asset_id = 16"
| "leaf_ok (AssetSupply asset_id) \<longleftrightarrow> length asset_id = 16"
| "leaf_ok (BridgeSeen _ source_ref) \<longleftrightarrow> length source_ref = 32"
| "leaf_ok (FeatureGate _) \<longleftrightarrow> True"
| "leaf_ok (VaultCustody vault asset_id) \<longleftrightarrow> length vault = 32 \<and> length asset_id = 16"
| "leaf_ok (GovMintPeriod _) \<longleftrightarrow> True"
| "leaf_ok (BridgeEpochMint asset_id _) \<longleftrightarrow> length asset_id = 16"
| "leaf_ok (BridgeExitSeen burn_ref) \<longleftrightarrow> length burn_ref = 32"
| "leaf_ok (BridgeOutstanding burn_ref) \<longleftrightarrow> length burn_ref = 32"
| "leaf_ok (BridgeEpochPay asset_id _) \<longleftrightarrow> length asset_id = 16"
| "leaf_ok (BridgeEpochPayGlobal _) \<longleftrightarrow> True"
| "leaf_ok (StakeBanned i) \<longleftrightarrow> length i = 32"
| "leaf_ok (StakeAttest i) \<longleftrightarrow> length i = 32"
| "leaf_ok (GovBlacklist i) \<longleftrightarrow> length i = 32"
| "leaf_ok (GovFreeze i) \<longleftrightarrow> length i = 32"
| "leaf_ok (GovStoppedAsset asset_id) \<longleftrightarrow> length asset_id = 16"
| "leaf_ok (GovReceipt _) \<longleftrightarrow> True"
| "leaf_ok (GovRef _) \<longleftrightarrow> True"
| "leaf_ok (GovAction _) \<longleftrightarrow> True"
| "leaf_ok (GovDeposit _) \<longleftrightarrow> True"
| "leaf_ok (GovElectorate _) \<longleftrightarrow> True"
| "leaf_ok (GovBallot _ voter) \<longleftrightarrow> length voter = 32"
| "leaf_ok (GovLock voter) \<longleftrightarrow> length voter = 32"
| "leaf_ok (VmCode i) \<longleftrightarrow> length i = 32"
| "leaf_ok (VmStore i) \<longleftrightarrow> length i = 32"
| "leaf_ok (VmContextVersion i) \<longleftrightarrow> length i = 32"
| "leaf_ok (VmSlot i slot) \<longleftrightarrow> length i = 32 \<and> length slot = 32"

section \<open>The hashed strings\<close>

fun leaf_tag :: "leaf \<Rightarrow> bytes" where
  "leaf_tag (Acct _) = ACCOUNT_TAG"
| "leaf_tag (AcctUnparsed _) = ACCOUNT_UNPARSED_TAG"
| "leaf_tag (Single s) = singleton_tag s"
| "leaf_tag (StakePayee _) = STAKE_PAYEE_TAG"
| "leaf_tag (StakeBond _) = STAKE_BOND_TAG"
| "leaf_tag (StakeRewards _) = STAKE_REWARDS_TAG"
| "leaf_tag (BridgeAsset _) = BRIDGE_ASSET_TAG"
| "leaf_tag (BridgeBalance _ _) = BRIDGE_BALANCE_TAG"
| "leaf_tag (AssetBalance _ _) = ASSET_BALANCE_TAG"
| "leaf_tag (AssetMintCeiling _) = ASSET_MINT_CEILING_TAG"
| "leaf_tag (AssetSupply _) = ASSET_SUPPLY_TAG"
| "leaf_tag (BridgeSeen _ _) = BRIDGE_SEEN_TAG"
| "leaf_tag (FeatureGate _) = GOV_FEATURE_TAG"
| "leaf_tag (VaultCustody _ _) = BRIDGE_VAULTBAL_TAG"
| "leaf_tag (GovMintPeriod _) = GOV_MINT_PERIOD_TAG"
| "leaf_tag (BridgeEpochMint _ _) = BRIDGE_EPOCHMINT_TAG"
| "leaf_tag (BridgeExitSeen _) = BRIDGE_EXIT_SEEN_TAG"
| "leaf_tag (BridgeOutstanding _) = BRIDGE_OUTSTANDING_TAG"
| "leaf_tag (BridgeEpochPay _ _) = BRIDGE_EPOCHPAY_TAG"
| "leaf_tag (BridgeEpochPayGlobal _) = BRIDGE_EPOCHPAYG_TAG"
| "leaf_tag (StakeBanned _) = STAKE_BANNED_TAG"
| "leaf_tag (StakeAttest _) = STAKE_ATTEST_TAG"
| "leaf_tag (GovBlacklist _) = GOV_BLACKLIST_TAG"
| "leaf_tag (GovFreeze _) = GOV_FREEZE_TAG"
| "leaf_tag (GovStoppedAsset _) = GOV_STOPPED_ASSET_TAG"
| "leaf_tag (GovReceipt _) = GOV_RECEIPT_TAG"
| "leaf_tag (GovRef _) = GOV_REF_TAG"
| "leaf_tag (GovAction _) = GOV_ACTION_TAG"
| "leaf_tag (GovDeposit _) = GOV_DEPOSIT_TAG"
| "leaf_tag (GovElectorate _) = GOV_ELECTORATE_TAG"
| "leaf_tag (GovBallot _ _) = GOV_BALLOT_TAG"
| "leaf_tag (GovLock _) = GOV_LOCK_TAG"
| "leaf_tag (VmCode _) = VM_CODE_TAG"
| "leaf_tag (VmStore _) = VM_STORE_TAG"
| "leaf_tag (VmContextVersion _) = VM_CONTEXT_VERSION_TAG"
| "leaf_tag (VmSlot _ _) = VM_SLOT_TAG"

fun leaf_body :: "leaf \<Rightarrow> bytes" where
  "leaf_body (Acct payload) = payload"
| "leaf_body (AcctUnparsed address) = address"
| "leaf_body (Single s) = []"
| "leaf_body (StakePayee i) = i"
| "leaf_body (StakeBond i) = i"
| "leaf_body (StakeRewards i) = i"
| "leaf_body (BridgeAsset asset_id) = asset_id"
| "leaf_body (BridgeBalance asset_id holder) = asset_id @ holder"
| "leaf_body (AssetBalance asset_id holder) = asset_id @ holder"
| "leaf_body (AssetMintCeiling asset_id) = asset_id"
| "leaf_body (AssetSupply asset_id) = asset_id"
| "leaf_body (BridgeSeen source_chain source_ref) = le_of_nat 4 (unat source_chain) @ source_ref"
| "leaf_body (FeatureGate feature) = feature"
| "leaf_body (VaultCustody vault asset_id) = vault @ asset_id"
| "leaf_body (GovMintPeriod period) = le_of_nat 8 (unat period)"
| "leaf_body (BridgeEpochMint asset_id epoch) = asset_id @ le_of_nat 8 (unat epoch)"
| "leaf_body (BridgeExitSeen burn_ref) = burn_ref"
| "leaf_body (BridgeOutstanding burn_ref) = burn_ref"
| "leaf_body (BridgeEpochPay asset_id epoch) = asset_id @ le_of_nat 8 (unat epoch)"
| "leaf_body (BridgeEpochPayGlobal epoch) = le_of_nat 8 (unat epoch)"
| "leaf_body (StakeBanned i) = i"
| "leaf_body (StakeAttest i) = i"
| "leaf_body (GovBlacklist i) = i"
| "leaf_body (GovFreeze i) = i"
| "leaf_body (GovStoppedAsset asset_id) = asset_id"
| "leaf_body (GovReceipt i) = le_of_nat 8 (unat i)"
| "leaf_body (GovRef i) = le_of_nat 8 (unat i)"
| "leaf_body (GovAction i) = le_of_nat 8 (unat i)"
| "leaf_body (GovDeposit code) = [code]"
| "leaf_body (GovElectorate i) = le_of_nat 8 (unat i)"
| "leaf_body (GovBallot referendum voter) = le_of_nat 8 (unat referendum) @ voter"
| "leaf_body (GovLock voter) = voter"
| "leaf_body (VmCode i) = i"
| "leaf_body (VmStore i) = i"
| "leaf_body (VmContextVersion i) = i"
| "leaf_body (VmSlot i slot) = i @ slot"

fun singleton_index :: "singleton \<Rightarrow> nat" where
  "singleton_index StakePool = 0"
| "singleton_index StakeTreasury = 1"
| "singleton_index Supply = 2"
| "singleton_index StakePrice = 3"
| "singleton_index StakeMainnet = 4"
| "singleton_index StakeMeter = 5"
| "singleton_index StakeValidators = 6"
| "singleton_index StakeTotal = 7"
| "singleton_index StakeTotalActive = 8"
| "singleton_index StakeTotalRaised = 9"
| "singleton_index BridgeOperators = 10"
| "singleton_index GuardianEnactNonce = 11"
| "singleton_index GuardianPendingEnact = 12"
| "singleton_index BridgeAssetList = 13"
| "singleton_index BridgeDestchain = 14"
| "singleton_index BridgeEra = 15"
| "singleton_index ChainGenesisTime = 16"
| "singleton_index ChainGenesisHash = 17"
| "singleton_index BridgeEpoch = 18"
| "singleton_index GovNext = 19"
| "singleton_index GovLocked = 20"
| "singleton_index GovGuardian = 21"
| "singleton_index GovGuardianEpoch = 22"
| "singleton_index GovGuardianFreezeTargets = 23"
| "singleton_index BridgeFreeze = 24"
| "singleton_index BridgeLastLift = 25"
| "singleton_index BridgeLastFreezer = 26"
| "singleton_index BridgeVault = 27"
| "singleton_index BridgeGateway = 28"
| "singleton_index BridgeExits = 29"
| "singleton_index BridgeExitMax = 30"
| "singleton_index BridgeFederated = 31"
| "singleton_index BridgePayoutcap = 32"

fun leaf_index :: "leaf \<Rightarrow> nat" where
  "leaf_index (Acct _) = 0"
| "leaf_index (AcctUnparsed _) = 1"
| "leaf_index (Single s) = 35 + singleton_index s"
| "leaf_index (StakePayee _) = 2"
| "leaf_index (StakeBond _) = 3"
| "leaf_index (StakeRewards _) = 4"
| "leaf_index (BridgeAsset _) = 5"
| "leaf_index (BridgeBalance _ _) = 6"
| "leaf_index (AssetBalance _ _) = 7"
| "leaf_index (AssetMintCeiling _) = 8"
| "leaf_index (AssetSupply _) = 9"
| "leaf_index (BridgeSeen _ _) = 10"
| "leaf_index (FeatureGate _) = 11"
| "leaf_index (VaultCustody _ _) = 12"
| "leaf_index (GovMintPeriod _) = 13"
| "leaf_index (BridgeEpochMint _ _) = 14"
| "leaf_index (BridgeExitSeen _) = 15"
| "leaf_index (BridgeOutstanding _) = 16"
| "leaf_index (BridgeEpochPay _ _) = 17"
| "leaf_index (BridgeEpochPayGlobal _) = 18"
| "leaf_index (StakeBanned _) = 19"
| "leaf_index (StakeAttest _) = 20"
| "leaf_index (GovBlacklist _) = 21"
| "leaf_index (GovFreeze _) = 22"
| "leaf_index (GovStoppedAsset _) = 23"
| "leaf_index (GovReceipt _) = 24"
| "leaf_index (GovRef _) = 25"
| "leaf_index (GovAction _) = 26"
| "leaf_index (GovDeposit _) = 27"
| "leaf_index (GovElectorate _) = 28"
| "leaf_index (GovBallot _ _) = 29"
| "leaf_index (GovLock _) = 30"
| "leaf_index (VmCode _) = 31"
| "leaf_index (VmStore _) = 32"
| "leaf_index (VmContextVersion _) = 33"
| "leaf_index (VmSlot _ _) = 34"

definition keyed_tags :: "bytes list" where
  "keyed_tags =
    [ACCOUNT_TAG, ACCOUNT_UNPARSED_TAG, STAKE_PAYEE_TAG, STAKE_BOND_TAG, STAKE_REWARDS_TAG,
     BRIDGE_ASSET_TAG, BRIDGE_BALANCE_TAG, ASSET_BALANCE_TAG, ASSET_MINT_CEILING_TAG,
     ASSET_SUPPLY_TAG, BRIDGE_SEEN_TAG, GOV_FEATURE_TAG, BRIDGE_VAULTBAL_TAG,
     GOV_MINT_PERIOD_TAG, BRIDGE_EPOCHMINT_TAG, BRIDGE_EXIT_SEEN_TAG, BRIDGE_OUTSTANDING_TAG,
     BRIDGE_EPOCHPAY_TAG, BRIDGE_EPOCHPAYG_TAG, STAKE_BANNED_TAG, STAKE_ATTEST_TAG,
     GOV_BLACKLIST_TAG, GOV_FREEZE_TAG, GOV_STOPPED_ASSET_TAG, GOV_RECEIPT_TAG, GOV_REF_TAG,
     GOV_ACTION_TAG, GOV_DEPOSIT_TAG, GOV_ELECTORATE_TAG, GOV_BALLOT_TAG, GOV_LOCK_TAG,
     VM_CODE_TAG, VM_STORE_TAG, VM_CONTEXT_VERSION_TAG, VM_SLOT_TAG]"

definition keyed_names :: "string list" where
  "keyed_names =
    [''qtv/account/'', ''qtv/account-unparsed/'', ''qtv/stake/payee/'', ''qtv/stake/bond/'',
     ''qtv/stake/rewards/'', ''qtv/bridge/asset/'', ''qtv/bridge/bal/'', ''qtv/asset/bal/'',
     ''qtv/asset/mint-ceiling'', ''qtv/asset/supply/'', ''qtv/bridge/seen/'',
     ''qtv/gov/feature/'', ''qtv/bridge/vaultbal/'', ''qtv/gov/mint-period/'',
     ''qtv/bridge/epochmint/'', ''qtv/bridge/exitseen/'', ''qtv/bridge/outstanding/'',
     ''qtv/bridge/epochpay/'', ''qtv/bridge/epochpayglobal/'', ''qtv/stake/banned/'',
     ''qtv/stake/attest/'', ''qtv/gov/blacklist/'', ''qtv/gov/freeze/'',
     ''qtv/gov/stopped/asset/'', ''qtv/gov/receipt/'', ''qtv/gov/ref/'', ''qtv/gov/action/'',
     ''qtv/gov/deposit'', ''qtv/gov/electorate/'', ''qtv/gov/ballot/'', ''qtv/gov/lock/'',
     ''qtv/vm/code/'', ''qtv/vm/store/'', ''qtv/vm/ctxver/'', ''qtv/vm/slot/'']"

definition singleton_names :: "string list" where
  "singleton_names =
    [''qtv/stake/pool'', ''qtv/stake/treasury'', ''qtv/supply'', ''qtv/stake/price'',
     ''qtv/stake/mainnet'', ''qtv/stake/meter'', ''qtv/stake/validators'',
     ''qtv/stake/total'', ''qtv/stake/total/active'', ''qtv/stake/total/raised'',
     ''qtv/bridge/operators'', ''qtv/guardian/enact-nonce'', ''qtv/guardian/pending-enact'',
     ''qtv/bridge/assetlist'', ''qtv/bridge/destchain'', ''qtv/bridge/era'',
     ''qtv/chain/genesistime'', ''qtv/chain/genesishash'', ''qtv/bridge/epoch'',
     ''qtv/gov/next'', ''qtv/gov/locked'', ''qtv/gov/guardians'', ''qtv/gov/guardian/epoch'',
     ''qtv/gov/guardian/freeze/targets'', ''qtv/bridge/freeze'', ''qtv/bridge/lastlift'',
     ''qtv/bridge/lastfreezer'', ''qtv/bridge/vault'', ''qtv/bridge/gateway'',
     ''qtv/bridge/exits'', ''qtv/bridge/exit-max'', ''qtv/bridge/federated'',
     ''qtv/bridge/payoutcap'']"

definition singleton_tags :: "bytes list" where
  "singleton_tags =
    [STAKE_POOL_TAG, STAKE_TREASURY_TAG, SUPPLY_TAG, STAKE_PRICE_TAG, STAKE_MAINNET_TAG,
     STAKE_METER_TAG, STAKE_VALIDATORS_TAG, STAKE_TOTAL_TAG, STAKE_TOTAL_ACTIVE_TAG,
     STAKE_TOTAL_RAISED_TAG, BRIDGE_OPERATORS_TAG, GUARDIAN_ENACT_NONCE_TAG,
     GUARDIAN_PENDING_ENACT_TAG, BRIDGE_ASSET_LIST_TAG, BRIDGE_DESTCHAIN_TAG, BRIDGE_ERA_TAG,
     CHAIN_GENESIS_TIME_TAG, CHAIN_GENESIS_HASH_TAG, BRIDGE_EPOCH_TAG, GOV_NEXT_TAG,
     GOV_LOCKED_TAG, GOV_GUARDIAN_TAG, GOV_GUARDIAN_EPOCH_TAG,
     GOV_GUARDIAN_FREEZE_TARGETS_TAG, BRIDGE_FREEZE_TAG, BRIDGE_LAST_LIFT_TAG,
     BRIDGE_LAST_FREEZER_TAG, BRIDGE_VAULT_TAG, BRIDGE_GATEWAY_TAG, BRIDGE_EXITS_TAG,
     BRIDGE_EXIT_MAX_TAG, BRIDGE_FEDERATED_TAG, BRIDGE_PAYOUTCAP_TAG]"

lemmas leaf_key_defs = stake_singleton_key_def stake_payee_key_def
  stake_bond_key_def
  stake_rewards_key_def
  bridge_asset_key_def
  bridge_balance_key_def
  asset_balance_key_def
  asset_mint_ceiling_key_def
  asset_supply_key_def
  bridge_seen_key_def
  feature_gate_key_def
  bridge_vault_custody_key_def
  gov_mint_period_key_def
  bridge_epochmint_key_def
  bridge_exit_seen_key_def
  bridge_outstanding_key_def
  bridge_epochpay_key_def
  bridge_epochpay_global_key_def
  stake_banned_key_def
  stake_attest_key_def
  gov_blacklist_key_def
  gov_freeze_key_def
  gov_stopped_asset_key_def
  gov_receipt_key_def
  gov_referendum_key_def
  gov_action_key_def
  gov_deposit_key_def
  gov_electorate_key_def
  gov_ballot_key_def
  gov_lock_key_def
  contract_code_key_def
  contract_store_key_def
  contract_context_version_key_def

lemma leaf_key_eq: "leaf_key (\<lambda>x. x) l = leaf_tag l @ leaf_body l"
  by (cases l) (simp_all add: leaf_key_defs contract_slot_key_def contract_slot_prefix_def SLOT_PREFIX_BYTES_def
      VM_SLOT_TAG_def ascii_def)

lemma leaf_tag_index: "leaf_tag l = (keyed_tags @ singleton_tags) ! leaf_index l"
  and leaf_index_bound: "leaf_index l < length (keyed_tags @ singleton_tags)"
proof -
  have s: "singleton_tag s = singleton_tags ! singleton_index s \<and> singleton_index s < length singleton_tags" for s
    by (cases s) (simp_all add: singleton_tags_def)
  have "leaf_tag l = (keyed_tags @ singleton_tags) ! leaf_index l \<and>
      leaf_index l < length (keyed_tags @ singleton_tags)"
  proof (cases l)
    case (Single x)
    with s [of x] show ?thesis by (simp add: keyed_tags_def nth_append)
  qed (simp_all add: keyed_tags_def nth_append)
  then show "leaf_tag l = (keyed_tags @ singleton_tags) ! leaf_index l"
    and "leaf_index l < length (keyed_tags @ singleton_tags)" by simp_all
qed

lemmas tag_bytes = ACCOUNT_TAG_def ACCOUNT_UNPARSED_TAG_def STAKE_PAYEE_TAG_def STAKE_BOND_TAG_def
  STAKE_REWARDS_TAG_def BRIDGE_ASSET_TAG_def BRIDGE_BALANCE_TAG_def ASSET_BALANCE_TAG_def
  ASSET_MINT_CEILING_TAG_def ASSET_SUPPLY_TAG_def BRIDGE_SEEN_TAG_def GOV_FEATURE_TAG_def
  BRIDGE_VAULTBAL_TAG_def GOV_MINT_PERIOD_TAG_def BRIDGE_EPOCHMINT_TAG_def
  BRIDGE_EXIT_SEEN_TAG_def BRIDGE_OUTSTANDING_TAG_def BRIDGE_EPOCHPAY_TAG_def
  BRIDGE_EPOCHPAYG_TAG_def STAKE_BANNED_TAG_def STAKE_ATTEST_TAG_def GOV_BLACKLIST_TAG_def
  GOV_FREEZE_TAG_def GOV_STOPPED_ASSET_TAG_def GOV_RECEIPT_TAG_def GOV_REF_TAG_def
  GOV_ACTION_TAG_def GOV_DEPOSIT_TAG_def GOV_ELECTORATE_TAG_def GOV_BALLOT_TAG_def
  GOV_LOCK_TAG_def VM_CODE_TAG_def VM_STORE_TAG_def VM_CONTEXT_VERSION_TAG_def VM_SLOT_TAG_def
  STAKE_POOL_TAG_def STAKE_TREASURY_TAG_def SUPPLY_TAG_def STAKE_PRICE_TAG_def
  STAKE_MAINNET_TAG_def STAKE_METER_TAG_def STAKE_VALIDATORS_TAG_def STAKE_TOTAL_TAG_def
  STAKE_TOTAL_ACTIVE_TAG_def STAKE_TOTAL_RAISED_TAG_def BRIDGE_OPERATORS_TAG_def
  GUARDIAN_ENACT_NONCE_TAG_def GUARDIAN_PENDING_ENACT_TAG_def BRIDGE_ASSET_LIST_TAG_def
  BRIDGE_DESTCHAIN_TAG_def BRIDGE_ERA_TAG_def CHAIN_GENESIS_TIME_TAG_def
  CHAIN_GENESIS_HASH_TAG_def BRIDGE_EPOCH_TAG_def GOV_NEXT_TAG_def GOV_LOCKED_TAG_def
  GOV_GUARDIAN_TAG_def GOV_GUARDIAN_EPOCH_TAG_def GOV_GUARDIAN_FREEZE_TARGETS_TAG_def
  BRIDGE_FREEZE_TAG_def BRIDGE_LAST_LIFT_TAG_def BRIDGE_LAST_FREEZER_TAG_def
  BRIDGE_VAULT_TAG_def BRIDGE_GATEWAY_TAG_def BRIDGE_EXITS_TAG_def BRIDGE_EXIT_MAX_TAG_def
  BRIDGE_FEDERATED_TAG_def BRIDGE_PAYOUTCAP_TAG_def

lemma ascii_tags:
  "keyed_tags = map ascii keyed_names" "singleton_tags = map ascii singleton_names"
  by (simp_all only: keyed_tags_def singleton_tags_def keyed_names_def singleton_names_def tag_bytes list.map)

lemma names_prefix_free:
  "list_all (\<lambda>t. list_all (\<lambda>u. \<not> prefix t u \<or> t = u) (keyed_names @ singleton_names)) keyed_names"
  by code_simp

lemma names_distinct: "distinct (keyed_names @ singleton_names)"
  by code_simp

lemma inj_ascii: "inj ascii"
proof -
  have "inj (\<lambda>c. word_of_nat (of_char c) :: u8)"
  proof
    fix a b :: char
    assume "word_of_nat (of_char a) = (word_of_nat (of_char b) :: u8)"
    then have "unat (word_of_nat (of_char a) :: u8) = unat (word_of_nat (of_char b) :: u8)"
      by simp
    then have "(of_char a :: nat) mod 256 = of_char b mod 256"
      by (simp add: unat_of_nat)
    then have "(of_char a :: nat) = of_char b"
      by (simp add: of_char_mod_256)
    then show "a = b" by simp
  qed
  then show ?thesis
    unfolding ascii_def by (intro inj_mapI)
qed

lemma prefix_ascii: "prefix (ascii s) (ascii t) \<longleftrightarrow> prefix s t"
proof
  assume "prefix (ascii s) (ascii t)"
  then have "ascii s = ascii (take (length s) t)"
    unfolding prefix_def by (metis append_eq_conv_conj ascii_def length_map take_map)
  then show "prefix s t"
    using inj_ascii by (metis injD take_is_prefix)
qed (auto simp: ascii_def map_mono_prefix)

lemma tags_prefix_free:
  "t \<in> set keyed_tags \<Longrightarrow> u \<in> set (keyed_tags @ singleton_tags) \<Longrightarrow> prefix t u \<Longrightarrow> t = u"
  using names_prefix_free unfolding ascii_tags
  by (auto simp: list_all_iff prefix_ascii intro: arg_cong [of _ _ ascii])

lemma tags_distinct: "distinct (keyed_tags @ singleton_tags)"
  using names_distinct inj_ascii unfolding ascii_tags map_append [symmetric]
  by (simp only: distinct_map inj_on_subset [OF inj_ascii] subset_UNIV simp_thms)

lemma leaf_index_inject:
  assumes "leaf_index l = leaf_index m" and "leaf_body l = leaf_body m" and "leaf_ok l" and "leaf_ok m"
  shows "l = m"
proof -
  have sing: "singleton_index s = singleton_index s' \<Longrightarrow> s = s'" for s s'
    by (cases s; cases s'; simp)
  have le4: "le_of_nat 4 (unat (a :: u32)) = le_of_nat 4 (unat b) \<longleftrightarrow> a = b" for a b
    using u32c.encoding_prefix_free [of a "[]" b "[]"] by (auto simp: to_bytes_def put_append)
  have le8: "le_of_nat 8 (unat (a :: u64)) = le_of_nat 8 (unat b) \<longleftrightarrow> a = b" for a b
    using u64c.encoding_prefix_free [of a "[]" b "[]"] by (auto simp: to_bytes_def put_append)
  show ?thesis
    using assms by (cases l; cases m; simp add: le4 le8 sing)
qed

lemma keyed_or_single: "leaf_tag l \<in> set keyed_tags \<or> (\<exists>s. l = Single s)"
  by (cases l) (simp_all add: keyed_tags_def)

lemma leaf_tag_mem: "leaf_tag l \<in> set (keyed_tags @ singleton_tags)"
  by (metis leaf_index_bound leaf_tag_index nth_mem)

lemma leaf_tag_eq:
  assumes "leaf_tag l @ leaf_body l = leaf_tag m @ leaf_body m" and "prefix (leaf_tag l) (leaf_tag m)"
  shows "leaf_tag l = leaf_tag m"
proof (cases "leaf_tag l \<in> set keyed_tags")
  case True
  then show ?thesis
    using tags_prefix_free leaf_tag_mem assms(2) by blast
next
  case False
  then obtain s where "l = Single s"
    using keyed_or_single by blast
  with assms show ?thesis
    by (auto simp: prefix_def)
qed

lemma leaf_preimage_inject:
  assumes "leaf_ok l" and "leaf_ok m" and eq: "leaf_tag l @ leaf_body l = leaf_tag m @ leaf_body m"
  shows "l = m"
proof -
  have "prefix (leaf_tag l) (leaf_tag m) \<or> prefix (leaf_tag m) (leaf_tag l)"
    using eq by (metis prefixI prefix_same_cases)
  then have tag: "leaf_tag l = leaf_tag m"
    using leaf_tag_eq [OF eq] leaf_tag_eq [OF eq [symmetric]] by metis
  then have "leaf_index l = leaf_index m"
    using tags_distinct leaf_index_bound by (metis leaf_tag_index nth_eq_iff_index_eq)
  then show ?thesis
    using leaf_index_inject eq tag assms by simp
qed

lemma render_address_total:
  assumes "length p = 32"
  shows "\<exists>a. render_address p = Some (Inr a) \<and> parse_address a = Inr p"
proof -
  obtain t where t: "render_text HRP_ADDRESS p = Some t"
    using render_text_total by blast
  have "length t = 60"
    using render_digest_length [OF t assms] by (simp add: hrp_bytes)
  then have "parse_text HRP_ADDRESS t = Inr p"
    using t render_text_upper [OF t] by (simp add: parse_iff_render valid_hrps MAX_ENCODED_def)
  with t assms show ?thesis
    by (simp add: render_address_def parse_address_def render_checked_def parse_checked_def
        check_digest_def DIGEST_LEN_def)
qed

lemma cached_address_parses: "length (H tag) = 32 \<Longrightarrow> parse_address (cached_address H tag) = Inr (H tag)"
  using render_address_total [of "H tag"] by (auto simp: cached_address_def)

lemma address_id_cached: "length (H tag) = 32 \<Longrightarrow> address_id (cached_address H tag) = Some (H tag)"
  by (simp add: address_id_def cached_address_parses KEY_LEN_def)

lemma address_id_length: "address_id a = Some i \<Longrightarrow> length i = 32"
  by (auto simp: address_id_def KEY_LEN_def split: sum.splits if_splits)

lemma id_bytes_to_address_id:
  "id_bytes_to_address i = Some a \<Longrightarrow> address_id a = Some i \<and> length i = 32"
  using render_address_total [of i]
  by (auto simp: id_bytes_to_address_def address_id_def KEY_LEN_def split: if_splits)

lemma id_bytes_to_address_total: "length i = 32 \<Longrightarrow> \<exists>a. id_bytes_to_address i = Some a"
  using render_address_total [of i] by (auto simp: id_bytes_to_address_def KEY_LEN_def)

section \<open>Claims\<close>



end
