(* ===== verification/Finmap_Sums.thy ===== *)
theory Finmap_Sums
  imports "HOL-Library.Finite_Map"
begin

text \<open>
  Sums over finite maps: \<open>fm_sum f m\<close> adds \<open>f k v\<close> over the entries of \<open>m\<close>, and the update laws
  account for an insertion or a removal by the entry it replaces.
\<close>

definition fm_sum :: "('k \<Rightarrow> 'v \<Rightarrow> nat) \<Rightarrow> ('k, 'v) fmap \<Rightarrow> nat" where
  "fm_sum f m = (\<Sum>k\<in>fset (fmdom m). f k (the (fmlookup m k)))"

definition fm_at :: "('k \<Rightarrow> 'v \<Rightarrow> nat) \<Rightarrow> ('k, 'v) fmap \<Rightarrow> 'k \<Rightarrow> nat" where
  "fm_at f m k = (case fmlookup m k of None \<Rightarrow> 0 | Some v \<Rightarrow> f k v)"

lemma fm_at_Some [simp]: "fmlookup m k = Some v \<Longrightarrow> fm_at f m k = f k v"
  by (simp add: fm_at_def)

lemma fm_at_None [simp]: "fmlookup m k = None \<Longrightarrow> fm_at f m k = 0"
  by (simp add: fm_at_def)

lemma fm_at_upd: "fm_at f (fmupd k v m) j = (if j = k then f k v else fm_at f m j)"
  by (simp add: fm_at_def)

lemma fm_at_drop: "fm_at f (fmdrop k m) j = (if j = k then 0 else fm_at f m j)"
  by (simp add: fm_at_def)

lemma fm_sum_empty [simp]: "fm_sum f fmempty = 0"
  by (simp add: fm_sum_def)

lemma fm_sum_over: "fset (fmdom m) \<subseteq> A \<Longrightarrow> finite A \<Longrightarrow> fm_sum f m = (\<Sum>k\<in>A. fm_at f m k)"
  unfolding fm_sum_def
  by (rule sum.mono_neutral_cong_left) (auto simp: fm_at_def fmlookup_dom_iff split: option.splits)

lemma fm_sum_upd: "fm_sum f (fmupd k v m) + fm_at f m k = fm_sum f m + f k v"
proof -
  let ?A = "insert k (fset (fmdom m))"
  have "fm_sum f (fmupd k v m) = (\<Sum>j\<in>?A. fm_at f (fmupd k v m) j)"
    by (rule fm_sum_over) auto
  also have "\<dots> = f k v + (\<Sum>j\<in>?A - {k}. fm_at f (fmupd k v m) j)"
    by (subst sum.remove [of _ k]) (auto simp: fm_at_upd)
  also have "(\<Sum>j\<in>?A - {k}. fm_at f (fmupd k v m) j) = (\<Sum>j\<in>?A - {k}. fm_at f m j)"
    by (rule sum.cong) (auto simp: fm_at_upd)
  finally have "fm_sum f (fmupd k v m) = f k v + (\<Sum>j\<in>?A - {k}. fm_at f m j)" .
  moreover have "fm_sum f m = fm_at f m k + (\<Sum>j\<in>?A - {k}. fm_at f m j)"
    by (subst fm_sum_over [of m ?A]) (auto simp: sum.remove [of ?A k])
  ultimately show ?thesis by simp
qed

lemma fm_sum_drop: "fm_sum f (fmdrop k m) + fm_at f m k = fm_sum f m"
proof -
  let ?A = "insert k (fset (fmdom m))"
  have "fm_sum f (fmdrop k m) = (\<Sum>j\<in>?A. fm_at f (fmdrop k m) j)"
    by (rule fm_sum_over) auto
  also have "\<dots> = (\<Sum>j\<in>?A - {k}. fm_at f m j)"
    by (subst sum.remove [of _ k]) (auto simp: fm_at_drop intro: sum.cong)
  finally have "fm_sum f (fmdrop k m) = (\<Sum>j\<in>?A - {k}. fm_at f m j)" .
  moreover have "fm_sum f m = fm_at f m k + (\<Sum>j\<in>?A - {k}. fm_at f m j)"
    by (subst fm_sum_over [of m ?A]) (auto simp: sum.remove [of ?A k])
  ultimately show ?thesis by simp
qed

lemma fm_sum_ge: "fm_at f m k \<le> fm_sum f m"
  using fm_sum_drop [of f k m] by linarith

lemma fm_sum_ge2: "j \<noteq> k \<Longrightarrow> fm_at f m j + fm_at f m k \<le> fm_sum f m"
  using fm_sum_drop [of f k m] fm_sum_ge [of f "fmdrop k m" j] by (simp add: fm_at_drop)

end
