(* ===== verification/LedgerState.thy ===== *)
theory LedgerState
  imports LedgerKeys Staking Governance Events Bridge Finmap_Sums
begin

text \<open>
  The state of the ledger, \<^verbatim>\<open>src/crates/qtv-node/src/ledger.rs\<close>.  The tree of the source maps a
  32-byte key to bytes; here \<open>store\<close> maps the leaf that key stands for (theory \<open>LedgerKeys\<close>) to the
  value its bytes encode.  \<open>Cleared\<close> is the empty byte string the source writes to clear a leaf.
  The readers of the source panic on bytes that are not of the type of the leaf; the readers below answer
  None there, a case that theory \<open>LedgerTypes\<close> shows never to arise.  Of the fields of \<^verbatim>\<open>Ledger\<close> those that
  only the contract machine uses are kept apart, in theory \<open>Contracts\<close>.
\<close>

section \<open>Records held in leaves\<close>

record account =
  account_nonce :: u64
  account_balance :: u64
  account_scheme :: u8
  account_public_key :: bytes

definition account_default :: account where
  "account_default = \<lparr>account_nonce = 0, account_balance = 0, account_scheme = 0, account_public_key = []\<rparr>"

definition account_funded :: "u64 \<Rightarrow> u8 \<Rightarrow> bytes \<Rightarrow> account" where
  "account_funded balance scheme pk =
     \<lparr>account_nonce = 0, account_balance = balance, account_scheme = scheme,
      account_public_key = pk\<rparr>"

definition has_key :: "account \<Rightarrow> bool" where
  "has_key a \<longleftrightarrow> account_public_key a \<noteq> []"

definition encode_account :: "account \<Rightarrow> encoder \<Rightarrow> encoder" where
  "encode_account a = puts [put_u64 (account_nonce a), put_u64 (account_balance a),
     put_u8 (account_scheme a), put_bytes (account_public_key a)]"

definition decode_account :: "account decode" where
  "decode_account = dbind get_u64 (\<lambda>nonce. dbind get_u64 (\<lambda>balance. dbind get_u8 (\<lambda>scheme.
     dbind get_bytes (\<lambda>public_key.
     dret \<lparr>account_nonce = nonce, account_balance = balance, account_scheme = scheme,
           account_public_key = public_key\<rparr>))))"

record reward_book =
  tranches :: "reward_tranche list"
  period_anchor :: u64
  paid_in_period :: u64

definition book_default :: reward_book where
  "book_default = \<lparr>tranches = [], period_anchor = 0, paid_in_period = 0\<rparr>"

definition encode_book :: "reward_book \<Rightarrow> encoder \<Rightarrow> encoder" where
  "encode_book b = puts [put_u64 (word_of_nat (length (tranches b))),
     encode_each encode_tranche (tranches b), put_u64 (period_anchor b), put_u64 (paid_in_period b)]"

definition get_u64_or_0 :: "u64 decode" where
  "get_u64_or_0 d = (case get_u64 d of Inr r \<Rightarrow> Inr r | Inl _ \<Rightarrow> Inr (0, d))"

definition decode_book :: "reward_book decode" where
  "decode_book = dbind get_u64 (\<lambda>count. dbind (decode_n decode_tranche (unat count)) (\<lambda>ts.
     dbind get_u64_or_0 (\<lambda>anchor. dbind get_u64_or_0 (\<lambda>paid.
     dret \<lparr>tranches = ts, period_anchor = anchor, paid_in_period = paid\<rparr>))))"

record qasset =
  asset_total :: u128
  asset_cap :: u128
  asset_epoch_cap :: u128
  requires_stark :: bool

definition encode_qasset :: "qasset \<Rightarrow> encoder \<Rightarrow> encoder" where
  "encode_qasset a = puts [put_u128 (asset_total a), put_u128 (asset_cap a),
     put_u128 (asset_epoch_cap a), put_bool (requires_stark a)]"

definition decode_qasset :: "qasset decode" where
  "decode_qasset = dbind get_u128 (\<lambda>s. dbind get_u128 (\<lambda>c. dbind get_u128 (\<lambda>e. dbind get_flag (\<lambda>r.
     dret \<lparr>asset_total = s, asset_cap = c, asset_epoch_cap = e, requires_stark = r\<rparr>))))"

record outstanding_burn =
  burn_asset :: bytes
  burn_amount :: u128
  burn_beneficiary :: bytes
  burn_destination :: bytes

definition encode_burn :: "outstanding_burn \<Rightarrow> encoder \<Rightarrow> encoder" where
  "encode_burn b = puts [put_bytes (burn_asset b), put_u128 (burn_amount b),
     put_bytes (burn_beneficiary b), put_bytes (burn_destination b)]"

definition get_sized :: "nat \<Rightarrow> bytes decode" where
  "get_sized n = dbind get_bytes (\<lambda>bs. if length bs = n then dret bs else dfail (Truncated n (length bs)))"

definition decode_burn :: "outstanding_burn decode" where
  "decode_burn = dbind (get_sized 16) (\<lambda>a. dbind get_u128 (\<lambda>n. dbind (get_sized 32) (\<lambda>b.
     dbind (get_sized 32) (\<lambda>d.
     dret \<lparr>burn_asset = a, burn_amount = n, burn_beneficiary = b, burn_destination = d\<rparr>))))"

definition burn_ok :: "outstanding_burn \<Rightarrow> bool" where
  "burn_ok b \<longleftrightarrow> length (burn_asset b) = 16 \<and> length (burn_beneficiary b) = 32 \<and> length (burn_destination b) = 32"

interpretation accountc: canonical_codec encode_account decode_account "\<lambda>_. True"
  by unfold_locales (auto simp: encode_account_def decode_account_def wire)

lemma get_sized_Inr: "get_sized n d = Inr (bs, d') \<longleftrightarrow> length bs = n \<and> get_bytes d = Inr (bs, d')"
  by (cases "get_bytes d") (auto simp: get_sized_def dbind_def dret_def dfail_def split: if_splits)

lemma decode_burn_Inr: "decode_burn d = Inr (b, d') \<longleftrightarrow> burn_ok b \<and> consumes d (encode_burn b []) d'"
  by (cases b) (auto simp: decode_burn_def encode_burn_def burn_ok_def wire get_sized_Inr)

interpretation burnc: canonical_codec encode_burn decode_burn burn_ok
  by unfold_locales (simp_all add: decode_burn_Inr, simp add: encode_burn_def wire)

interpretation qassetc: wire_codec encode_qasset decode_qasset "\<lambda>_. True"
proof
  show "encode_qasset a buf = buf @ encode_qasset a []" for a buf
    by (simp add: encode_qasset_def wire)
  show "decode_qasset d = Inr (a, d')" if "consumes d (encode_qasset a []) d'" for a d d'
    using that
    by (cases a) (auto simp: encode_qasset_def decode_qasset_def wire dest: get_flag_written)
qed

lemma get_u64_or_0_read: "get_u64 d = Inr (v, d') \<Longrightarrow> get_u64_or_0 d = Inr (v, d')"
  by (simp add: get_u64_or_0_def)

interpretation bookc: wire_codec encode_book decode_book "\<lambda>_. True"
proof
  have bytes: "encode_book b buf = buf @ put_u64 (word_of_nat (length (tranches b))) [] @
      encode_each encode_tranche (tranches b) [] @ put_u64 (period_anchor b) [] @ put_u64 (paid_in_period b) []"
    for b buf
    using tranchec.encode_each_append [of "tranches b" "put_u64 (word_of_nat (length (tranches b))) buf"]
    by (simp add: encode_book_def puts.simps put_append)
  show "encode_book b buf = buf @ encode_book b []" for b buf
    by (simp only: bytes append_Nil)
  show "decode_book d = Inr (b, d')" if "consumes d (encode_book b []) d'" for b d d'
  proof -
    let ?ts = "tranches b"
    from that obtain d1 d2 d3 where 1: "get_u64 d = Inr (word_of_nat (length ?ts), d1)"
      and 2: "consumes d1 (encode_each encode_tranche ?ts []) d2"
      and 3: "get_u64 d2 = Inr (period_anchor b, d3)" "get_u64 d3 = Inr (paid_in_period b, d')"
      by (auto simp: bytes wire)
    have "length ?ts * 1 \<le> length (encode_each encode_tranche ?ts [])"
      by (intro tranchec.encode_each_length)
        (simp add: encode_tranche_def puts.simps put_append Suc_le_eq)
    with consumes_bound [OF 2] have "unat (word_of_nat (length ?ts) :: u64) = length ?ts"
      by (simp add: unat_of_nat)
    moreover have "decode_n decode_tranche (length ?ts) d1 = Inr (?ts, d2)"
      using tranchec.decode_n_encoded [OF _ 2] by (simp add: list.pred_True)
    ultimately show ?thesis
      using 1 3 by (simp add: decode_book_def dbind_read get_u64_or_0_read dret_def)
  qed
qed

text \<open>A book stored before the period fields existed is read with both of them zero.\<close>

lemma decode_book_legacy:
  assumes "get_u64 d = Inr (n, d1)" and "decode_n decode_tranche (unat n) d1 = Inr (ts, d2)"
    and "remaining d2 = 0"
  shows "decode_book d = Inr (\<lparr>tranches = ts, period_anchor = 0, paid_in_period = 0\<rparr>, d2)"
proof -
  have "get_u64_or_0 d2 = Inr (0, d2)"
    using assms(3) consumes_remaining [of d2 "le_of_nat 8 v" for v]
    by (force simp: get_u64_or_0_def get_u64_Inr split: sum.splits)
  with assms show ?thesis
    by (simp add: decode_book_def dbind_read dret_def)
qed

section \<open>Leaf values and the ledger\<close>

datatype (plugins only: ) "value" =
    Cleared
  | VAccount account
  | VBond bond
  | VBook reward_book
  | VMeter session_meter
  | VU32 u32
  | VU64 u64
  | VU128 u128
  | VMark
  | VBool bool
  | VBytes bytes
  | VIds "bytes list"
  | VEntries "(bytes \<times> u64) list"
  | VAsset qasset
  | VBurn outstanding_burn
  | VOperators operator_set
  | VGuardians guardian_set
  | VFreeze bridge_freeze
  | VReferendum referendum
  | VAction action
  | VReceipt enactment_receipt
  | VBallot ballot
  | VLock lock

record ledger =
  store :: "(leaf, value) fmap"
  block_events :: "block_event list"
  side_events :: "side_event list"
  current_tx :: bytes
  round_proposer :: "bytes option"
  execution_height :: u64
  execution_time_set :: u64
  heights_per_epoch :: u64
  journal :: "(leaf \<times> value option) list option"
  block_fresh_leaves :: u64
  fresh_leaf_ceiling :: "u64 option"

definition ledger_new :: ledger where
  "ledger_new = \<lparr>store = fmempty, block_events = [], side_events = [], current_tx = [],
     round_proposer = None, execution_height = 0, execution_time_set = 0, heights_per_epoch = 0,
     journal = None, block_fresh_leaves = 0, fresh_leaf_ceiling = None\<rparr>"

abbreviation peek :: "ledger \<Rightarrow> leaf \<Rightarrow> value option" where
  "peek l k \<equiv> fmlookup (store l) k"

definition write_leaf :: "leaf \<Rightarrow> value \<Rightarrow> ledger \<Rightarrow> ledger" where
  "write_leaf k v l =
     l\<lparr>block_fresh_leaves :=
         (if peek l k = None then saturating_add (block_fresh_leaves l) 1 else block_fresh_leaves l),
       journal := map_option (\<lambda>j. j @ [(k, peek l k)]) (journal l),
       store := fmupd k v (store l)\<rparr>"

definition erase_leaf :: "leaf \<Rightarrow> ledger \<Rightarrow> bool \<times> ledger" where
  "erase_leaf k l =
     (peek l k \<noteq> None,
      l\<lparr>journal := map_option (\<lambda>j. j @ [(k, peek l k)]) (journal l), store := fmdrop k (store l)\<rparr>)"

definition record_side_event :: "side_event \<Rightarrow> ledger \<Rightarrow> ledger" where
  "record_side_event e l = l\<lparr>side_events := side_events l @ [e]\<rparr>"

definition record_native_event :: "bytes \<Rightarrow> bytes \<Rightarrow> ledger \<Rightarrow> ledger" where
  "record_native_event kind dat l = l\<lparr>block_events := block_events l @ [native_event kind dat]\<rparr>"

definition record_transfer_event :: "bytes \<Rightarrow> bytes \<Rightarrow> u64 \<Rightarrow> u64 \<Rightarrow> ledger \<Rightarrow> ledger" where
  "record_transfer_event sender to amount fee =
     record_native_event EVENT_TRANSFER (puts [put_bytes sender, put_bytes to, put_u64 amount, put_u64 fee] [])"

definition record_bond_event :: "bytes \<Rightarrow> u64 \<Rightarrow> u64 \<Rightarrow> ledger \<Rightarrow> ledger" where
  "record_bond_event address amount fee =
     record_native_event EVENT_BOND (puts [put_bytes address, put_u64 amount, put_u64 fee] [])"

definition record_unbond_event :: "bytes \<Rightarrow> u64 \<Rightarrow> ledger \<Rightarrow> ledger" where
  "record_unbond_event address amount =
     record_native_event EVENT_UNBOND (puts [put_bytes address, put_u64 amount] [])"

definition record_slash_event :: "bytes \<Rightarrow> u64 \<Rightarrow> ledger \<Rightarrow> ledger" where
  "record_slash_event address amount =
     record_native_event EVENT_SLASH (puts [put_bytes address, put_u64 amount] [])"

definition record_mint_event :: "bytes \<Rightarrow> u64 \<Rightarrow> ledger \<Rightarrow> ledger" where
  "record_mint_event to amount =
     record_native_event EVENT_MINT (puts [put_bytes to, put_u64 amount] [])"

definition record_reward_event :: "bytes \<Rightarrow> u64 \<Rightarrow> ledger \<Rightarrow> ledger" where
  "record_reward_event address amount =
     record_native_event EVENT_REWARD (puts [put_bytes address, put_u64 amount] [])"

definition record_bridge_mint_event :: "bytes \<Rightarrow> bytes \<Rightarrow> u128 \<Rightarrow> ledger \<Rightarrow> ledger" where
  "record_bridge_mint_event asset_id recipient amount =
     record_native_event EVENT_BRIDGE_MINT (puts [put_bytes asset_id, put_bytes recipient, put_u128 amount] [])"

definition record_bridge_burn_event :: "bytes \<Rightarrow> bytes \<Rightarrow> u128 \<Rightarrow> bytes \<Rightarrow> u64 \<Rightarrow> u64 \<Rightarrow> u64 \<Rightarrow> bytes \<Rightarrow> ledger \<Rightarrow> ledger" where
  "record_bridge_burn_event asset_id holder amount destination chain_id sender_nonce event_index burn_reference =
     record_native_event EVENT_BRIDGE_BURN (puts [put_bytes asset_id, put_bytes holder, put_u128 amount, put_bytes destination, put_u64 chain_id, put_u64 sender_nonce, put_u64 event_index, put_bytes burn_reference] [])"

definition record_bridge_settle_event :: "bytes \<Rightarrow> bytes \<Rightarrow> u128 \<Rightarrow> bytes \<Rightarrow> ledger \<Rightarrow> ledger" where
  "record_bridge_settle_event asset_id beneficiary amount burn_reference =
     record_native_event EVENT_BRIDGE_SETTLE (puts [put_bytes asset_id, put_bytes beneficiary, put_u128 amount, put_bytes burn_reference] [])"

definition record_bridge_slash_event :: "bytes \<Rightarrow> bytes \<Rightarrow> u128 \<Rightarrow> bytes \<Rightarrow> ledger \<Rightarrow> ledger" where
  "record_bridge_slash_event asset_id beneficiary amount burn_reference =
     record_native_event EVENT_BRIDGE_SLASH (puts [put_bytes asset_id, put_bytes beneficiary, put_u128 amount, put_bytes burn_reference] [])"

definition clear_block_events :: "ledger \<Rightarrow> ledger" where
  "clear_block_events l = l\<lparr>block_events := [], side_events := []\<rparr>"

definition account_exists :: "bytes \<Rightarrow> ledger \<Rightarrow> bool" where
  "account_exists address l \<longleftrightarrow> peek l (state_leaf address) \<noteq> None"

lemma store_write [simp]: "store (write_leaf k v l) = fmupd k v (store l)"
  by (simp add: write_leaf_def)

lemma store_erase [simp]: "store (snd (erase_leaf k l)) = fmdrop k (store l)"
  by (simp add: erase_leaf_def)

lemma store_events [simp]:
  "store (record_side_event e l) = store l"
  "store (record_native_event kind dat l) = store l"
  by (simp_all add: record_side_event_def record_native_event_def)

lemmas event_defs = record_transfer_event_def record_bond_event_def record_unbond_event_def
  record_slash_event_def record_mint_event_def record_reward_event_def
  record_bridge_mint_event_def record_bridge_burn_event_def record_bridge_settle_event_def record_bridge_slash_event_def

text \<open>The fields no leaf operation touches.\<close>

lemma frame_write [simp]:
  "round_proposer (write_leaf k v l) = round_proposer l"
  "execution_height (write_leaf k v l) = execution_height l"
  "execution_time_set (write_leaf k v l) = execution_time_set l"
  "heights_per_epoch (write_leaf k v l) = heights_per_epoch l"
  "block_events (write_leaf k v l) = block_events l"
  "round_proposer (snd (erase_leaf k l)) = round_proposer l"
  "execution_height (snd (erase_leaf k l)) = execution_height l"
  "heights_per_epoch (snd (erase_leaf k l)) = heights_per_epoch l"
  "block_events (snd (erase_leaf k l)) = block_events l"
  "round_proposer (record_side_event e l) = round_proposer l"
  "execution_height (record_side_event e l) = execution_height l"
  "execution_time_set (record_side_event e l) = execution_time_set l"
  "heights_per_epoch (record_side_event e l) = heights_per_epoch l"
  "block_events (record_side_event e l) = block_events l"
  "round_proposer (record_native_event kind dat l) = round_proposer l"
  "execution_height (record_native_event kind dat l) = execution_height l"
  "execution_time_set (record_native_event kind dat l) = execution_time_set l"
  "heights_per_epoch (record_native_event kind dat l) = heights_per_epoch l"
  by (simp_all add: write_leaf_def erase_leaf_def record_side_event_def record_native_event_def)

section \<open>Reading a leaf\<close>

fun as_account :: "value \<Rightarrow> account option" where
  "as_account (VAccount x) = Some x"
| "as_account _ = None"

fun as_bond :: "value \<Rightarrow> bond option" where
  "as_bond (VBond x) = Some x"
| "as_bond _ = None"

fun as_book :: "value \<Rightarrow> reward_book option" where
  "as_book (VBook x) = Some x"
| "as_book _ = None"

fun as_meter :: "value \<Rightarrow> session_meter option" where
  "as_meter (VMeter x) = Some x"
| "as_meter _ = None"

fun as_u32 :: "value \<Rightarrow> u32 option" where
  "as_u32 (VU32 x) = Some x"
| "as_u32 _ = None"

fun as_u64 :: "value \<Rightarrow> u64 option" where
  "as_u64 (VU64 x) = Some x"
| "as_u64 _ = None"

fun as_u128 :: "value \<Rightarrow> u128 option" where
  "as_u128 (VU128 x) = Some x"
| "as_u128 _ = None"

fun as_bytes :: "value \<Rightarrow> bytes option" where
  "as_bytes (VBytes x) = Some x"
| "as_bytes _ = None"

fun as_ids :: "value \<Rightarrow> (bytes list) option" where
  "as_ids (VIds x) = Some x"
| "as_ids _ = None"

fun as_entries :: "value \<Rightarrow> ((bytes \<times> u64) list) option" where
  "as_entries (VEntries x) = Some x"
| "as_entries _ = None"

fun as_asset :: "value \<Rightarrow> qasset option" where
  "as_asset (VAsset x) = Some x"
| "as_asset _ = None"

fun as_burn :: "value \<Rightarrow> outstanding_burn option" where
  "as_burn (VBurn x) = Some x"
| "as_burn _ = None"

fun as_operators :: "value \<Rightarrow> operator_set option" where
  "as_operators (VOperators x) = Some x"
| "as_operators _ = None"

fun as_guardians :: "value \<Rightarrow> guardian_set option" where
  "as_guardians (VGuardians x) = Some x"
| "as_guardians _ = None"

fun as_freeze :: "value \<Rightarrow> bridge_freeze option" where
  "as_freeze (VFreeze x) = Some x"
| "as_freeze _ = None"

fun as_referendum :: "value \<Rightarrow> referendum option" where
  "as_referendum (VReferendum x) = Some x"
| "as_referendum _ = None"

fun as_action :: "value \<Rightarrow> action option" where
  "as_action (VAction x) = Some x"
| "as_action _ = None"

fun as_receipt :: "value \<Rightarrow> enactment_receipt option" where
  "as_receipt (VReceipt x) = Some x"
| "as_receipt _ = None"

fun as_ballot :: "value \<Rightarrow> ballot option" where
  "as_ballot (VBallot x) = Some x"
| "as_ballot _ = None"

fun as_lock :: "value \<Rightarrow> lock option" where
  "as_lock (VLock x) = Some x"
| "as_lock _ = None"

text \<open>\<open>held l k r\<close> reads leaf \<open>k\<close> with the reader \<open>r\<close>; an absent leaf and a cleared one read as None.\<close>

definition held :: "ledger \<Rightarrow> leaf \<Rightarrow> (value \<Rightarrow> 'a option) \<Rightarrow> 'a option" where
  "held l k r = Option.bind (peek l k) r"

definition marked :: "ledger \<Rightarrow> leaf \<Rightarrow> bool" where
  "marked l k \<longleftrightarrow> (case peek l k of None \<Rightarrow> False | Some v \<Rightarrow> v \<noteq> Cleared)"

definition held_or :: "'a \<Rightarrow> ledger \<Rightarrow> leaf \<Rightarrow> (value \<Rightarrow> 'a option) \<Rightarrow> 'a" where
  "held_or x l k r = (case held l k r of None \<Rightarrow> x | Some y \<Rightarrow> y)"

lemma held_write [simp]: "held (write_leaf k v l) j r = (if j = k then r v else held l j r)"
  by (simp add: held_def)

lemma held_erase [simp]: "held (snd (erase_leaf k l)) j r = (if j = k then None else held l j r)"
  by (simp add: held_def)

lemma held_events [simp]:
  "held (record_side_event e l) j r = held l j r"
  "held (record_native_event kind dat l) j r = held l j r"
  by (simp_all add: held_def)

lemma held_or_write [simp]:
  "held_or x (write_leaf k v l) j r =
     (if j = k then (case r v of None \<Rightarrow> x | Some y \<Rightarrow> y) else held_or x l j r)"
  by (simp add: held_or_def)

lemma held_or_erase [simp]: "held_or x (snd (erase_leaf k l)) j r = (if j = k then x else held_or x l j r)"
  by (simp add: held_or_def)

lemma held_or_events [simp]:
  "held_or x (record_side_event e l) j r = held_or x l j r"
  "held_or x (record_native_event kind dat l) j r = held_or x l j r"
  by (simp_all add: held_or_def)

lemma marked_write [simp]: "marked (write_leaf k v l) j \<longleftrightarrow> (if j = k then v \<noteq> Cleared else marked l j)"
  by (simp add: marked_def)

lemma marked_erase [simp]: "marked (snd (erase_leaf k l)) j \<longleftrightarrow> j \<noteq> k \<and> marked l j"
  by (simp add: marked_def)

lemma marked_events [simp]:
  "marked (record_side_event e l) j \<longleftrightarrow> marked l j"
  "marked (record_native_event kind dat l) j \<longleftrightarrow> marked l j"
  by (simp_all add: marked_def)

end
