(* ===== verification/LedgerAccounts.thy ===== *)
theory LedgerAccounts
  imports LedgerState
begin

text \<open>
  Accounts, supply and fees of the ledger, \<^verbatim>\<open>src/crates/qtv-node/src/ledger.rs\<close>, and the
  conservation of native value.  \<open>holdings\<close> adds the native value of every leaf: account balances,
  bonds, unclaimed rewards, the reward pool, the treasury, governance locks and the deposits of
  open referenda.  \<open>balanced l k\<close> says that the holdings are the recorded supply but for \<open>k\<close> units
  in flight, taken from one leaf and not yet put into another; each operation that moves value has
  a rule for \<open>balanced\<close>, so that the transactions of the later theories compose them.
\<close>

section \<open>Accounts and supply\<close>

definition account :: "bytes \<Rightarrow> ledger \<Rightarrow> account" where
  "account address l = held_or account_default l (state_leaf address) as_account"

definition set_account :: "bytes \<Rightarrow> account \<Rightarrow> ledger \<Rightarrow> ledger" where
  "set_account address a = write_leaf (state_leaf address) (VAccount a)"

definition balance :: "bytes \<Rightarrow> ledger \<Rightarrow> u64" where
  "balance address l = account_balance (account address l)"

definition nonce :: "bytes \<Rightarrow> ledger \<Rightarrow> u64" where
  "nonce address l = account_nonce (account address l)"

definition total_supply :: "ledger \<Rightarrow> u64" where
  "total_supply l = held_or 0 l (Single Supply) as_u64"

definition set_total_supply :: "u64 \<Rightarrow> ledger \<Rightarrow> ledger" where
  "set_total_supply amount = write_leaf (Single Supply) (VU64 amount)"

definition credit_supply :: "u64 \<Rightarrow> ledger \<Rightarrow> ledger" where
  "credit_supply amount l =
     (if amount = 0 then l else set_total_supply (saturating_add (total_supply l) amount) l)"

definition debit_supply :: "u64 \<Rightarrow> ledger \<Rightarrow> ledger" where
  "debit_supply amount l =
     (if amount = 0 then l else set_total_supply (saturating_sub (total_supply l) amount) l)"

definition seed_supply :: "u64 \<Rightarrow> ledger \<Rightarrow> ledger" where
  "seed_supply amount = set_total_supply amount"

definition set_round_proposer :: "bytes \<Rightarrow> ledger \<Rightarrow> ledger" where
  "set_round_proposer address l = l\<lparr>round_proposer := (if address = [] then None else Some address)\<rparr>"

definition credit_account :: "bytes \<Rightarrow> u64 \<Rightarrow> ledger \<Rightarrow> ledger" where
  "credit_account address amount l =
     (if amount = 0 then l
      else let a = account address l in
        set_account address (a\<lparr>account_balance := saturating_add (account_balance a) amount\<rparr>) l)"

definition apply_balance_delta :: "bytes \<Rightarrow> int \<Rightarrow> ledger \<Rightarrow> ledger option" where
  "apply_balance_delta address delta l =
     (if delta = 0 then Some l
      else let a = account address l;
               updated = uint (account_balance a) + delta
           in if updated < 0 then None
              else if 2 ^ 64 \<le> updated then None
              else Some (set_account address (a\<lparr>account_balance := word_of_int updated\<rparr>) l))"

section \<open>Fees\<close>

definition FEE_BURN_BPS :: u64 where "FEE_BURN_BPS = 7000"
definition FEE_PROPOSER_BPS :: u64 where "FEE_PROPOSER_BPS = 1000"
definition FEE_GRANTS_BPS :: u64 where "FEE_GRANTS_BPS = 2000"

record fee_split =
  split_burn :: u64
  split_proposer :: u64
  split_grants :: u64

definition fee_split_of :: "u64 \<Rightarrow> fee_split option" where
  "fee_split_of fee = do {
     burn \<leftarrow> mul_div fee (ucast FEE_BURN_BPS) 10000;
     proposer \<leftarrow> mul_div fee (ucast FEE_PROPOSER_BPS) 10000;
     rest \<leftarrow> checked_sub fee burn;
     grants \<leftarrow> checked_sub rest proposer;
     Some \<lparr>split_burn = burn, split_proposer = proposer, split_grants = grants\<rparr> }"

definition fee_split_total :: "fee_split \<Rightarrow> u64" where
  "fee_split_total s = saturating_add (saturating_add (split_burn s) (split_proposer s)) (split_grants s)"

definition fee_split_add :: "fee_split \<Rightarrow> fee_split \<Rightarrow> fee_split" where
  "fee_split_add s t = \<lparr>split_burn = saturating_add (split_burn s) (split_burn t),
     split_proposer = saturating_add (split_proposer s) (split_proposer t),
     split_grants = saturating_add (split_grants s) (split_grants t)\<rparr>"

definition apply_fee_split :: "hash \<Rightarrow> fee_split \<Rightarrow> ledger \<Rightarrow> ledger" where
  "apply_fee_split H split l =
     (let grants = grants_address H;
          l = (case round_proposer l of
                 Some proposer \<Rightarrow> credit_account proposer (split_proposer split) l
               | None \<Rightarrow> credit_account grants (split_proposer split) l);
          l = credit_account grants (split_grants split) l
      in debit_supply (split_burn split) l)"

definition collect_fee :: "hash \<Rightarrow> u64 \<Rightarrow> ledger \<Rightarrow> ledger option" where
  "collect_fee H fee l =
     (if fee = 0 then Some l
      else do { split \<leftarrow> fee_split_of fee; Some (apply_fee_split H split l) })"

section \<open>Native value\<close>

definition outstanding :: "reward_tranche \<Rightarrow> nat" where
  "outstanding t = unat (tranche_amount t) - unat (claimed t)"

definition book_outstanding :: "reward_book \<Rightarrow> nat" where
  "book_outstanding b = sum_list (map outstanding (tranches b))"

fun value_amount :: "value \<Rightarrow> nat" where
  "value_amount (VAccount a) = unat (account_balance a)"
| "value_amount (VBond b) = unat (bond_amount b)"
| "value_amount (VBook b) = book_outstanding b"
| "value_amount (VU64 x) = unat x"
| "value_amount (VLock k) = unat (lock_amount k)"
| "value_amount (VReferendum r) = (if ref_status r = Deciding then unat (ref_deposit r) else 0)"
| "value_amount _ = 0"

definition native_kind :: "leaf \<Rightarrow> value \<Rightarrow> bool" where
  "native_kind k v \<longleftrightarrow>
     (case k of
        Acct _ \<Rightarrow> as_account v \<noteq> None
      | AcctUnparsed _ \<Rightarrow> as_account v \<noteq> None
      | StakeBond _ \<Rightarrow> as_bond v \<noteq> None
      | StakeRewards _ \<Rightarrow> as_book v \<noteq> None
      | Single s \<Rightarrow> s \<in> {StakePool, StakeTreasury} \<and> as_u64 v \<noteq> None
      | GovLock _ \<Rightarrow> as_lock v \<noteq> None
      | GovRef _ \<Rightarrow> as_referendum v \<noteq> None
      | _ \<Rightarrow> False)"

definition native_value :: "leaf \<Rightarrow> value \<Rightarrow> nat" where
  "native_value k v = (if native_kind k v then value_amount v else 0)"

definition holdings :: "ledger \<Rightarrow> nat" where
  "holdings l = fm_sum native_value (store l)"

definition balanced :: "ledger \<Rightarrow> nat \<Rightarrow> bool" where
  "balanced l k \<longleftrightarrow> holdings l + k = unat (total_supply l)"

abbreviation native_at :: "ledger \<Rightarrow> leaf \<Rightarrow> nat" where
  "native_at l k \<equiv> fm_at native_value (store l) k"

lemma native_kind_state [simp]: "native_kind (state_leaf a) v \<longleftrightarrow> as_account v \<noteq> None"
  by (simp add: native_kind_def state_leaf_def split: sum.splits)

lemma state_leaf_distinct [simp]:
  "state_leaf a \<noteq> Single s" "Single s \<noteq> state_leaf a"
  "state_leaf a \<noteq> StakeBond i" "StakeBond i \<noteq> state_leaf a"
  "state_leaf a \<noteq> StakeRewards i" "StakeRewards i \<noteq> state_leaf a"
  "state_leaf a \<noteq> StakeBanned i" "StakeBanned i \<noteq> state_leaf a"
  "state_leaf a \<noteq> StakePayee i" "StakePayee i \<noteq> state_leaf a"
  "state_leaf a \<noteq> GovBlacklist i" "GovBlacklist i \<noteq> state_leaf a"
  "state_leaf a \<noteq> GovFreeze i" "GovFreeze i \<noteq> state_leaf a"
  "state_leaf a \<noteq> GovStoppedAsset i" "GovStoppedAsset i \<noteq> state_leaf a"
  "state_leaf a \<noteq> GovLock i" "GovLock i \<noteq> state_leaf a"
  "state_leaf a \<noteq> GovRef n" "GovRef n \<noteq> state_leaf a"
  "state_leaf a \<noteq> GovAction n" "GovAction n \<noteq> state_leaf a"
  "state_leaf a \<noteq> GovElectorate n" "GovElectorate n \<noteq> state_leaf a"
  "state_leaf a \<noteq> GovBallot n i" "GovBallot n i \<noteq> state_leaf a"
  "state_leaf a \<noteq> GovMintPeriod n" "GovMintPeriod n \<noteq> state_leaf a"
  "state_leaf a \<noteq> GovReceipt n" "GovReceipt n \<noteq> state_leaf a"
  by (simp_all add: state_leaf_def split: sum.splits)

lemma total_supply_write:
  "k \<noteq> Single Supply \<Longrightarrow> total_supply (write_leaf k v l) = total_supply l"
  by (simp add: total_supply_def)

lemma balanced_write:
  assumes "balanced l k" and "j \<noteq> Single Supply" and "native_value j v + k' = native_at l j + k"
  shows "balanced (write_leaf j v l) k'"
  using assms fm_sum_upd [of native_value j v "store l"]
  by (simp add: balanced_def holdings_def total_supply_write)

lemma native_supply: "native_value (Single Supply) v = 0"
  by (simp add: native_value_def native_kind_def)

lemma holdings_set_supply: "holdings (set_total_supply x l) = holdings l"
  using fm_sum_upd [of native_value "Single Supply" "VU64 x" "store l"]
  by (simp add: holdings_def set_total_supply_def native_supply fm_at_def split: option.splits)

lemma native_at_account: "native_at l (state_leaf a) = unat (balance a l)"
proof (cases "peek l (state_leaf a)")
  case (Some v)
  then show ?thesis
    by (cases v) (simp_all add: balance_def account_def held_or_def held_def native_value_def account_default_def)
qed (simp add: balance_def account_def held_or_def held_def account_default_def)

lemma holdings_le: "balanced l k \<Longrightarrow> native_at l j + k \<le> unat (total_supply l)"
  using fm_sum_ge [of native_value "store l" j] by (simp add: balanced_def holdings_def)

lemma balanced_set_account:
  assumes "balanced l k" and "unat (account_balance a) + k' = unat (balance address l) + k"
  shows "balanced (set_account address a l) k'"
  unfolding set_account_def
  using assms by (intro balanced_write [OF assms(1)]) (simp_all add: native_value_def native_at_account)

lemma balanced_credit_account:
  assumes "balanced l k" and "unat amount \<le> k"
  shows "balanced (credit_account address amount l) (k - unat amount)"
proof (cases "amount = 0")
  case False
  have "unat (balance address l) + unat amount < 2 ^ 64"
    using holdings_le [OF assms(1), of "state_leaf address"] assms(2) u64_less [of "total_supply l"]
    by (simp add: native_at_account)
  then have "unat (saturating_add (balance address l) amount) = unat (balance address l) + unat amount"
    by (simp add: word_nat)
  with False assms show ?thesis
    by (auto simp: credit_account_def Let_def balance_def intro!: balanced_set_account [OF assms(1)])
qed (use assms in \<open>simp add: credit_account_def\<close>)

lemma balanced_debit_supply:
  assumes "balanced l k" and "unat amount \<le> k"
  shows "balanced (debit_supply amount l) (k - unat amount)"
  using assms
  by (auto simp: debit_supply_def balanced_def holdings_set_supply word_nat total_supply_def set_total_supply_def
      holdings_set_supply [unfolded set_total_supply_def])

lemma balanced_credit_supply:
  assumes "balanced l k" and "unat (total_supply l) + unat amount < 2 ^ 64"
  shows "balanced (credit_supply amount l) (k + unat amount)"
  using assms
  by (auto simp: credit_supply_def balanced_def word_nat total_supply_def set_total_supply_def
      holdings_set_supply [unfolded set_total_supply_def])

lemma fee_split_exact:
  obtains s where "fee_split_of fee = Some s"
    "unat (split_burn s) + unat (split_proposer s) + unat (split_grants s) = unat fee"
    "unat (split_burn s) = unat fee * 7000 div 10000"
    "unat (split_proposer s) = unat fee * 1000 div 10000"
proof -
  have part: "n * unat fee div 10 \<le> unat fee" if "n \<le> 10" for n
    using div_le_mono [OF mult_le_mono1 [OF that], of "unat fee" 10] by simp
  obtain b where b: "mul_div fee (ucast FEE_BURN_BPS) 10000 = Some b" "unat b = unat fee * 7000 div 10000"
    using mul_div_le [of 10000 "ucast FEE_BURN_BPS" fee fee] part [of 7] by (auto simp: FEE_BURN_BPS_def)
  obtain p where p: "mul_div fee (ucast FEE_PROPOSER_BPS) 10000 = Some p" "unat p = unat fee * 1000 div 10000"
    using mul_div_le [of 10000 "ucast FEE_PROPOSER_BPS" fee fee] part [of 1]
    by (auto simp: FEE_PROPOSER_BPS_def)
  have "unat b * 10000 \<le> unat fee * 7000" "unat p * 10000 \<le> unat fee * 1000"
    by (simp_all only: b p div_times_less_eq_dividend)
  then have le: "unat b + unat p \<le> unat fee"
    by linarith
  obtain r where r: "checked_sub fee b = Some r" "unat fee = unat b + unat r"
    using le by (cases "checked_sub fee b") (auto simp: word_nat)
  obtain g where g: "checked_sub r p = Some g" "unat r = unat p + unat g"
    using le r by (cases "checked_sub r p") (auto simp: word_nat)
  let ?s = "\<lparr>split_burn = b, split_proposer = p, split_grants = g\<rparr>"
  have s: "fee_split_of fee = Some ?s"
    by (simp add: fee_split_of_def b(1) p(1) r(1) g(1))
  have "unat b + unat p + unat g = unat fee"
    using r(2) g(2) by linarith
  then show thesis
    using that [OF s] b(2) p(2) by simp
qed

lemma balanced_apply_fee_split:
  assumes "balanced l k"
    and "unat (split_burn s) + unat (split_proposer s) + unat (split_grants s) \<le> k"
  shows "balanced (apply_fee_split H s l)
    (k - (unat (split_burn s) + unat (split_proposer s) + unat (split_grants s)))"
proof -
  let ?l1 = "case round_proposer l of Some p \<Rightarrow> credit_account p (split_proposer s) l
    | None \<Rightarrow> credit_account (grants_address H) (split_proposer s) l"
  have 1: "balanced ?l1 (k - unat (split_proposer s))"
    using assms by (auto intro!: balanced_credit_account split: option.split)
  have 2: "balanced (credit_account (grants_address H) (split_grants s) ?l1)
      (k - unat (split_proposer s) - unat (split_grants s))"
    using assms by (intro balanced_credit_account [OF 1]) linarith
  have "balanced (debit_supply (split_burn s) (credit_account (grants_address H) (split_grants s) ?l1))
      (k - unat (split_proposer s) - unat (split_grants s) - unat (split_burn s))"
    using assms by (intro balanced_debit_supply [OF 2]) linarith
  then show ?thesis
    by (simp add: apply_fee_split_def Let_def algebra_simps)
qed

lemma collect_fee_balanced:
  assumes "balanced l k" and "unat fee \<le> k"
  obtains l' where "collect_fee H fee l = Some l'" "balanced l' (k - unat fee)"
proof (cases "fee = 0")
  case True
  with assms that show thesis by (simp add: collect_fee_def)
next
  case False
  obtain s where s: "fee_split_of fee = Some s"
    "unat (split_burn s) + unat (split_proposer s) + unat (split_grants s) = unat fee"
    by (rule fee_split_exact)
  show thesis
    by (rule that [of "apply_fee_split H s l"])
      (use False s assms balanced_apply_fee_split [of l k s H] in \<open>simp_all add: collect_fee_def\<close>)
qed

section \<open>What fees leave alone\<close>

fun is_acct :: "leaf \<Rightarrow> bool" where
  "is_acct (Acct _) \<longleftrightarrow> True"
| "is_acct (AcctUnparsed _) \<longleftrightarrow> True"
| "is_acct _ \<longleftrightarrow> False"

definition fee_frame :: "ledger \<Rightarrow> ledger \<Rightarrow> bool" where
  "fee_frame l l' \<longleftrightarrow>
     (\<forall>k. \<not> is_acct k \<longrightarrow> k \<noteq> Single Supply \<longrightarrow> peek l' k = peek l k) \<and>
     round_proposer l' = round_proposer l \<and> execution_height l' = execution_height l \<and>
     heights_per_epoch l' = heights_per_epoch l \<and> execution_time_set l' = execution_time_set l"

lemma is_acct_state [simp]: "is_acct (state_leaf a)"
  by (simp add: state_leaf_def split: sum.splits)

lemma fee_frame_refl [simp]: "fee_frame l l"
  by (simp add: fee_frame_def)

lemma fee_frame_trans: "fee_frame l l' \<Longrightarrow> fee_frame l' l'' \<Longrightarrow> fee_frame l l''"
  by (auto simp: fee_frame_def)

lemma fee_frame_set [simp]:
  "fee_frame l (set_account a x l)" "fee_frame l (set_total_supply n l)"
  by (auto simp: fee_frame_def set_account_def set_total_supply_def)

lemma fee_frame_ops [simp]:
  "fee_frame l (credit_account a n l)" "fee_frame l (debit_supply n l)" "fee_frame l (credit_supply n l)"
  by (simp_all add: credit_account_def debit_supply_def credit_supply_def Let_def)

lemma fee_frame_split: "fee_frame l (apply_fee_split H s l)"
  by (auto simp: apply_fee_split_def Let_def split: option.split
      intro: fee_frame_trans [OF fee_frame_ops(1) fee_frame_trans [OF fee_frame_ops(1) fee_frame_ops(2)]])

lemma fee_frame_collect: "collect_fee H fee l = Some l' \<Longrightarrow> fee_frame l l'"
  by (auto simp: collect_fee_def fee_frame_split split: if_splits bind_splits)

lemma held_frame:
  "fee_frame l l' \<Longrightarrow> \<not> is_acct k \<Longrightarrow> k \<noteq> Single Supply \<Longrightarrow> held l' k r = held l k r"
  by (auto simp: fee_frame_def held_def)

lemma held_or_frame:
  "fee_frame l l' \<Longrightarrow> \<not> is_acct k \<Longrightarrow> k \<noteq> Single Supply \<Longrightarrow> held_or x l' k r = held_or x l k r"
  by (simp add: held_or_def held_frame)

lemma marked_frame:
  "fee_frame l l' \<Longrightarrow> \<not> is_acct k \<Longrightarrow> k \<noteq> Single Supply \<Longrightarrow> marked l' k = marked l k"
  by (auto simp: fee_frame_def marked_def)

lemma frame_fields:
  assumes "fee_frame l l'"
  shows "execution_height l' = execution_height l" "heights_per_epoch l' = heights_per_epoch l"
    "round_proposer l' = round_proposer l" "execution_time_set l' = execution_time_set l"
  using assms by (simp_all add: fee_frame_def)

section \<open>Paying\<close>

text \<open>
  The statements the transactions of the ledger share: the payer's account loses \<open>debit\<close>, its nonce
  advances, and the fee is collected.  The callers have checked that the balance covers \<open>debit\<close>.
\<close>

definition pay :: "hash \<Rightarrow> bytes \<Rightarrow> u64 \<Rightarrow> u64 \<Rightarrow> ledger \<Rightarrow> ledger option" where
  "pay H address debit fee l = do {
     let a = account address l;
     n \<leftarrow> checked_add (account_nonce a) 1;
     collect_fee H fee
       (set_account address (a\<lparr>account_balance := account_balance a - debit, account_nonce := n\<rparr>) l) }"

lemma fee_frame_pay: "pay H address debit fee l = Some l' \<Longrightarrow> fee_frame l l'"
  by (auto simp: pay_def Let_def split: bind_splits
      intro: fee_frame_trans [OF fee_frame_set(1) fee_frame_collect])

lemma pay_balanced:
  assumes "pay H address debit fee l = Some l'" and "balanced l k"
    and "debit \<le> balance address l" and "fee \<le> debit"
  shows "balanced l' (k + unat debit - unat fee)"
proof -
  let ?a = "account address l"
  from assms(1) obtain n where n: "collect_fee H fee (set_account address
      (?a\<lparr>account_balance := account_balance ?a - debit, account_nonce := n\<rparr>) l) = Some l'"
    by (auto simp: pay_def Let_def split: bind_splits)
  have "balanced (set_account address (?a\<lparr>account_balance := account_balance ?a - debit, account_nonce := n\<rparr>) l)
      (k + unat debit)"
    using assms(3) by (intro balanced_set_account [OF assms(2)])
      (simp add: balance_def unat_sub word_le_nat_alt)
  then show ?thesis
    using n assms(4) collect_fee_balanced [of _ "k + unat debit" fee H]
    by (metis option.inject trans_le_add2 word_le_nat_alt)
qed

end
