(* ===== verification/LedgerStake.thy ===== *)
theory LedgerStake
  imports LedgerAccounts
begin

text \<open>
  Staking in the ledger, \<^verbatim>\<open>src/crates/qtv-node/src/ledger.rs\<close>: bonds and their totals, slashing,
  rewards, exits and withdrawals.  An operation that can panic returns an option; None is the panic.
  The results conserve native value, keep the staked total equal to the sum of the bonds, and say
  when an exit is paid.
\<close>

section \<open>Bonds and totals\<close>

definition stake_bond :: "bytes \<Rightarrow> ledger \<Rightarrow> bond option" where
  "stake_bond i l = held l (StakeBond i) as_bond"

definition set_stake_bond :: "bytes \<Rightarrow> bond \<Rightarrow> ledger \<Rightarrow> ledger" where
  "set_stake_bond i b = write_leaf (StakeBond i) (VBond b)"

definition clear_stake_bond :: "bytes \<Rightarrow> ledger \<Rightarrow> ledger" where
  "clear_stake_bond i = write_leaf (StakeBond i) Cleared"

definition is_stake_banned :: "bytes \<Rightarrow> ledger \<Rightarrow> bool" where
  "is_stake_banned i l \<longleftrightarrow> marked l (StakeBanned i)"

definition set_stake_banned :: "bytes \<Rightarrow> ledger \<Rightarrow> ledger" where
  "set_stake_banned i = write_leaf (StakeBanned i) VMark"

definition is_validator_banned :: "bytes \<Rightarrow> ledger \<Rightarrow> bool" where
  "is_validator_banned address l \<longleftrightarrow>
     (case address_id address of Some i \<Rightarrow> is_stake_banned i l | None \<Rightarrow> False)"

definition is_gov_blacklisted :: "bytes \<Rightarrow> ledger \<Rightarrow> bool" where
  "is_gov_blacklisted i l \<longleftrightarrow> marked l (GovBlacklist i)"

definition bonded_amount :: "bytes \<Rightarrow> ledger \<Rightarrow> u64" where
  "bonded_amount i l = (case stake_bond i l of Some b \<Rightarrow> bond_amount b | None \<Rightarrow> 0)"

definition bonded_stake :: "bytes \<Rightarrow> ledger \<Rightarrow> u128" where
  "bonded_stake address l =
     (case address_id address of
        None \<Rightarrow> 0
      | Some i \<Rightarrow>
          if is_stake_banned i l \<or> is_gov_blacklisted i l then 0
          else (case stake_bond i l of Some b \<Rightarrow> ucast (bond_amount b) | None \<Rightarrow> 0))"

definition staked_weight :: "bytes \<Rightarrow> ledger \<Rightarrow> u64" where
  "staked_weight address l =
     (case address_id address of
        None \<Rightarrow> 0
      | Some i \<Rightarrow>
          if is_stake_banned i l \<or> is_gov_blacklisted i l then 0
          else (case stake_bond i l of
                  Some b \<Rightarrow> bond_amount b div ucast Staking.NATIVE_UNIT | None \<Rightarrow> 0))"

definition current_epoch :: "ledger \<Rightarrow> u64" where
  "current_epoch l =
     (case checked_div (execution_height l) (heights_per_epoch l) of Some e \<Rightarrow> e | None \<Rightarrow> 0)"

definition governance_stake_in_epoch :: "bytes \<Rightarrow> u64 \<Rightarrow> ledger \<Rightarrow> u64" where
  "governance_stake_in_epoch address epoch l =
     (case address_id address of
        None \<Rightarrow> 0
      | Some i \<Rightarrow>
          if is_stake_banned i l \<or> is_gov_blacklisted i l then 0
          else (case stake_bond i l of
                  Some b \<Rightarrow> amount_in_epoch b epoch (heights_per_epoch l) div ucast Staking.NATIVE_UNIT
                | None \<Rightarrow> 0))"

definition staked_weight_in_epoch :: "bytes \<Rightarrow> u64 \<Rightarrow> ledger \<Rightarrow> u64" where
  "staked_weight_in_epoch address epoch l =
     (case address_id address of
        None \<Rightarrow> 0
      | Some i \<Rightarrow>
          if is_stake_banned i l \<or> is_gov_blacklisted i l then 0
          else (case stake_bond i l of
                  Some b \<Rightarrow> weight_in_epoch b epoch (heights_per_epoch l) div ucast Staking.NATIVE_UNIT
                | None \<Rightarrow> 0))"

definition stake_pool :: "ledger \<Rightarrow> u64" where
  "stake_pool l = held_or 0 l (Single StakePool) as_u64"

definition set_stake_pool :: "u64 \<Rightarrow> ledger \<Rightarrow> ledger" where
  "set_stake_pool amount = write_leaf (Single StakePool) (VU64 amount)"

definition stake_treasury :: "ledger \<Rightarrow> u64" where
  "stake_treasury l = held_or 0 l (Single StakeTreasury) as_u64"

definition set_stake_treasury :: "u64 \<Rightarrow> ledger \<Rightarrow> ledger" where
  "set_stake_treasury amount = write_leaf (Single StakeTreasury) (VU64 amount)"

definition total_staked :: "ledger \<Rightarrow> u64" where
  "total_staked l = held_or 0 l (Single StakeTotal) as_u64"

definition set_total_staked :: "u64 \<Rightarrow> ledger \<Rightarrow> ledger" where
  "set_total_staked amount = write_leaf (Single StakeTotal) (VU64 amount)"

definition total_staked_active :: "ledger \<Rightarrow> u64" where
  "total_staked_active l = held_or 0 l (Single StakeTotalActive) as_u64"

definition set_total_staked_active :: "u64 \<Rightarrow> ledger \<Rightarrow> ledger" where
  "set_total_staked_active amount = write_leaf (Single StakeTotalActive) (VU64 amount)"

definition total_staked_raised_at :: "ledger \<Rightarrow> u64" where
  "total_staked_raised_at l = held_or 0 l (Single StakeTotalRaised) as_u64"

definition set_total_staked_raised_at :: "u64 \<Rightarrow> ledger \<Rightarrow> ledger" where
  "set_total_staked_raised_at height = write_leaf (Single StakeTotalRaised) (VU64 height)"

definition matured_total_staked :: "ledger \<Rightarrow> u64" where
  "matured_total_staked l =
     (let tot = total_staked l in
      if heights_per_epoch l = 0 then tot
      else let raised_epoch =
             (case checked_div (total_staked_raised_at l) (heights_per_epoch l) of Some e \<Rightarrow> e | None \<Rightarrow> 0)
           in if raised_epoch < current_epoch l then tot else min (total_staked_active l) tot)"

definition credit_staked :: "u64 \<Rightarrow> ledger \<Rightarrow> ledger" where
  "credit_staked amount l =
     (if amount = 0 then l
      else let active = matured_total_staked l;
               next_total = saturating_add (total_staked l) amount;
               l = set_total_staked_active active l;
               l = set_total_staked_raised_at (execution_height l) l
           in set_total_staked next_total l)"

definition debit_staked :: "u64 \<Rightarrow> ledger \<Rightarrow> ledger" where
  "debit_staked amount l =
     (if amount = 0 then l
      else let next_total = saturating_sub (total_staked l) amount;
               active = min (total_staked_active l) next_total;
               l = set_total_staked_active active l
           in set_total_staked next_total l)"

definition seed_validator_bond_at :: "bytes \<Rightarrow> u64 \<Rightarrow> u64 \<Rightarrow> ledger \<Rightarrow> ledger option" where
  "seed_validator_bond_at address amount day l =
     (case address_id address of
        None \<Rightarrow> None
      | Some i \<Rightarrow>
          let b = \<lparr>bond_amount = amount, bonded_at_day = day, exit_requested_at = None,
                   active_amount = amount, raised_at_height = 0\<rparr>;
              existing = bonded_amount i l;
              l = set_stake_bond i b l
          in Some (if existing \<le> amount then credit_staked (amount - existing) l
                   else debit_staked (existing - amount) l))"

section \<open>Rewards\<close>

definition stake_price :: "ledger \<Rightarrow> u128" where
  "stake_price l = held_or 0 l (Single StakePrice) as_u128"

definition set_stake_price :: "u128 \<Rightarrow> ledger \<Rightarrow> ledger" where
  "set_stake_price rate = write_leaf (Single StakePrice) (VU128 rate)"

definition stake_mainnet_start :: "ledger \<Rightarrow> u64" where
  "stake_mainnet_start l = held_or (- 1) l (Single StakeMainnet) as_u64"

definition set_stake_mainnet_start :: "u64 \<Rightarrow> ledger \<Rightarrow> ledger" where
  "set_stake_mainnet_start day = write_leaf (Single StakeMainnet) (VU64 day)"

definition session_meter :: "ledger \<Rightarrow> session_meter" where
  "session_meter l = held_or (new_meter 0) l (Single StakeMeter) as_meter"

definition set_session_meter :: "session_meter \<Rightarrow> ledger \<Rightarrow> ledger" where
  "set_session_meter m = write_leaf (Single StakeMeter) (VMeter m)"

definition stake_rewards :: "bytes \<Rightarrow> ledger \<Rightarrow> reward_book" where
  "stake_rewards i l = held_or book_default l (StakeRewards i) as_book"

definition set_stake_rewards :: "bytes \<Rightarrow> reward_book \<Rightarrow> ledger \<Rightarrow> ledger" where
  "set_stake_rewards i b = write_leaf (StakeRewards i) (VBook b)"

definition clear_stake_rewards :: "bytes \<Rightarrow> ledger \<Rightarrow> ledger" where
  "clear_stake_rewards i = write_leaf (StakeRewards i) Cleared"

fun sum_u64 :: "u64 list \<Rightarrow> u64 \<Rightarrow> u64 option" where
  "sum_u64 [] acc = Some acc"
| "sum_u64 (x # xs) acc = do { acc \<leftarrow> checked_add acc x; sum_u64 xs acc }"

definition stake_rewards_outstanding :: "bytes \<Rightarrow> ledger \<Rightarrow> u64 option" where
  "stake_rewards_outstanding i l =
     sum_u64 (map (\<lambda>t. saturating_sub (tranche_amount t) (claimed t)) (tranches (stake_rewards i l))) 0"

definition validator_ids :: "ledger \<Rightarrow> bytes list" where
  "validator_ids l = held_or [] l (Single StakeValidators) as_ids"

definition roster_reward_denominator :: "ledger \<Rightarrow> u64 option" where
  "roster_reward_denominator l =
     sum_u64 (List.map_filter (\<lambda>i. map_option (\<lambda>b. weight_in_epoch b (current_epoch l) (heights_per_epoch l)) (stake_bond i l))
       (filter (\<lambda>i. \<not> is_stake_banned i l \<and> \<not> is_gov_blacklisted i l) (validator_ids l))) 0"

text \<open>The last part of \<^verbatim>\<open>accrue_reward_by_id\<close>: \<open>paid\<close> is drawn from the pool, then issued.\<close>

definition grant_reward :: "bytes \<Rightarrow> u64 \<Rightarrow> u64 \<Rightarrow> u64 \<Rightarrow> reward_book \<Rightarrow> ledger \<Rightarrow> ledger" where
  "grant_reward i now_day paid blocks book l =
     (let book = book\<lparr>paid_in_period := saturating_add (paid_in_period book) paid\<rparr>;
          from_pool = min paid (stake_pool l);
          l = (if 0 < from_pool then set_stake_pool (stake_pool l - from_pool) l else l);
          l = (if from_pool < paid then credit_supply (paid - from_pool) l else l);
          book = book\<lparr>tranches := tranches book @
            [\<lparr>earned_day = now_day, tranche_amount = paid, claimed = 0\<rparr>]\<rparr>;
          book = (if REWARD_PERIOD_BLOCKS \<le> blocks
                  then book\<lparr>period_anchor := execution_height l, paid_in_period := 0\<rparr> else book);
          l = set_stake_rewards i book l
      in case id_bytes_to_address i of
           Some address \<Rightarrow> record_side_event (Reward address paid) (record_reward_event address paid l)
         | None \<Rightarrow> l)"

definition accrue_reward_by_id :: "bytes \<Rightarrow> u64 \<Rightarrow> ledger \<Rightarrow> (u64 \<times> ledger) option" where
  "accrue_reward_by_id i now_day l =
     (if in_blackout now_day (stake_mainnet_start l) then Some (0, l)
      else if is_stake_banned i l \<or> is_gov_blacklisted i l then Some (0, l)
      else case stake_bond i l of
        None \<Rightarrow> Some (0, l)
      | Some b \<Rightarrow>
          if weight_in_epoch b (current_epoch l) (heights_per_epoch l) = 0 then Some (0, l)
          else if list_ex (\<lambda>t. earned_day t = now_day) (tranches (stake_rewards i l)) then Some (0, l)
          else do {
            let height = execution_height l;
            let book = stake_rewards i l;
            let anchor = max (period_anchor book) (raised_at_height b);
            let book = (if period_anchor book \<noteq> anchor
                        then book\<lparr>period_anchor := anchor, paid_in_period := 0\<rparr> else book);
            let blocks = saturating_sub height (period_anchor book);
            entitled \<leftarrow> validator_reward blocks;
            let paid = saturating_sub entitled (paid_in_period book);
            if paid = 0 then Some (0, set_stake_rewards i book l)
            else Some (paid, grant_reward i now_day paid blocks book l) })"

definition claimable_reward :: "bytes \<Rightarrow> u64 \<Rightarrow> ledger \<Rightarrow> u64 option" where
  "claimable_reward address now_day l =
     (case address_id address of
        None \<Rightarrow> Some 0
      | Some i \<Rightarrow>
          if is_stake_banned i l \<or> is_gov_blacklisted i l then Some 0
          else sum_u64 (map (\<lambda>t. saturating_sub
              (released (tranche_amount t) (saturating_sub now_day (earned_day t))) (claimed t))
            (tranches (stake_rewards i l))) 0)"

text \<open>The loop of \<^verbatim>\<open>claim_reward\<close>: the amount credited and the tranches with their new claims.\<close>

fun claim_tranches :: "u64 \<Rightarrow> reward_tranche list \<Rightarrow> u64 \<Rightarrow> (u64 \<times> reward_tranche list) option" where
  "claim_tranches now_day [] credited = Some (credited, [])"
| "claim_tranches now_day (t # ts) credited = do {
     let vested = released (tranche_amount t) (saturating_sub now_day (earned_day t));
     credited \<leftarrow> checked_add credited (saturating_sub vested (claimed t));
     (credited, ts) \<leftarrow> claim_tranches now_day ts credited;
     Some (credited, t\<lparr>claimed := vested\<rparr> # ts) }"

definition claim_reward :: "bytes \<Rightarrow> u64 \<Rightarrow> ledger \<Rightarrow> (u64 \<times> ledger) option" where
  "claim_reward address now_day l =
     (case address_id address of
        None \<Rightarrow> Some (0, l)
      | Some i \<Rightarrow>
          if is_stake_banned i l \<or> is_gov_blacklisted i l then Some (0, l)
          else do {
            let book = stake_rewards i l;
            (credited, ts) \<leftarrow> claim_tranches now_day (tranches book) 0;
            if credited = 0 then Some (0, l)
            else do {
              let l = set_stake_rewards i
                (book\<lparr>tranches := filter (\<lambda>t. claimed t < tranche_amount t) ts\<rparr>) l;
              let a = account address l;
              let l = set_account address (a\<lparr>account_balance := saturating_add (account_balance a) credited\<rparr>) l;
              Some (credited, record_side_event (RewardClaim address credited) l) } })"

definition claim_with_fee :: "hash \<Rightarrow> bytes \<Rightarrow> u64 \<Rightarrow> u64 \<Rightarrow> ledger \<Rightarrow> (bool \<times> ledger) option" where
  "claim_with_fee H address fee now_day l =
     (if account_balance (account address l) < fee then Some (False, l)
      else do {
        l \<leftarrow> pay H address fee fee l;
        (_, l) \<leftarrow> claim_reward address now_day l;
        Some (True, l) })"

definition record_session :: "u64 \<Rightarrow> u64 \<Rightarrow> ledger \<Rightarrow> session option \<times> ledger" where
  "record_session transactions now_day l =
     (let m = meter_record (session_meter l) transactions;
          (closed, m) = meter_close m now_day
      in (closed, set_session_meter m l))"

primrec accrue_each :: "bytes list \<Rightarrow> u64 \<Rightarrow> ledger \<Rightarrow> ledger option" where
  "accrue_each [] now_day l = Some l"
| "accrue_each (i # is) now_day l = do { (_, l) \<leftarrow> accrue_reward_by_id i now_day l; accrue_each is now_day l }"

definition settle_session :: "u64 \<Rightarrow> u64 \<Rightarrow> ledger \<Rightarrow> ledger option" where
  "settle_session now_day transactions l =
     (if stake_mainnet_start l = - 1 then Some l
      else case record_session transactions now_day l of (closed, l) \<Rightarrow>
        if closed = None then Some l
        else do {
          _ \<leftarrow> roster_reward_denominator l;
          accrue_each (validator_ids l) now_day l })"

section \<open>Bonding, slashing, exit and withdrawal\<close>

definition raised_bond :: "bytes \<Rightarrow> u64 \<Rightarrow> u64 \<Rightarrow> ledger \<Rightarrow> bond" where
  "raised_bond i tot day l =
     (let b = (case stake_bond i l of
                 Some b \<Rightarrow> b
               | None \<Rightarrow> \<lparr>bond_amount = 0, bonded_at_day = day, exit_requested_at = None,
                          active_amount = 0, raised_at_height = 0\<rparr>);
          b = b\<lparr>bonded_at_day := day\<rparr>;
          b = rejoin b (execution_height l) (heights_per_epoch l)
      in raise_to b tot (execution_height l) (heights_per_epoch l))"

definition bond :: "bytes \<Rightarrow> u64 \<Rightarrow> u64 \<Rightarrow> ledger \<Rightarrow> bool \<times> ledger" where
  "bond address amount day l =
     (case address_id address of
        None \<Rightarrow> (False, l)
      | Some i \<Rightarrow>
          if is_stake_banned i l \<or> is_gov_blacklisted i l then (False, l)
          else let a = account address l in
            if account_balance a < amount then (False, l)
            else case checked_add (bonded_amount i l) amount of
              None \<Rightarrow> (False, l)
            | Some tot \<Rightarrow>
                if \<not> eligible tot then (False, l)
                else let l = set_account address (a\<lparr>account_balance := account_balance a - amount\<rparr>) l;
                         l = set_stake_bond i (raised_bond i tot day l) l
                     in (True, credit_staked amount l))"

definition bond_with_fee ::
  "hash \<Rightarrow> bytes \<Rightarrow> u64 \<Rightarrow> u64 \<Rightarrow> u64 \<Rightarrow> ledger \<Rightarrow> (bool \<times> ledger) option" where
  "bond_with_fee H address amount fee day l =
     (case address_id address of
        None \<Rightarrow> Some (False, l)
      | Some i \<Rightarrow>
          if is_stake_banned i l \<or> is_gov_blacklisted i l then Some (False, l)
          else case checked_add amount fee of
            None \<Rightarrow> Some (False, l)
          | Some debit \<Rightarrow>
              if account_balance (account address l) < debit then Some (False, l)
              else case checked_add (bonded_amount i l) amount of
                None \<Rightarrow> Some (False, l)
              | Some tot \<Rightarrow>
                  if \<not> eligible tot then Some (False, l)
                  else do {
                    l \<leftarrow> pay H address debit fee l;
                    let l = set_stake_bond i (raised_bond i tot day l) l;
                    let l = credit_staked amount l;
                    let l = record_bond_event address amount fee l;
                    Some (True, record_side_event (Ev_Bond address amount fee) l) })"

definition bond_admissible :: "bytes \<Rightarrow> u64 \<Rightarrow> u64 \<Rightarrow> ledger \<Rightarrow> bool" where
  "bond_admissible address amount fee l =
     (case address_id address of
        None \<Rightarrow> False
      | Some i \<Rightarrow>
          if is_stake_banned i l \<or> is_gov_blacklisted i l then False
          else case checked_add amount fee of
            None \<Rightarrow> False
          | Some debit \<Rightarrow>
              if account_balance (account address l) < debit then False
              else (case checked_add (bonded_amount i l) amount of None \<Rightarrow> False | Some tot \<Rightarrow> eligible tot))"

definition slash_validator :: "bytes \<Rightarrow> ledger \<Rightarrow> (bool \<times> ledger) option" where
  "slash_validator address l =
     (case address_id address of
        None \<Rightarrow> Some (False, l)
      | Some i \<Rightarrow>
          if is_stake_banned i l then Some (False, l)
          else do {
            let l = set_stake_banned i l;
            let l = (case stake_bond i l of
                       Some b \<Rightarrow>
                         record_side_event (Events.Slash address (bond_amount b) SLASH_DISPOSITION_BURN)
                           (record_slash_event address (bond_amount b)
                             (clear_stake_bond i (debit_staked (bond_amount b)
                               (debit_supply (bond_amount b) l))))
                     | None \<Rightarrow> l);
            forfeited \<leftarrow> stake_rewards_outstanding i l;
            let l = (if 0 < forfeited then debit_supply forfeited l else l);
            Some (True, clear_stake_rewards i l) })"

definition credit_if :: "bytes \<Rightarrow> u64 \<Rightarrow> ledger \<Rightarrow> ledger" where
  "credit_if address amount l =
     (if 0 < amount
      then set_account address (account address l\<lparr>account_balance :=
             saturating_add (account_balance (account address l)) amount\<rparr>) l
      else l)"

definition slash_stake :: "bytes \<Rightarrow> fault \<Rightarrow> ledger \<Rightarrow> (u64 \<times> ledger) option" where
  "slash_stake address fault l =
     (case address_id address of
        None \<Rightarrow> Some (0, l)
      | Some i \<Rightarrow>
          case stake_bond i l of
            None \<Rightarrow> Some (0, l)
          | Some b \<Rightarrow> do {
              penalty \<leftarrow> slash (bond_amount b) fault;
              let taken = min penalty (bond_amount b);
              let l = set_stake_treasury (saturating_add (stake_treasury l) taken) l;
              let l = debit_staked (bond_amount b) l;
              let residue = bond_amount b - taken;
              let l = credit_if address residue l;
              let l = (if 0 < taken
                       then record_side_event (Events.Slash address taken SLASH_DISPOSITION_TREASURY)
                              (record_slash_event address taken l)
                       else l);
              let l = clear_stake_bond i l;
              let l = set_stake_banned i l;
              forfeited \<leftarrow> stake_rewards_outstanding i l;
              let l = (if 0 < forfeited
                       then set_stake_treasury (saturating_add (stake_treasury l) forfeited) l else l);
              Some (taken, clear_stake_rewards i l) })"

definition gov_lock :: "bytes \<Rightarrow> ledger \<Rightarrow> lock option" where
  "gov_lock voter l = held l (GovLock voter) as_lock"

definition exit_vote_locked :: "bytes \<Rightarrow> u64 \<Rightarrow> ledger \<Rightarrow> bool" where
  "exit_vote_locked i now_day l \<longleftrightarrow>
     (case gov_lock i l of
        None \<Rightarrow> False
      | Some k \<Rightarrow> 0 < lock_amount k \<and> saturating_mul now_day 86400 < lock_until k)"

definition request_stake_exit :: "bytes \<Rightarrow> u64 \<Rightarrow> ledger \<Rightarrow> bool \<times> ledger" where
  "request_stake_exit address now_day l =
     (case address_id address of
        None \<Rightarrow> (False, l)
      | Some i \<Rightarrow>
          case stake_bond i l of
            None \<Rightarrow> (False, l)
          | Some b \<Rightarrow>
              if exit_vote_locked i now_day l then (False, l)
              else case request_exit_at b now_day (execution_height l) (heights_per_epoch l) of
                (True, b) \<Rightarrow> (True, set_stake_bond i b l)
              | (False, _) \<Rightarrow> (False, l))"

definition exit_ready :: "bytes \<Rightarrow> u64 \<Rightarrow> ledger \<Rightarrow> bool" where
  "exit_ready i now_day l \<longleftrightarrow>
     (case stake_bond i l of
        Some b \<Rightarrow> exit_requested_at b = None \<and> can_request_exit b now_day
      | None \<Rightarrow> False) \<and> \<not> exit_vote_locked i now_day l"

definition request_exit_with_fee ::
  "hash \<Rightarrow> bytes \<Rightarrow> u64 \<Rightarrow> u64 \<Rightarrow> ledger \<Rightarrow> (bool \<times> ledger) option" where
  "request_exit_with_fee H address fee now_day l =
     (case address_id address of
        None \<Rightarrow> Some (False, l)
      | Some i \<Rightarrow>
          if \<not> exit_ready i now_day l then Some (False, l)
          else if account_balance (account address l) < fee then Some (False, l)
          else do { l \<leftarrow> pay H address fee fee l; Some (request_stake_exit address now_day l) })"

definition request_exit_admissible :: "bytes \<Rightarrow> u64 \<Rightarrow> u64 \<Rightarrow> ledger \<Rightarrow> bool" where
  "request_exit_admissible address fee now_day l =
     (case address_id address of
        None \<Rightarrow> False
      | Some i \<Rightarrow> exit_ready i now_day l \<and> fee \<le> account_balance (account address l))"

definition stake_payee :: "bytes \<Rightarrow> ledger \<Rightarrow> bytes option" where
  "stake_payee i l =
     (case held l (StakePayee i) as_bytes of Some p \<Rightarrow> if length p = 32 then Some p else None | None \<Rightarrow> None)"

definition designate_stake_payee_with_fee ::
  "hash \<Rightarrow> bytes \<Rightarrow> bytes \<Rightarrow> u64 \<Rightarrow> ledger \<Rightarrow> (bool \<times> ledger) option" where
  "designate_stake_payee_with_fee H address payee fee l =
     (case address_id address of
        None \<Rightarrow> Some (False, l)
      | Some i \<Rightarrow>
          if stake_payee i l \<noteq> None \<or> payee = replicate 32 0 then Some (False, l)
          else if account_balance (account address l) < fee then Some (False, l)
          else do {
            l \<leftarrow> pay H address fee fee l;
            Some (True, write_leaf (StakePayee i) (VBytes payee) l) })"

definition ready_bond :: "bytes \<Rightarrow> u64 \<Rightarrow> ledger \<Rightarrow> bond option option" where
  "ready_bond i now_day l =
     (case stake_bond i l of
        None \<Rightarrow> Some None
      | Some b \<Rightarrow> do { w \<leftarrow> can_withdraw b now_day; Some (if w then Some b else None) })"

definition withdraw_stake :: "bytes \<Rightarrow> u64 \<Rightarrow> ledger \<Rightarrow> (bool \<times> ledger) option" where
  "withdraw_stake address now_day l =
     (case address_id address of
        None \<Rightarrow> Some (False, l)
      | Some i \<Rightarrow> do {
          ready \<leftarrow> ready_bond i now_day l;
          case ready of
            None \<Rightarrow> Some (False, l)
          | Some b \<Rightarrow> do {
              let l = clear_stake_bond i l;
              let l = debit_staked (bond_amount b) l;
              let payee = (case Option.bind (stake_payee i l) id_bytes_to_address of
                             Some p \<Rightarrow> p | None \<Rightarrow> address);
              let a = account payee l;
              let l = set_account payee (a\<lparr>account_balance := saturating_add (account_balance a) (bond_amount b)\<rparr>) l;
              let l = record_unbond_event address (bond_amount b) l;
              Some (True, record_side_event (Unbond address (bond_amount b)) l) } })"

definition withdraw_with_fee :: "hash \<Rightarrow> bytes \<Rightarrow> u64 \<Rightarrow> u64 \<Rightarrow> ledger \<Rightarrow> (bool \<times> ledger) option" where
  "withdraw_with_fee H address fee now_day l =
     (case address_id address of
        None \<Rightarrow> Some (False, l)
      | Some i \<Rightarrow> do {
          ready \<leftarrow> ready_bond i now_day l;
          if ready = None then Some (False, l)
          else if account_balance (account address l) < fee then Some (False, l)
          else do { l \<leftarrow> pay H address fee fee l; withdraw_stake address now_day l } })"

definition withdraw_admissible :: "bytes \<Rightarrow> u64 \<Rightarrow> u64 \<Rightarrow> ledger \<Rightarrow> bool option" where
  "withdraw_admissible address fee now_day l =
     (case address_id address of
        None \<Rightarrow> Some False
      | Some i \<Rightarrow> do {
          ready \<leftarrow> ready_bond i now_day l;
          Some (ready \<noteq> None \<and> fee \<le> account_balance (account address l)) })"

section \<open>The staking invariant\<close>

text \<open>
  \<open>sound l k m n\<close>: the holdings are the supply but for \<open>k\<close> units in flight, the bonds and \<open>m\<close> add up
  to the staked total and \<open>n\<close>, and no stored reward tranche has been claimed.  Between transactions
  all three are zero.
\<close>

definition bond_value :: "leaf \<Rightarrow> value \<Rightarrow> nat" where
  "bond_value k v =
     (case k of
        StakeBond _ \<Rightarrow> (case as_bond v of Some b \<Rightarrow> unat (bond_amount b) | None \<Rightarrow> 0)
      | _ \<Rightarrow> 0)"

definition staked_sum :: "ledger \<Rightarrow> nat" where
  "staked_sum l = fm_sum bond_value (store l)"

definition books_open :: "ledger \<Rightarrow> bool" where
  "books_open l \<longleftrightarrow> (\<forall>i b. held l (StakeRewards i) as_book = Some b \<longrightarrow> list_all (\<lambda>t. claimed t = 0) (tranches b))"

definition sound :: "ledger \<Rightarrow> nat \<Rightarrow> nat \<Rightarrow> nat \<Rightarrow> bool" where
  "sound l k m n \<longleftrightarrow>
     balanced l k \<and> staked_sum l + m = unat (total_staked l) + n \<and> books_open l"

lemma sound_settled: "sound l k m n \<Longrightarrow> m = n \<Longrightarrow> sound l k 0 0"
  by (simp add: sound_def)

lemma as_bond_iff: "as_bond v = Some b \<longleftrightarrow> v = VBond b"
  by (cases v) auto

lemma as_book_iff: "as_book v = Some b \<longleftrightarrow> v = VBook b"
  by (cases v) auto

lemma as_lock_iff: "as_lock v = Some b \<longleftrightarrow> v = VLock b"
  by (cases v) auto

lemma as_u64_iff: "as_u64 v = Some b \<longleftrightarrow> v = VU64 b"
  by (cases v) auto

lemma as_referendum_iff: "as_referendum v = Some b \<longleftrightarrow> v = VReferendum b"
  by (cases v) auto

lemma native_at_bond: "native_at l (StakeBond i) = unat (bonded_amount i l)"
  by (cases "peek l (StakeBond i)")
    (auto simp: bonded_amount_def stake_bond_def held_def native_value_def native_kind_def as_bond_iff
      split: option.splits)

lemma bond_at: "fm_at bond_value (store l) (StakeBond i) = unat (bonded_amount i l)"
  by (cases "peek l (StakeBond i)")
    (auto simp: bonded_amount_def stake_bond_def held_def bond_value_def split: option.splits)

lemma native_at_rewards: "native_at l (StakeRewards i) = book_outstanding (stake_rewards i l)"
  by (cases "peek l (StakeRewards i)")
    (auto simp: stake_rewards_def held_or_def held_def native_value_def native_kind_def as_book_iff
      book_outstanding_def book_default_def split: option.splits)

lemma native_at_u64:
  "native_at l (Single StakePool) = unat (stake_pool l)"
  "native_at l (Single StakeTreasury) = unat (stake_treasury l)"
  by (auto simp: fm_at_def stake_pool_def stake_treasury_def held_or_def held_def native_value_def
      native_kind_def as_u64_iff split: option.splits)

lemma native_at_lock:
  "native_at l (GovLock i) = (case gov_lock i l of Some k \<Rightarrow> unat (lock_amount k) | None \<Rightarrow> 0)"
  by (cases "peek l (GovLock i)")
    (auto simp: gov_lock_def held_def native_value_def native_kind_def as_lock_iff split: option.splits)

lemma bond_value_0 [simp]: "(\<And>i. k \<noteq> StakeBond i) \<Longrightarrow> bond_value k v = 0"
  by (cases k) (auto simp: bond_value_def)

lemma bond_le_native: "bond_value k v \<le> native_value k v"
  by (cases k) (auto simp: bond_value_def native_value_def native_kind_def as_bond_iff split: option.splits)

lemma staked_le_holdings: "staked_sum l \<le> holdings l"
  unfolding staked_sum_def holdings_def fm_sum_def by (intro sum_mono bond_le_native)

lemma staked_write:
  "staked_sum (write_leaf k v l) + fm_at bond_value (store l) k = staked_sum l + bond_value k v"
  by (simp add: staked_sum_def fm_sum_upd)

lemma staked_write_other: "(\<And>i. k \<noteq> StakeBond i) \<Longrightarrow> staked_sum (write_leaf k v l) = staked_sum l"
  using staked_write [of k v l] by (simp add: fm_at_def split: option.splits)

lemma books_open_write:
  "books_open l \<Longrightarrow> (\<And>b. v = VBook b \<Longrightarrow> list_all (\<lambda>t. claimed t = 0) (tranches b)) \<Longrightarrow>
     books_open (write_leaf k v l)"
  by (auto simp: books_open_def as_book_iff)

text \<open>A leaf that is neither a bond nor a total moves only native value.\<close>

lemma sound_write:
  assumes "sound l k m n" and "j \<noteq> Single Supply" and "j \<noteq> Single StakeTotal" and "\<And>i. j \<noteq> StakeBond i"
    and "\<And>b. v = VBook b \<Longrightarrow> list_all (\<lambda>t. claimed t = 0) (tranches b)"
    and "native_value j v + k' = native_at l j + k"
  shows "sound (write_leaf j v l) k' m n"
  using assms
  by (auto simp: sound_def staked_write_other total_staked_def intro: balanced_write books_open_write)

lemma sound_events [simp]:
  "sound (record_side_event e l) k m n \<longleftrightarrow> sound l k m n"
  "sound (record_native_event kind dat l) k m n \<longleftrightarrow> sound l k m n"
  by (simp_all add: sound_def balanced_def holdings_def staked_sum_def books_open_def total_supply_def
      total_staked_def)

lemma sound_neutral:
  assumes "sound l k m n" and "j \<noteq> Single Supply" and "j \<noteq> Single StakeTotal"
    and "\<And>v. native_value j v = 0"
  shows "sound (write_leaf j v l) k m n"
proof -
  have "j \<noteq> StakeBond i" for i
    using assms(4) [of "VBond \<lparr>bond_amount = 1, bonded_at_day = 0, exit_requested_at = None,
      active_amount = 0, raised_at_height = 0\<rparr>"]
    by (auto simp: native_value_def native_kind_def)
  moreover have "held (write_leaf j v l) (StakeRewards i) as_book = held l (StakeRewards i) as_book" for i
    using assms(4) [of "VBook \<lparr>tranches = [\<lparr>earned_day = 0, tranche_amount = 1, claimed = 0\<rparr>],
      period_anchor = 0, paid_in_period = 0\<rparr>"]
    by (auto simp: native_value_def native_kind_def book_outstanding_def outstanding_def)
  ultimately show ?thesis
    using assms
    by (auto simp: sound_def staked_write_other total_staked_def books_open_def fm_at_def
        intro!: balanced_write split: option.splits simp del: held_write)
qed

lemma sound_bound: "sound l k m n \<Longrightarrow> native_at l j + k \<le> unat (total_supply l)"
  by (simp add: sound_def holdings_le)

lemma saturating_exact:
  "unat a + unat b < 2 ^ 64 \<Longrightarrow> unat (saturating_add a (b :: u64)) = unat a + unat b"
  by (simp add: word_nat)

lemma sound_fits:
  assumes "sound l k m n" and "unat amount \<le> k" and "native_at l j = unat x"
  shows "unat (saturating_add x (amount :: u64)) = unat x + unat amount"
  using sound_bound [OF assms(1), of j] assms(2,3) u64_less [of "total_supply l"]
  by (intro saturating_exact) linarith

lemma sound_set_account:
  assumes "sound l k m n" and "unat (account_balance a) + k' = unat (account_balance (account address l)) + k"
  shows "sound (set_account address a l) k' m n"
  unfolding set_account_def
  by (rule sound_write [OF assms(1)])
    (use assms(2) in \<open>simp_all add: native_at_account balance_def native_value_def\<close>)

lemma sound_credit:
  assumes "sound l k m n" and "unat amount \<le> k"
  shows "sound (set_account address ((account address l)\<lparr>account_balance :=
    saturating_add (account_balance (account address l)) amount\<rparr>) l) (k - unat amount) m n"
  using assms sound_fits [OF assms native_at_account [of l address, unfolded balance_def]]
  by (intro sound_set_account) simp_all

lemma sound_set_treasury:
  assumes "sound l k m n" and "unat x + k' = unat (stake_treasury l) + k"
  shows "sound (set_stake_treasury x l) k' m n"
  unfolding set_stake_treasury_def
  by (rule sound_write [OF assms(1)])
    (use assms(2) in \<open>simp_all add: native_at_u64 native_value_def native_kind_def\<close>)

lemma sound_credit_treasury:
  assumes "sound l k m n" and "unat amount \<le> k"
  shows "sound (set_stake_treasury (saturating_add (stake_treasury l) amount) l) (k - unat amount) m n"
  using assms sound_fits [OF assms native_at_u64(2)] by (intro sound_set_treasury) simp_all

lemma sound_set_pool:
  assumes "sound l k m n" and "unat x + k' = unat (stake_pool l) + k"
  shows "sound (set_stake_pool x l) k' m n"
  unfolding set_stake_pool_def
  by (rule sound_write [OF assms(1)])
    (use assms(2) in \<open>simp_all add: native_at_u64 native_value_def native_kind_def\<close>)

lemma sound_set_rewards:
  assumes "sound l k m n" and "book_outstanding b + k' = book_outstanding (stake_rewards i l) + k"
    and "list_all (\<lambda>t. claimed t = 0) (tranches b)"
  shows "sound (set_stake_rewards i b l) k' m n"
  unfolding set_stake_rewards_def
  by (rule sound_write [OF assms(1)])
    (use assms(2,3) in \<open>simp_all add: native_at_rewards native_value_def native_kind_def\<close>)

lemma sound_clear_rewards:
  assumes "sound l k m n"
  shows "sound (clear_stake_rewards i l) (k + book_outstanding (stake_rewards i l)) m n"
  unfolding clear_stake_rewards_def
  by (rule sound_write [OF assms]) (simp_all add: native_at_rewards native_value_def native_kind_def)

lemma sound_set_bond:
  assumes "sound l k m n" and "unat (bond_amount b) + k' = unat (bonded_amount i l) + k"
  shows "sound (set_stake_bond i b l) k' (m + unat (bonded_amount i l)) (n + unat (bond_amount b))"
proof -
  have "balanced (set_stake_bond i b l) k'"
    unfolding set_stake_bond_def
    by (rule balanced_write [of l k])
      (use assms in \<open>simp_all add: sound_def native_at_bond native_value_def native_kind_def\<close>)
  then show ?thesis
    using assms(1) staked_write [of "StakeBond i" "VBond b" l]
    by (auto simp: sound_def set_stake_bond_def bond_at total_staked_def bond_value_def books_open_def)
qed

lemma sound_clear_bond:
  assumes "sound l k m n"
  shows "sound (clear_stake_bond i l) (k + unat (bonded_amount i l)) (m + unat (bonded_amount i l)) n"
proof -
  have "balanced (clear_stake_bond i l) (k + unat (bonded_amount i l))"
    unfolding clear_stake_bond_def
    by (rule balanced_write [of l k])
      (use assms in \<open>simp_all add: sound_def native_at_bond native_value_def native_kind_def\<close>)
  then show ?thesis
    using assms(1) staked_write [of "StakeBond i" Cleared l]
    by (auto simp: sound_def clear_stake_bond_def bond_at total_staked_def bond_value_def books_open_def)
qed

lemma neutral_totals:
  "native_value (Single StakeTotalActive) v = 0" "native_value (Single StakeTotalRaised) v = 0"
  "native_value (Single StakeTotal) v = 0" "native_value (Single StakeMeter) v = 0"
  "native_value (StakeBanned i) v = 0" "native_value (StakePayee i) v = 0"
  by (simp_all add: native_value_def native_kind_def)

lemma sound_set_total:
  assumes "sound l k m n" and "m' + unat (total_staked l) + n = m + unat x + n'"
  shows "sound (set_total_staked x l) k m' n'"
proof -
  have "balanced (set_total_staked x l) k"
    unfolding set_total_staked_def
    by (rule balanced_write [of l k])
      (use assms in \<open>simp_all add: sound_def neutral_totals fm_at_def split: option.splits\<close>)
  then show ?thesis
    using assms
    by (auto simp: sound_def set_total_staked_def staked_write_other total_staked_def books_open_def)
qed

lemma sound_debit_staked:
  assumes "sound l k m n" and "unat amount \<le> unat (total_staked l)"
  shows "sound (debit_staked amount l) k m (n + unat amount)"
proof (cases "amount = 0")
  case False
  let ?l = "set_total_staked_active (min (total_staked_active l) (saturating_sub (total_staked l) amount)) l"
  have "sound ?l k m n"
    unfolding set_total_staked_active_def by (rule sound_neutral [OF assms(1)]) (simp_all add: neutral_totals)
  then have "sound (set_total_staked (saturating_sub (total_staked l) amount) ?l) k m (n + unat amount)"
    by (rule sound_set_total)
      (use assms(2) in \<open>simp add: word_nat total_staked_def set_total_staked_active_def\<close>)
  with False show ?thesis
    by (simp add: debit_staked_def Let_def)
qed (use assms in \<open>simp add: debit_staked_def\<close>)

lemma sound_credit_staked:
  assumes "sound l k m n" and "m + unat amount \<le> n"
  shows "sound (credit_staked amount l) k (m + unat amount) n"
proof (cases "amount = 0")
  case False
  let ?l = "set_total_staked_raised_at (execution_height l) (set_total_staked_active (matured_total_staked l) l)"
  have "unat (total_staked l) + unat amount \<le> unat (total_supply l)"
    using assms staked_le_holdings [of l] by (simp add: sound_def balanced_def)
  then have fits: "unat (saturating_add (total_staked l) amount) = unat (total_staked l) + unat amount"
    using u64_less [of "total_supply l"] by (intro saturating_exact) linarith
  have "sound ?l k m n"
    unfolding set_total_staked_active_def set_total_staked_raised_at_def
    by (intro sound_neutral assms(1)) (simp_all add: neutral_totals)
  then have "sound (set_total_staked (saturating_add (total_staked l) amount) ?l) k (m + unat amount) n"
    by (rule sound_set_total)
      (simp add: fits, simp add: total_staked_def set_total_staked_active_def set_total_staked_raised_at_def)
  moreover have "execution_height (set_total_staked_active x l) = execution_height l" for x
    by (simp add: set_total_staked_active_def)
  ultimately show ?thesis
    using False by (simp add: credit_staked_def Let_def)
qed (use assms in \<open>simp add: credit_staked_def\<close>)

lemma sound_debit_supply:
  assumes "sound l k m n" and "unat amount \<le> k"
  shows "sound (debit_supply amount l) (k - unat amount) m n"
  using assms balanced_debit_supply [of l k amount]
  by (auto simp: sound_def debit_supply_def set_total_supply_def staked_write_other total_staked_def
      books_open_def)

lemma sound_credit_supply:
  assumes "sound l k m n" and "unat (total_supply l) + unat amount < 2 ^ 64"
  shows "sound (credit_supply amount l) (k + unat amount) m n"
  using assms balanced_credit_supply [of l k amount]
  by (auto simp: sound_def credit_supply_def set_total_supply_def staked_write_other total_staked_def
      books_open_def)

lemma staked_frame: "fee_frame l l' \<Longrightarrow> staked_sum l' = staked_sum l"
proof -
  assume f: "fee_frame l l'"
  let ?A = "fset (fmdom (store l)) \<union> fset (fmdom (store l'))"
  have "fm_at bond_value (store l') k = fm_at bond_value (store l) k" for k
    using f by (cases "is_acct k \<or> k = Single Supply")
      (auto simp: fee_frame_def fm_at_def bond_value_def split: option.splits leaf.splits)
  then show ?thesis
    unfolding staked_sum_def by (subst (1 2) fm_sum_over [of _ ?A]) auto
qed

lemma sound_frame:
  assumes "sound l k m n" and "fee_frame l l'" and "balanced l' k'"
  shows "sound l' k' m n"
  using assms
  by (auto simp: sound_def staked_frame total_staked_def held_or_frame books_open_def held_frame)

lemma sound_pay:
  assumes "pay H address debit fee l = Some l'" and "sound l k m n"
    and "\<not> account_balance (account address l) < debit" and "fee \<le> debit"
  shows "sound l' (k + unat debit - unat fee) m n"
  using assms pay_balanced [OF assms(1), of k] fee_frame_pay [OF assms(1)]
  by (intro sound_frame [OF assms(2)]) (auto simp: sound_def balance_def not_less)

section \<open>Every operation keeps the invariant\<close>

lemma raised_bond_amount [simp]: "bond_amount (raised_bond i tot day l) = tot"
  by (simp add: raised_bond_def raise_to_def Let_def)

lemma bonded_frame:
  assumes "fee_frame l l'"
  shows "stake_bond i l' = stake_bond i l" "bonded_amount i l' = bonded_amount i l"
    "stake_rewards i l' = stake_rewards i l" "is_stake_banned i l' = is_stake_banned i l"
    "is_gov_blacklisted i l' = is_gov_blacklisted i l" "gov_lock i l' = gov_lock i l"
    "stake_payee i l' = stake_payee i l"
  using assms
  by (simp_all add: stake_bond_def bonded_amount_def stake_rewards_def is_stake_banned_def
      is_gov_blacklisted_def gov_lock_def stake_payee_def held_frame held_or_frame marked_frame)

text \<open>Raising a bond by what has been taken from an account.\<close>

lemma sound_raise_bond:
  assumes "sound l (unat amount) 0 0" and "checked_add (bonded_amount i l) amount = Some tot"
  shows "sound (credit_staked amount (set_stake_bond i (raised_bond i tot day l) l)) 0 0 0"
proof -
  have tot: "unat tot = unat (bonded_amount i l) + unat amount"
    using assms(2) by (simp add: checked_add_Some_iff)
  have "sound (set_stake_bond i (raised_bond i tot day l) l) 0
      (0 + unat (bonded_amount i l)) (0 + unat (bond_amount (raised_bond i tot day l)))"
    by (rule sound_set_bond [OF assms(1)]) (simp add: tot)
  then have "sound (credit_staked amount (set_stake_bond i (raised_bond i tot day l) l)) 0
      (0 + unat (bonded_amount i l) + unat amount) (0 + unat (bond_amount (raised_bond i tot day l)))"
    by (rule sound_credit_staked) (simp add: tot)
  then show ?thesis
    by (rule sound_settled) (simp add: tot)
qed

lemma bond_with_fee_sound:
  assumes "bond_with_fee H address amount fee day l = Some (r, l')" and "sound l 0 0 0"
  shows "sound l' 0 0 0"
proof -
  have main: "sound (credit_staked amount (set_stake_bond i (raised_bond i tot day l1) l1)) 0 0 0"
    if pay: "pay H address debit fee l = Some l1" and debit: "checked_add amount fee = Some debit"
      and guard: "\<not> account_balance (account address l) < debit"
      and tot: "checked_add (bonded_amount i l) amount = Some tot" for i debit tot l1
  proof -
    have d: "unat debit = unat amount + unat fee"
      using debit by (simp add: checked_add_Some_iff)
    have "sound l1 (unat amount) 0 0"
      using sound_pay [OF pay assms(2) guard] d by (simp add: word_le_nat_alt)
    moreover have "checked_add (bonded_amount i l1) amount = Some tot"
      using tot bonded_frame [OF fee_frame_pay [OF pay]] by simp
    ultimately show ?thesis
      by (simp add: sound_raise_bond)
  qed
  show ?thesis
    using assms
    by (auto simp: bond_with_fee_def Let_def main event_defs split: option.splits if_splits bind_splits)
qed

lemma bond_sound:
  assumes "bond address amount day l = (r, l')" and "sound l 0 0 0"
  shows "sound l' 0 0 0"
proof -
  have main: "sound (credit_staked amount (set_stake_bond i
      (raised_bond i tot day (set_account address a l)) (set_account address a l))) 0 0 0"
    if "a = (account address l)\<lparr>account_balance := account_balance (account address l) - amount\<rparr>"
      and "\<not> account_balance (account address l) < amount"
      and "checked_add (bonded_amount i l) amount = Some tot" for i tot a
  proof (rule sound_raise_bond)
    show "sound (set_account address a l) (unat amount) 0 0"
      using that by (intro sound_set_account [OF assms(2)]) (simp add: not_less unat_sub word_le_nat_alt)
    show "checked_add (bonded_amount i (set_account address a l)) amount = Some tot"
      using that bonded_frame(2) [OF fee_frame_set(1)] by simp
  qed
  show ?thesis
    using assms by (auto simp: bond_def Let_def main split: option.splits if_splits)
qed

lemma claim_tranches_sum:
  assumes "claim_tranches now_day ts acc = Some (c, ts')" and "list_all (\<lambda>t. claimed t = 0) ts"
  shows "unat c + sum_list (map outstanding (filter (\<lambda>t. claimed t < tranche_amount t) ts')) =
      unat acc + sum_list (map outstanding ts) \<and>
    list_all (\<lambda>t. claimed t = 0) (filter (\<lambda>t. claimed t < tranche_amount t) ts')"
  using assms
proof (induction ts arbitrary: acc c ts')
  case (Cons t ts)
  let ?v = "released (tranche_amount t) (saturating_sub now_day (earned_day t))"
  from Cons.prems(1) obtain acc' us where acc': "checked_add acc (saturating_sub ?v (claimed t)) = Some acc'"
    and us: "claim_tranches now_day ts acc' = Some (c, us)" "ts' = t\<lparr>claimed := ?v\<rparr> # us"
    by (auto simp: Let_def split: bind_splits)
  have v: "?v = 0 \<or> ?v = tranche_amount t"
    by (simp add: released_def)
  from acc' Cons.prems(2) have "unat acc' = unat acc + unat ?v"
    by (simp add: word_nat)
  with Cons.IH [OF us(1)] Cons.prems(2) v show ?case
    by (auto simp: us(2) outstanding_def word_gt_0)
qed simp

lemma books_openD: "books_open l \<Longrightarrow> list_all (\<lambda>t. claimed t = 0) (tranches (stake_rewards i l))"
  by (cases "held l (StakeRewards i) as_book")
    (auto simp: books_open_def stake_rewards_def held_or_def book_default_def)

lemma claim_reward_sound:
  assumes "claim_reward address now_day l = Some (r, l')" and "sound l 0 0 0"
  shows "sound l' 0 0 0"
proof -
  have main: "sound (set_account address (account address l1\<lparr>account_balance :=
      saturating_add (account_balance (account address l1)) c\<rparr>) l1) 0 0 0"
    if ct: "claim_tranches now_day (tranches (stake_rewards i l)) 0 = Some (c, ts)"
      and l1: "l1 = set_stake_rewards i (stake_rewards i l\<lparr>tranches :=
        filter (\<lambda>t. claimed t < tranche_amount t) ts\<rparr>) l" for i c ts l1
  proof -
    have open_book: "list_all (\<lambda>t. claimed t = 0) (tranches (stake_rewards i l))"
      using assms(2) by (simp add: sound_def books_openD)
    note c = claim_tranches_sum [OF ct open_book]
    have "sound l1 (unat c) 0 0"
      unfolding l1 using c by (intro sound_set_rewards [OF assms(2)]) (auto simp: book_outstanding_def)
    from sound_credit [OF this, of c address] show ?thesis by simp
  qed
  show ?thesis
    using assms by (auto simp: claim_reward_def Let_def main split: option.splits if_splits bind_splits)
qed

lemma claim_with_fee_sound:
  assumes "claim_with_fee H address fee now_day l = Some (r, l')" and "sound l 0 0 0"
  shows "sound l' 0 0 0"
  using assms sound_pay [of H address fee fee l _ 0 0 0]
  by (auto simp: claim_with_fee_def split: if_splits bind_splits intro: claim_reward_sound)

text \<open>
  The invariant depends on the store alone, and writes to different leaves commute: an operation
  that credits before it takes is as sound as one that takes first.
\<close>

lemma sound_store: "store l = store l' \<Longrightarrow> sound l k m n \<Longrightarrow> sound l' k m n"
  by (simp add: sound_def balanced_def holdings_def staked_sum_def books_open_def total_supply_def
      total_staked_def held_or_def held_def)

lemma sum_u64_value: "sum_u64 xs acc = Some s \<Longrightarrow> unat s = unat acc + sum_list (map unat xs)"
  by (induction xs arbitrary: acc) (auto simp: word_nat split: bind_splits)

lemma sum_u64_total: "unat acc + sum_list (map unat xs) < 2 ^ 64 \<Longrightarrow> \<exists>s. sum_u64 xs acc = Some s"
proof (induction xs arbitrary: acc)
  case (Cons x xs)
  then obtain y where y: "checked_add acc x = Some y"
    by (cases "checked_add acc x") (auto simp: word_nat)
  then have "unat y + sum_list (map unat xs) < 2 ^ 64"
    using Cons.prems by (simp add: checked_add_Some_iff)
  then show ?case
    using Cons.IH [of y] y by simp
qed simp

lemma outstanding_value:
  "stake_rewards_outstanding i l = Some f \<Longrightarrow> unat f = book_outstanding (stake_rewards i l)"
  by (auto simp: stake_rewards_outstanding_def book_outstanding_def outstanding_def [abs_def] word_nat comp_def
      dest!: sum_u64_value)

lemma sound_burn_bond:
  assumes "sound l 0 0 0" and "stake_bond i l = Some b"
  shows "sound (clear_stake_bond i (debit_staked (bond_amount b) (debit_supply (bond_amount b) l))) 0 0 0"
    (is "sound ?l' 0 0 0")
proof -
  have amt: "bonded_amount i l = bond_amount b"
    using assms(2) by (simp add: bonded_amount_def)
  have le: "unat (bond_amount b) \<le> unat (total_staked l)"
    using assms(1) fm_sum_ge [of bond_value "store l" "StakeBond i"]
    by (simp add: sound_def bond_at amt staked_sum_def)
  have "sound (clear_stake_bond i l) (unat (bond_amount b)) (unat (bond_amount b)) 0"
    using sound_clear_bond [OF assms(1), of i] by (simp add: amt)
  then have "sound (debit_staked (bond_amount b) (clear_stake_bond i l)) (unat (bond_amount b))
      (unat (bond_amount b)) (0 + unat (bond_amount b))"
    by (rule sound_debit_staked) (use le in \<open>simp add: total_staked_def clear_stake_bond_def\<close>)
  from sound_debit_supply [OF sound_settled [OF this], of "bond_amount b"]
  have *: "sound (debit_supply (bond_amount b) (debit_staked (bond_amount b) (clear_stake_bond i l))) 0 0 0"
    by simp
  have "store (debit_supply (bond_amount b) (debit_staked (bond_amount b) (clear_stake_bond i l))) = store ?l'"
    by (rule fmap_ext)
      (auto simp: debit_supply_def set_total_supply_def debit_staked_def Let_def set_total_staked_def
        set_total_staked_active_def clear_stake_bond_def total_staked_def total_staked_active_def
        total_supply_def)
  then show ?thesis
    using * sound_store by blast
qed

lemma sound_burn_rewards:
  assumes "sound l 0 0 0" and "unat f = book_outstanding (stake_rewards i l)"
  shows "sound (clear_stake_rewards i (debit_supply f l)) 0 0 0" (is "sound ?l' 0 0 0")
proof -
  have "sound (clear_stake_rewards i l) (unat f) 0 0"
    using sound_clear_rewards [OF assms(1), of i] assms(2) by simp
  from sound_debit_supply [OF this, of f]
  have "sound (debit_supply f (clear_stake_rewards i l)) 0 0 0"
    by simp
  moreover have "store (debit_supply f (clear_stake_rewards i l)) = store ?l'"
    by (rule fmap_ext)
      (auto simp: debit_supply_def set_total_supply_def clear_stake_rewards_def total_supply_def)
  ultimately show ?thesis
    using sound_store by blast
qed

lemma sound_ban: "sound l k m n \<Longrightarrow> sound (set_stake_banned i l) k m n"
  unfolding set_stake_banned_def by (rule sound_neutral) (simp_all add: neutral_totals)

lemma debit_supply_0: "(if 0 < f then debit_supply f l else l) = debit_supply f l"
  by (simp add: debit_supply_def word_gt_0)

lemma slash_validator_sound:
  assumes "slash_validator address l = Some (r, l')" and "sound l 0 0 0"
  shows "sound l' 0 0 0"
proof -
  have main: "sound (clear_stake_rewards i (debit_supply f l1)) 0 0 0"
    if "stake_rewards_outstanding i l1 = Some f"
      and "l1 = (case stake_bond i (set_stake_banned i l) of
             Some b \<Rightarrow> record_side_event (Events.Slash address (bond_amount b) SLASH_DISPOSITION_BURN)
               (record_slash_event address (bond_amount b) (clear_stake_bond i
                 (debit_staked (bond_amount b) (debit_supply (bond_amount b) (set_stake_banned i l)))))
           | None \<Rightarrow> set_stake_banned i l)" for i f l1
  proof -
    have "sound l1 0 0 0"
      using sound_ban [OF assms(2), of i] sound_burn_bond [of "set_stake_banned i l" i]
      by (auto simp: that(2) event_defs split: option.splits)
    then show ?thesis
      using outstanding_value [OF that(1)] by (rule sound_burn_rewards)
  qed
  show ?thesis
    using assms
    by (auto simp: slash_validator_def Let_def debit_supply_0 main split: option.splits if_splits bind_splits)
qed

lemma sound_credit_if:
  "sound l k m n \<Longrightarrow> unat amount \<le> k \<Longrightarrow> sound (credit_if address amount l) (k - unat amount) m n"
  by (auto simp: credit_if_def word_gt_0 sound_credit)

lemma slash_stake_store:
  "store (clear_stake_bond i (credit_if address residue
      (debit_staked x (set_stake_treasury t l)))) =
   store (credit_if address residue (set_stake_treasury t (debit_staked x (clear_stake_bond i l))))"
  by (rule fmap_ext)
    (auto simp: credit_if_def account_def set_account_def set_stake_treasury_def debit_staked_def Let_def
      set_total_staked_def set_total_staked_active_def clear_stake_bond_def total_staked_def
      total_staked_active_def)

lemma sound_seize_bond:
  assumes "sound l 0 0 0" and "stake_bond i l = Some b" and "taken \<le> bond_amount b"
  shows "sound (clear_stake_bond i (credit_if address (bond_amount b - taken)
    (debit_staked (bond_amount b) (set_stake_treasury (saturating_add (stake_treasury l) taken) l)))) 0 0 0"
proof -
  let ?l1 = "debit_staked (bond_amount b) (clear_stake_bond i l)"
  have amt: "bonded_amount i l = bond_amount b"
    using assms(2) by (simp add: bonded_amount_def)
  have le: "unat (bond_amount b) \<le> unat (total_staked l)"
    using assms(1) fm_sum_ge [of bond_value "store l" "StakeBond i"]
    by (simp add: sound_def bond_at amt staked_sum_def)
  have "sound (clear_stake_bond i l) (unat (bond_amount b)) (unat (bond_amount b)) 0"
    using sound_clear_bond [OF assms(1), of i] by (simp add: amt)
  then have "sound ?l1 (unat (bond_amount b)) (unat (bond_amount b)) (0 + unat (bond_amount b))"
    by (rule sound_debit_staked) (use le in \<open>simp add: total_staked_def clear_stake_bond_def\<close>)
  then have 1: "sound ?l1 (unat (bond_amount b)) 0 0"
    by (rule sound_settled) simp
  have "stake_treasury ?l1 = stake_treasury l"
    by (simp add: stake_treasury_def debit_staked_def Let_def set_total_staked_def
        set_total_staked_active_def clear_stake_bond_def)
  with sound_credit_treasury [OF 1, of taken] assms(3)
  have 2: "sound (set_stake_treasury (saturating_add (stake_treasury l) taken) ?l1)
      (unat (bond_amount b - taken)) 0 0"
    by (simp add: word_le_nat_alt unat_sub)
  from sound_credit_if [OF this, of "bond_amount b - taken" address]
  show ?thesis
    by (intro sound_store [OF slash_stake_store [symmetric]]) simp
qed

lemma sound_seize_rewards:
  assumes "sound l 0 0 0" and "unat f = book_outstanding (stake_rewards i l)"
  shows "sound (clear_stake_rewards i (if 0 < f then set_stake_treasury (saturating_add (stake_treasury l) f) l
    else l)) 0 0 0"
proof -
  have 1: "sound (clear_stake_rewards i l) (unat f) 0 0"
    using sound_clear_rewards [OF assms(1), of i] assms(2) by simp
  show ?thesis
  proof (cases "f = 0")
    case False
    have "stake_treasury (clear_stake_rewards i l) = stake_treasury l"
      by (simp add: stake_treasury_def clear_stake_rewards_def)
    with sound_credit_treasury [OF 1, of f]
    have 2: "sound (set_stake_treasury (saturating_add (stake_treasury l) f) (clear_stake_rewards i l)) 0 0 0"
      by simp
    have "store (set_stake_treasury (saturating_add (stake_treasury l) f) (clear_stake_rewards i l)) =
        store (clear_stake_rewards i (set_stake_treasury (saturating_add (stake_treasury l) f) l))"
      by (rule fmap_ext) (auto simp: set_stake_treasury_def clear_stake_rewards_def)
    from sound_store [OF this 2] False show ?thesis
      by (simp add: word_gt_0)
  qed (use 1 in simp)
qed

lemma slash_stake_sound:
  assumes "slash_stake address fault l = Some (r, l')" and "sound l 0 0 0"
  shows "sound l' 0 0 0"
proof (cases "address_id address")
  case None
  with assms show ?thesis by (simp add: slash_stake_def)
next
  case id: (Some i)
  show ?thesis
  proof (cases "stake_bond i l")
    case None
    with assms id show ?thesis by (simp add: slash_stake_def)
  next
    case (Some b)
    from assms(1) id Some obtain p where p: "slash (bond_amount b) fault = Some p"
      by (auto simp: slash_stake_def split: bind_splits)
    define taken where "taken = min p (bond_amount b)"
    define l1 where "l1 = credit_if address (bond_amount b - taken)
      (debit_staked (bond_amount b) (set_stake_treasury (saturating_add (stake_treasury l) taken) l))"
    define l2 where "l2 = (if 0 < taken
      then record_side_event (Events.Slash address taken SLASH_DISPOSITION_TREASURY)
        (record_slash_event address taken l1) else l1)"
    define l3 where "l3 = set_stake_banned i (clear_stake_bond i l2)"
    have "slash_stake address fault l = do { f \<leftarrow> stake_rewards_outstanding i l3;
        Some (taken, clear_stake_rewards i (if 0 < f
          then set_stake_treasury (saturating_add (stake_treasury l3) f) l3 else l3)) }"
      by (simp only: slash_stake_def id Some p Let_def taken_def l1_def l2_def l3_def option.case
          bind.bind_lunit)
    with assms(1) obtain f where f: "stake_rewards_outstanding i l3 = Some f"
      and l': "l' = clear_stake_rewards i (if 0 < f
        then set_stake_treasury (saturating_add (stake_treasury l3) f) l3 else l3)"
      by (auto split: bind_splits)
    have "sound (clear_stake_bond i l1) 0 0 0"
      unfolding l1_def by (rule sound_seize_bond [OF assms(2) Some]) (simp add: taken_def)
    moreover have "store (clear_stake_bond i l1) = store (clear_stake_bond i l2)"
      by (simp add: clear_stake_bond_def event_defs l2_def)
    ultimately have "sound l3 0 0 0"
      unfolding l3_def by (intro sound_ban) (rule sound_store)
    then show ?thesis
      unfolding l' using outstanding_value [OF f] by (rule sound_seize_rewards)
  qed
qed

lemma sound_same_bond:
  assumes "sound l k m n" and "bond_amount b = bonded_amount i l"
  shows "sound (set_stake_bond i b l) k m n"
  using sound_set_bond [OF assms(1), of b k i] assms(2) by (simp add: sound_def)

lemma request_stake_exit_sound:
  assumes "request_stake_exit address now_day l = (r, l')" and "sound l k m n"
  shows "sound l' k m n"
  using assms
  by (auto simp: request_stake_exit_def request_exit_at_def bonded_amount_def
      split: option.splits if_splits prod.splits bool.splits intro!: sound_same_bond)

lemma request_exit_with_fee_sound:
  assumes "request_exit_with_fee H address fee now_day l = Some (r, l')" and "sound l 0 0 0"
  shows "sound l' 0 0 0"
proof -
  have "sound l1 0 0 0" if "pay H address fee fee l = Some l1" "\<not> account_balance (account address l) < fee" for l1
    using sound_pay [OF that(1) assms(2) that(2)] by simp
  then show ?thesis
    using assms request_stake_exit_sound
    by (fastforce simp: request_exit_with_fee_def split: option.splits if_splits bind_splits)
qed

lemma designate_stake_payee_sound:
  assumes "designate_stake_payee_with_fee H address payee fee l = Some (r, l')" and "sound l 0 0 0"
  shows "sound l' 0 0 0"
proof -
  have "sound (write_leaf (StakePayee i) v l1) 0 0 0"
    if "pay H address fee fee l = Some l1" "\<not> account_balance (account address l) < fee" for l1 i v
    by (rule sound_neutral)
      (use sound_pay [OF that(1) assms(2) that(2)] in \<open>simp_all add: neutral_totals\<close>)
  then show ?thesis
    using assms
    by (auto simp: designate_stake_payee_with_fee_def split: option.splits if_splits bind_splits)
qed

lemma withdraw_stake_sound:
  assumes "withdraw_stake address now_day l = Some (r, l')" and "sound l 0 0 0"
  shows "sound l' 0 0 0"
proof -
  have main: "sound (set_account payee (account payee l1\<lparr>account_balance :=
      saturating_add (account_balance (account payee l1)) (bond_amount b)\<rparr>) l1) 0 0 0"
    if b: "stake_bond i l = Some b" and l1: "l1 = debit_staked (bond_amount b) (clear_stake_bond i l)"
    for i b l1 payee
  proof -
    have amt: "bonded_amount i l = bond_amount b"
      using b by (simp add: bonded_amount_def)
    have le: "unat (bond_amount b) \<le> unat (total_staked l)"
      using assms(2) fm_sum_ge [of bond_value "store l" "StakeBond i"]
      by (simp add: sound_def bond_at amt staked_sum_def)
    have "sound (clear_stake_bond i l) (unat (bond_amount b)) (unat (bond_amount b)) 0"
      using sound_clear_bond [OF assms(2), of i] by (simp add: amt)
    then have "sound l1 (unat (bond_amount b)) (unat (bond_amount b)) (0 + unat (bond_amount b))"
      unfolding l1
      by (rule sound_debit_staked) (use le in \<open>simp add: total_staked_def clear_stake_bond_def\<close>)
    from sound_credit [OF sound_settled [OF this], of "bond_amount b" payee] show ?thesis
      by simp
  qed
  have ready: "ready_bond i now_day l = Some (Some b) \<Longrightarrow> stake_bond i l = Some b" for i b
    by (auto simp: ready_bond_def split: option.splits bind_splits if_splits)
  show ?thesis
    using assms
    by (auto simp: withdraw_stake_def Let_def main event_defs dest!: ready
        split: option.splits bind_splits)
qed

lemma withdraw_with_fee_sound:
  assumes "withdraw_with_fee H address fee now_day l = Some (r, l')" and "sound l 0 0 0"
  shows "sound l' 0 0 0"
proof -
  have "sound l1 0 0 0" if "pay H address fee fee l = Some l1" "\<not> account_balance (account address l) < fee" for l1
    using sound_pay [OF that(1) assms(2) that(2)] by simp
  then show ?thesis
    using assms withdraw_stake_sound
    by (fastforce simp: withdraw_with_fee_def split: option.splits if_splits bind_splits)
qed

lemma book_outstanding_snoc:
  "book_outstanding (b\<lparr>tranches := tranches b @ [t]\<rparr>) = book_outstanding b + outstanding t"
  by (simp add: book_outstanding_def)

lemma credit_supply_le: "unat (total_supply (credit_supply a l)) \<le> unat (total_supply l) + unat a"
  by (simp add: credit_supply_def set_total_supply_def total_supply_def word_nat)

lemma grant_reward_sound:
  assumes "sound l 0 0 0" and room: "unat (total_supply l) + unat paid < 2 ^ 64"
    and ts: "tranches book = tranches (stake_rewards i l)"
  shows "sound (grant_reward i now_day paid blocks book l) 0 0 0 \<and>
    unat (total_supply (grant_reward i now_day paid blocks book l)) \<le> unat (total_supply l) + unat paid"
proof -
  define f where "f = min paid (stake_pool l)"
  define l1 where "l1 = (if 0 < f then set_stake_pool (stake_pool l - f) l else l)"
  define l2 where "l2 = (if f < paid then credit_supply (paid - f) l1 else l1)"
  define b0 where "b0 = book\<lparr>paid_in_period := saturating_add (paid_in_period book) paid\<rparr>"
  define b1 where "b1 = b0\<lparr>tranches := tranches b0 @
    [\<lparr>earned_day = now_day, tranche_amount = paid, claimed = 0\<rparr>]\<rparr>"
  define b2 where "b2 = (if REWARD_PERIOD_BLOCKS \<le> blocks
    then b1\<lparr>period_anchor := execution_height l2, paid_in_period := 0\<rparr> else b1)"
  have f: "unat f \<le> unat paid" "unat f \<le> unat (stake_pool l)"
    by (simp_all add: f_def word_nat)
  have "sound (set_stake_pool (stake_pool l - f) l) (unat f) 0 0"
    by (rule sound_set_pool [OF assms(1)]) (use f in \<open>simp add: unat_sub word_le_nat_alt\<close>)
  then have 1: "sound l1 (unat f) 0 0"
    using assms(1) by (auto simp: l1_def word_gt_0)
  have supply1: "total_supply l1 = total_supply l"
    by (simp add: l1_def total_supply_def set_stake_pool_def)
  have d: "unat (paid - f) = unat paid - unat f"
    using f by (simp add: unat_sub word_le_nat_alt)
  have "sound (credit_supply (paid - f) l1) (unat f + unat (paid - f)) 0 0"
    by (rule sound_credit_supply [OF 1]) (use room f in \<open>simp add: supply1 d\<close>)
  then have 2: "sound l2 (unat paid) 0 0"
    using 1 f by (auto simp: l2_def d not_less word_le_nat_alt)
  have supply2: "unat (total_supply l2) \<le> unat (total_supply l) + unat paid"
    using d f credit_supply_le [of "paid - f" l1] by (auto simp: l2_def supply1)
  have "stake_rewards i l2 = stake_rewards i l"
    by (simp add: l2_def l1_def stake_rewards_def credit_supply_def set_total_supply_def set_stake_pool_def)
  then have "book_outstanding b2 = book_outstanding (stake_rewards i l2) + unat paid"
    by (simp add: b2_def b1_def b0_def book_outstanding_def outstanding_def ts)
  moreover have "list_all (\<lambda>t. claimed t = 0) (tranches b2)"
    using books_openD [of l i] assms(1) by (simp add: b2_def b1_def b0_def ts sound_def)
  ultimately have "sound (set_stake_rewards i b2 l2) 0 0 0"
    by (intro sound_set_rewards [OF 2]) simp_all
  moreover have "store (grant_reward i now_day paid blocks book l) = store (set_stake_rewards i b2 l2)"
  proof -
    have "grant_reward i now_day paid blocks book l =
        (case id_bytes_to_address i of
           Some address \<Rightarrow> record_side_event (Reward address paid) (record_reward_event address paid
             (set_stake_rewards i b2 l2))
         | None \<Rightarrow> set_stake_rewards i b2 l2)"
      by (simp only: grant_reward_def Let_def f_def l1_def l2_def b0_def b1_def b2_def)
    then show ?thesis by (simp add: event_defs split: option.split)
  qed
  ultimately show ?thesis
    using supply2 sound_store [of "set_stake_rewards i b2 l2" "grant_reward i now_day paid blocks book l" 0 0 0]
    by (simp add: total_supply_def held_or_def held_def set_stake_rewards_def)
qed

lemma sound_set_book:
  assumes "sound l 0 0 0" and "tranches book = tranches (stake_rewards i l)"
  shows "sound (set_stake_rewards i book l) 0 0 0"
  using assms books_openD [of l i]
  by (intro sound_set_rewards [OF assms(1)]) (simp_all add: book_outstanding_def sound_def)

lemma accrue_reward_by_id_sound:
  assumes "accrue_reward_by_id i now_day l = Some (paid, l')" and "sound l 0 0 0"
    and "unat (total_supply l) + unat paid < 2 ^ 64"
  shows "sound l' 0 0 0 \<and> unat (total_supply l') \<le> unat (total_supply l) + unat paid"
proof -
  have same: "total_supply (set_stake_rewards i book l) = total_supply l" for book
    by (simp add: total_supply_def set_stake_rewards_def)
  show ?thesis
    using assms grant_reward_sound [OF assms(2,3), of _ i now_day]
    by (auto simp: accrue_reward_by_id_def Let_def same sound_set_book
        split: if_splits option.splits bind_splits)
qed

lemma validator_reward_cap: "\<exists>a. validator_reward n = Some a \<and> unat a \<le> 33333333"
proof -
  obtain a where "validator_reward n = Some a" "unat a = reward_usd (unat n) * 1000000 div 3000"
    using validator_reward_value by blast
  moreover have "reward_usd (unat n) * 1000000 div 3000 \<le> 33333333"
    using reward_usd_bound [of "unat n"] by linarith
  ultimately show ?thesis by auto
qed

lemma accrue_reward_by_id_total:
  "\<exists>paid l'. accrue_reward_by_id i now_day l = Some (paid, l') \<and> unat paid \<le> 33333333"
proof -
  obtain R where R: "validator_reward n = Some (R n)" "unat (R n) \<le> 33333333" for n
    using validator_reward_cap by metis
  have "unat (R n) - x \<le> 33333333" for n x
    using R(2) [of n] by linarith
  then show ?thesis
    by (simp add: accrue_reward_by_id_def Let_def R(1) word_nat split: option.split)
qed

lemma accrue_each_sound:
  assumes "sound l 0 0 0" and "unat (total_supply l) + length is * 33333333 < 2 ^ 64"
  shows "\<exists>l'. accrue_each is now_day l = Some l' \<and> sound l' 0 0 0"
  using assms
proof (induction "is" arbitrary: l)
  case (Cons i "is")
  obtain paid l1 where 1: "accrue_reward_by_id i now_day l = Some (paid, l1)" "unat paid \<le> 33333333"
    using accrue_reward_by_id_total by blast
  then have "sound l1 0 0 0" "unat (total_supply l1) \<le> unat (total_supply l) + unat paid"
    using accrue_reward_by_id_sound [OF 1(1) Cons.prems(1)] Cons.prems(2) by auto
  with Cons.IH [of l1] Cons.prems(2) 1 show ?case by auto
qed simp

lemma sound_meter: "sound l k m n \<Longrightarrow> sound (set_session_meter x l) k m n"
  unfolding set_session_meter_def by (rule sound_neutral) (simp_all add: neutral_totals)

lemma settle_session_sound:
  assumes "settle_session now_day transactions l = Some l'" and "sound l 0 0 0"
    and "unat (total_supply l) + length (validator_ids l) * 33333333 < 2 ^ 64"
  shows "sound l' 0 0 0"
proof -
  have same: "total_supply (set_session_meter x l) = total_supply l"
    "validator_ids (set_session_meter x l) = validator_ids l" for x
    by (simp_all add: total_supply_def validator_ids_def set_session_meter_def)
  have "sound l' 0 0 0" if "accrue_each (validator_ids l) now_day (set_session_meter x l) = Some l'" for x
    using accrue_each_sound [OF sound_meter [OF assms(2)], of x "validator_ids l" now_day] assms(3) that
    by (auto simp: same)
  then show ?thesis
    using assms sound_meter [OF assms(2)]
    by (auto simp: settle_session_def record_session_def Let_def same split: if_splits prod.splits bind_splits)
qed

end
