(* ===== verification/LedgerBridge.thy ===== *)
theory LedgerBridge
  imports LedgerStake
begin

text \<open>
  Bridged assets in the ledger, \<^verbatim>\<open>src/crates/qtv-node/src/ledger.rs\<close>: registration, custody, minting
  from a deposit fact, burning for an exit, settling or slashing an exit, and the freeze of the
  bridge with its bond.  The results: an asset's supply is the sum of its holders' balances, the
  vault holds at least the supply, a deposit mints once and an exit is settled once.
\<close>

section \<open>Freezing\<close>

definition bridge_freeze :: "ledger \<Rightarrow> bridge_freeze option" where
  "bridge_freeze l = held l (Single BridgeFreeze) as_freeze"

definition set_bridge_freeze :: "bridge_freeze \<Rightarrow> ledger \<Rightarrow> ledger" where
  "set_bridge_freeze r = write_leaf (Single BridgeFreeze) (VFreeze r)"

definition clear_bridge_freeze :: "ledger \<Rightarrow> ledger" where
  "clear_bridge_freeze = write_leaf (Single BridgeFreeze) Cleared"

definition bridge_is_frozen :: "ledger \<Rightarrow> bool" where
  "bridge_is_frozen l \<longleftrightarrow> bridge_freeze l \<noteq> None"

definition bridge_last_lift :: "ledger \<Rightarrow> u64 option" where
  "bridge_last_lift l = held l (Single BridgeLastLift) as_u64"

definition set_bridge_last_lift :: "u64 \<Rightarrow> ledger \<Rightarrow> ledger" where
  "set_bridge_last_lift now = write_leaf (Single BridgeLastLift) (VU64 now)"

definition bridge_freezer_resting :: "bytes \<Rightarrow> u64 \<Rightarrow> ledger \<Rightarrow> bool" where
  "bridge_freezer_resting i now l \<longleftrightarrow>
     (case bridge_last_lift l of
        None \<Rightarrow> False
      | Some lifted \<Rightarrow>
          held l (Single BridgeLastFreezer) as_bytes = Some i \<and>
          now < saturating_add lifted BRIDGE_FREEZE_DURATION)"

datatype freeze_lift = LiftRefund | LiftSlash

definition lift_bridge_freeze :: "hash \<Rightarrow> u64 \<Rightarrow> freeze_lift \<Rightarrow> ledger \<Rightarrow> ledger" where
  "lift_bridge_freeze H now outcome l =
     (case bridge_freeze l of
        None \<Rightarrow> l
      | Some r \<Rightarrow>
          let pot_address = bridge_bond_address H;
              pot = account pot_address l;
              l = set_account pot_address
                    (pot\<lparr>account_balance := saturating_sub (account_balance pot) (freeze_bond r)\<rparr>) l;
              l = (case outcome of
                     LiftRefund \<Rightarrow>
                       (case id_bytes_to_address (freeze_who r) of
                          Some depositor \<Rightarrow>
                            let a = account depositor l in
                            set_account depositor
                              (a\<lparr>account_balance := saturating_add (account_balance a) (freeze_bond r)\<rparr>) l
                        | None \<Rightarrow> l)
                   | LiftSlash \<Rightarrow> set_stake_treasury (saturating_add (stake_treasury l) (freeze_bond r)) l);
              l = clear_bridge_freeze l;
              l = set_bridge_last_lift now l
          in write_leaf (Single BridgeLastFreezer) (VBytes (freeze_who r)) l)"

definition bridge_freeze_with_fee :: "hash \<Rightarrow> bytes \<Rightarrow> u64 \<Rightarrow> u64 \<Rightarrow> ledger \<Rightarrow> (bool \<times> ledger) option" where
  "bridge_freeze_with_fee H caller fee now l =
     (case address_id caller of
        None \<Rightarrow> Some (False, l)
      | Some i \<Rightarrow>
          if is_gov_blacklisted i l then Some (False, l)
          else if bridge_freeze l \<noteq> None then Some (False, l)
          else if (case bridge_last_lift l of
                     Some lifted \<Rightarrow> now < saturating_add lifted BRIDGE_FREEZE_COOLDOWN | None \<Rightarrow> False)
          then Some (False, l)
          else if bridge_freezer_resting i now l then Some (False, l)
          else case checked_add fee BRIDGE_FREEZE_BOND of
            None \<Rightarrow> Some (False, l)
          | Some debit \<Rightarrow>
              if account_balance (account caller l) < debit then Some (False, l)
              else do {
                l \<leftarrow> pay H caller debit fee l;
                let pot_address = bridge_bond_address H;
                let pot = account pot_address l;
                let l = set_account pot_address
                  (pot\<lparr>account_balance := saturating_add (account_balance pot) BRIDGE_FREEZE_BOND\<rparr>) l;
                Some (True, set_bridge_freeze
                  \<lparr>freeze_who = i, freeze_bond = BRIDGE_FREEZE_BOND,
                   freeze_until = saturating_add now BRIDGE_FREEZE_DURATION\<rparr> l) })"

definition bridge_freeze_admissible :: "bytes \<Rightarrow> u64 \<Rightarrow> u64 \<Rightarrow> ledger \<Rightarrow> bool" where
  "bridge_freeze_admissible caller fee now l =
     (case address_id caller of
        None \<Rightarrow> False
      | Some i \<Rightarrow>
          if is_gov_blacklisted i l \<or> bridge_freeze l \<noteq> None then False
          else if (case bridge_last_lift l of
                     Some lifted \<Rightarrow> now < saturating_add lifted BRIDGE_FREEZE_COOLDOWN | None \<Rightarrow> False)
          then False
          else if bridge_freezer_resting i now l then False
          else (case checked_add fee BRIDGE_FREEZE_BOND of
                  None \<Rightarrow> False | Some debit \<Rightarrow> debit \<le> account_balance (account caller l)))"

definition bridge_unfreeze_with_fee :: "hash \<Rightarrow> bytes \<Rightarrow> u64 \<Rightarrow> u64 \<Rightarrow> ledger \<Rightarrow> (bool \<times> ledger) option" where
  "bridge_unfreeze_with_fee H caller fee now l =
     (case address_id caller of
        None \<Rightarrow> Some (False, l)
      | Some i \<Rightarrow>
          case bridge_freeze l of
            None \<Rightarrow> Some (False, l)
          | Some r \<Rightarrow>
              if freeze_who r \<noteq> i then Some (False, l)
              else if account_balance (account caller l) < fee then Some (False, l)
              else do {
                l \<leftarrow> pay H caller fee fee l;
                let started = saturating_sub (freeze_until r) BRIDGE_FREEZE_DURATION;
                let outcome =
                  (if now \<le> saturating_add started BRIDGE_FREEZE_REFUND_GRACE then LiftRefund else LiftSlash);
                Some (True, lift_bridge_freeze H now outcome l) })"

definition bridge_unfreeze_admissible :: "bytes \<Rightarrow> u64 \<Rightarrow> ledger \<Rightarrow> bool" where
  "bridge_unfreeze_admissible caller fee l =
     (case address_id caller of
        None \<Rightarrow> False
      | Some i \<Rightarrow>
          (case bridge_freeze l of Some r \<Rightarrow> freeze_who r = i | None \<Rightarrow> False) \<and>
          fee \<le> account_balance (account caller l))"

section \<open>Settings\<close>

definition bridge_pool_vault :: "ledger \<Rightarrow> bytes option" where
  "bridge_pool_vault l =
     (case held l (Single BridgeVault) as_bytes of
        Some v \<Rightarrow> if length v = KEY_LEN then Some v else None | None \<Rightarrow> None)"

definition set_bridge_pool_vault :: "bytes \<Rightarrow> ledger \<Rightarrow> ledger" where
  "set_bridge_pool_vault vault = write_leaf (Single BridgeVault) (VBytes vault)"

definition bridge_gateway :: "ledger \<Rightarrow> bytes option" where
  "bridge_gateway l =
     (case held l (Single BridgeGateway) as_bytes of
        Some v \<Rightarrow> if length v = KEY_LEN then Some v else None | None \<Rightarrow> None)"

definition set_bridge_gateway :: "bytes \<Rightarrow> ledger \<Rightarrow> ledger" where
  "set_bridge_gateway gateway = write_leaf (Single BridgeGateway) (VBytes gateway)"

definition is_bridge_gateway :: "bytes \<Rightarrow> ledger \<Rightarrow> bool" where
  "is_bridge_gateway address l \<longleftrightarrow>
     (case (bridge_gateway l, address_id address) of (Some g, Some i) \<Rightarrow> g = i | _ \<Rightarrow> False)"

definition bridge_exits_enabled :: "ledger \<Rightarrow> bool" where
  "bridge_exits_enabled l \<longleftrightarrow> peek l (Single BridgeExits) = Some (VBool True)"

definition set_bridge_exits_enabled :: "bool \<Rightarrow> ledger \<Rightarrow> ledger" where
  "set_bridge_exits_enabled enabled = write_leaf (Single BridgeExits) (VBool enabled)"

definition FEDERATED_CORRIDOR_ENABLED :: bool where "FEDERATED_CORRIDOR_ENABLED = False"

definition bridge_federated_enabled :: "ledger \<Rightarrow> bool" where
  "bridge_federated_enabled l \<longleftrightarrow>
     (case peek l (Single BridgeFederated) of
        Some v \<Rightarrow> v = VBool True | None \<Rightarrow> FEDERATED_CORRIDOR_ENABLED)"

definition bridge_exit_max_amount :: "ledger \<Rightarrow> u128" where
  "bridge_exit_max_amount l = held_or 0 l (Single BridgeExitMax) as_u128"

definition bridge_operator_set :: "ledger \<Rightarrow> operator_set option" where
  "bridge_operator_set l = held l (Single BridgeOperators) as_operators"

definition seed_bridge_operator_set :: "operator_set \<Rightarrow> ledger \<Rightarrow> ledger" where
  "seed_bridge_operator_set s l =
     (if op_threshold s < 2 then l else write_leaf (Single BridgeOperators) (VOperators s) l)"

definition bridge_epoch :: "ledger \<Rightarrow> u64" where
  "bridge_epoch l = held_or 0 l (Single BridgeEpoch) as_u64"

definition set_bridge_epoch :: "u64 \<Rightarrow> ledger \<Rightarrow> ledger" where
  "set_bridge_epoch epoch = write_leaf (Single BridgeEpoch) (VU64 epoch)"

definition bridge_payout_cap :: "ledger \<Rightarrow> u128" where
  "bridge_payout_cap l = held_or 0 l (Single BridgePayoutcap) as_u128"

definition set_bridge_payout_cap :: "u128 \<Rightarrow> ledger \<Rightarrow> ledger" where
  "set_bridge_payout_cap cap = write_leaf (Single BridgePayoutcap) (VU128 cap)"

definition chain_genesis_hash :: "ledger \<Rightarrow> bytes" where
  "chain_genesis_hash l =
     (case held l (Single ChainGenesisHash) as_bytes of
        Some h \<Rightarrow> if length h = 32 then h else replicate 32 0 | None \<Rightarrow> replicate 32 0)"

definition chain_genesis_time :: "ledger \<Rightarrow> u64" where
  "chain_genesis_time l = held_or 0 l (Single ChainGenesisTime) as_u64"

definition execution_time :: "ledger \<Rightarrow> u64" where
  "execution_time l = (if 0 < execution_time_set l then execution_time_set l else chain_genesis_time l)"

section \<open>Assets and custody\<close>

definition bridged_asset :: "bytes \<Rightarrow> ledger \<Rightarrow> qasset option" where
  "bridged_asset a l = held l (BridgeAsset a) as_asset"

definition set_bridged_asset :: "bytes \<Rightarrow> qasset \<Rightarrow> ledger \<Rightarrow> ledger" where
  "set_bridged_asset a x = write_leaf (BridgeAsset a) (VAsset x)"

definition bridge_asset_ids :: "ledger \<Rightarrow> bytes list" where
  "bridge_asset_ids l = held_or [] l (Single BridgeAssetList) as_ids"

definition record_bridge_asset_id :: "bytes \<Rightarrow> ledger \<Rightarrow> ledger" where
  "record_bridge_asset_id a l =
     (let ids = bridge_asset_ids l in
      if a \<in> set ids then l else write_leaf (Single BridgeAssetList) (VIds (ids @ [a])) l)"

definition bridged_supply :: "bytes \<Rightarrow> ledger \<Rightarrow> u128" where
  "bridged_supply a l = (case bridged_asset a l of Some x \<Rightarrow> asset_total x | None \<Rightarrow> 0)"

definition register_bridged_asset :: "bytes \<Rightarrow> u128 \<Rightarrow> u128 \<Rightarrow> bool \<Rightarrow> ledger \<Rightarrow> ledger" where
  "register_bridged_asset a cap epoch_cap stark l =
     (let x = \<lparr>asset_total = bridged_supply a l, asset_cap = cap, asset_epoch_cap = epoch_cap,
               requires_stark = stark\<rparr>
      in record_bridge_asset_id a (set_bridged_asset a x l))"

definition bridged_balance :: "bytes \<Rightarrow> bytes \<Rightarrow> ledger \<Rightarrow> u128" where
  "bridged_balance a holder l = held_or 0 l (BridgeBalance a holder) as_u128"

definition set_bridged_balance :: "bytes \<Rightarrow> bytes \<Rightarrow> u128 \<Rightarrow> ledger \<Rightarrow> ledger" where
  "set_bridged_balance a holder amount = write_leaf (BridgeBalance a holder) (VU128 amount)"

definition bridge_vault_custody :: "bytes \<Rightarrow> bytes \<Rightarrow> ledger \<Rightarrow> u128" where
  "bridge_vault_custody vault a l = held_or 0 l (VaultCustody vault a) as_u128"

definition set_bridge_vault_custody :: "bytes \<Rightarrow> bytes \<Rightarrow> u128 \<Rightarrow> ledger \<Rightarrow> ledger" where
  "set_bridge_vault_custody vault a amount = write_leaf (VaultCustody vault a) (VU128 amount)"

definition bridge_reserve_state :: "bytes \<Rightarrow> ledger \<Rightarrow> (u128 \<times> u128) option" where
  "bridge_reserve_state a l =
     (case bridge_pool_vault l of
        None \<Rightarrow> None | Some v \<Rightarrow> Some (bridge_vault_custody v a l, bridged_supply a l))"

definition bridge_reserves_conserved :: "bytes \<Rightarrow> ledger \<Rightarrow> bool" where
  "bridge_reserves_conserved a l \<longleftrightarrow>
     (case bridge_reserve_state a l of
        Some (custody, tot) \<Rightarrow> tot \<le> custody
      | None \<Rightarrow> bridged_supply a l = 0)"

definition credit_vault_custody :: "bytes \<Rightarrow> u128 \<Rightarrow> ledger \<Rightarrow> bool \<times> ledger" where
  "credit_vault_custody a amount l =
     (case bridge_pool_vault l of
        Some vault \<Rightarrow>
          (case checked_add (bridge_vault_custody vault a l) amount of
             Some h \<Rightarrow> (True, set_bridge_vault_custody vault a h l)
           | None \<Rightarrow> (False, l))
      | None \<Rightarrow> (True, l))"

definition bridge_reference_seen :: "u32 \<Rightarrow> bytes \<Rightarrow> ledger \<Rightarrow> bool" where
  "bridge_reference_seen chain ref l \<longleftrightarrow> marked l (BridgeSeen chain ref)"

definition mark_bridge_reference :: "u32 \<Rightarrow> bytes \<Rightarrow> ledger \<Rightarrow> ledger" where
  "mark_bridge_reference chain ref = write_leaf (BridgeSeen chain ref) VMark"

definition bridge_epoch_minted :: "bytes \<Rightarrow> u64 \<Rightarrow> ledger \<Rightarrow> u128" where
  "bridge_epoch_minted a epoch l = held_or 0 l (BridgeEpochMint a epoch) as_u128"

definition set_bridge_epoch_minted :: "bytes \<Rightarrow> u64 \<Rightarrow> u128 \<Rightarrow> ledger \<Rightarrow> ledger" where
  "set_bridge_epoch_minted a epoch amount = write_leaf (BridgeEpochMint a epoch) (VU128 amount)"

section \<open>Minting and exits\<close>

definition bridge_mint_would_apply :: "fact \<Rightarrow> ledger \<Rightarrow> bool" where
  "bridge_mint_would_apply f l =
     (if fact_amount f = 0 \<or> expiry_height f < execution_height l then False
      else case bridge_pool_vault l of
        None \<Rightarrow> False
      | Some vault \<Rightarrow>
          case bridged_asset (fact_asset_id f) l of
            None \<Rightarrow> False
          | Some asset \<Rightarrow>
              if bridge_reference_seen (source_chain f) (source_ref f) l then False
              else (case checked_add (asset_total asset) (fact_amount f) of
                      Some tot \<Rightarrow> tot \<le> asset_cap asset | None \<Rightarrow> False) \<and>
                   (case checked_add (bridge_epoch_minted (fact_asset_id f) (bridge_epoch l) l) (fact_amount f) of
                      Some minted \<Rightarrow> minted \<le> asset_epoch_cap asset | None \<Rightarrow> False) \<and>
                   checked_add (bridged_balance (fact_asset_id f) (fact_recipient f) l) (fact_amount f) \<noteq> None \<and>
                   checked_add (bridge_vault_custody vault (fact_asset_id f) l) (fact_amount f) \<noteq> None)"

definition bridge_mint :: "fact \<Rightarrow> ledger \<Rightarrow> bool \<times> ledger" where
  "bridge_mint f l =
     (if fact_amount f = 0 then (False, l)
      else if bridge_pool_vault l = None then (False, l)
      else if expiry_height f < execution_height l then (False, l)
      else case bridged_asset (fact_asset_id f) l of
        None \<Rightarrow> (False, l)
      | Some asset \<Rightarrow>
          if bridge_reference_seen (source_chain f) (source_ref f) l then (False, l)
          else case checked_add (asset_total asset) (fact_amount f) of
            None \<Rightarrow> (False, l)
          | Some new_supply \<Rightarrow>
              if asset_cap asset < new_supply then (False, l)
              else let epoch = bridge_epoch l in
                case checked_add (bridge_epoch_minted (fact_asset_id f) epoch l) (fact_amount f) of
                  None \<Rightarrow> (False, l)
                | Some new_minted \<Rightarrow>
                    if asset_epoch_cap asset < new_minted then (False, l)
                    else case checked_add (bridged_balance (fact_asset_id f) (fact_recipient f) l) (fact_amount f) of
                      None \<Rightarrow> (False, l)
                    | Some credited \<Rightarrow>
                        case credit_vault_custody (fact_asset_id f) (fact_amount f) l of
                          (False, l) \<Rightarrow> (False, l)
                        | (True, l) \<Rightarrow>
                            let l = set_bridged_balance (fact_asset_id f) (fact_recipient f) credited l;
                                l = set_bridged_asset (fact_asset_id f) (asset\<lparr>asset_total := new_supply\<rparr>) l;
                                l = mark_bridge_reference (source_chain f) (source_ref f) l;
                                l = set_bridge_epoch_minted (fact_asset_id f) epoch new_minted l;
                                l = record_bridge_mint_event (fact_asset_id f) (fact_recipient f) (fact_amount f) l
                            in (True, record_side_event
                                 (BridgeMint (fact_asset_id f) (fact_recipient f) (fact_amount f)) l))"

definition bridge_exit_settled :: "bytes \<Rightarrow> ledger \<Rightarrow> bool" where
  "bridge_exit_settled ref l \<longleftrightarrow> marked l (BridgeExitSeen ref)"

definition mark_bridge_exit_settled :: "bytes \<Rightarrow> ledger \<Rightarrow> ledger" where
  "mark_bridge_exit_settled ref = write_leaf (BridgeExitSeen ref) VMark"

definition bridge_outstanding_burn :: "bytes \<Rightarrow> ledger \<Rightarrow> outstanding_burn option" where
  "bridge_outstanding_burn ref l = held l (BridgeOutstanding ref) as_burn"

definition record_outstanding_burn ::
  "bytes \<Rightarrow> bytes \<Rightarrow> u128 \<Rightarrow> bytes \<Rightarrow> bytes \<Rightarrow> ledger \<Rightarrow> ledger" where
  "record_outstanding_burn ref a amount beneficiary destination =
     write_leaf (BridgeOutstanding ref)
       (VBurn \<lparr>burn_asset = a, burn_amount = amount, burn_beneficiary = beneficiary,
               burn_destination = destination\<rparr>)"

definition outstanding_burn_matches ::
  "bytes \<Rightarrow> bytes \<Rightarrow> u128 \<Rightarrow> bytes \<Rightarrow> bytes \<Rightarrow> ledger \<Rightarrow> bool" where
  "outstanding_burn_matches ref a amount beneficiary destination l \<longleftrightarrow>
     (case bridge_outstanding_burn ref l of
        Some r \<Rightarrow> burn_asset r = a \<and> burn_amount r = amount \<and> burn_destination r = destination \<and>
                  burn_beneficiary r = beneficiary
      | None \<Rightarrow> False)"

definition consume_outstanding_burn :: "bytes \<Rightarrow> ledger \<Rightarrow> ledger" where
  "consume_outstanding_burn ref l = snd (erase_leaf (BridgeOutstanding ref) l)"

definition bridge_burn ::
  "hash \<Rightarrow> bytes \<Rightarrow> bytes \<Rightarrow> u128 \<Rightarrow> bytes \<Rightarrow> u64 \<Rightarrow> u64 \<Rightarrow> ledger \<Rightarrow> bool \<times> ledger" where
  "bridge_burn H a holder amount destination chain_id sender_nonce l =
     (if amount = 0 then (False, l)
      else case bridged_asset a l of
        None \<Rightarrow> (False, l)
      | Some asset \<Rightarrow>
          let bal = bridged_balance a holder l in
          if bal < amount then (False, l)
          else case checked_sub (asset_total asset) amount of
            None \<Rightarrow> (False, l)
          | Some new_supply \<Rightarrow>
              let l = set_bridged_balance a holder (bal - amount) l;
                  l = set_bridged_asset a (asset\<lparr>asset_total := new_supply\<rparr>) l;
                  event_index = word_of_nat (length (block_events l));
                  ref = bridge_burn_ref H chain_id (chain_genesis_hash l) a holder amount destination
                          sender_nonce event_index;
                  l = record_outstanding_burn ref a amount holder destination l;
                  l = record_bridge_burn_event a holder amount destination chain_id sender_nonce event_index ref l
              in (True, record_side_event (BridgeBurn a holder amount destination chain_id ref) l))"

definition bridge_epoch_paid :: "bytes \<Rightarrow> u64 \<Rightarrow> ledger \<Rightarrow> u128" where
  "bridge_epoch_paid a epoch l = held_or 0 l (BridgeEpochPay a epoch) as_u128"

definition set_bridge_epoch_paid :: "bytes \<Rightarrow> u64 \<Rightarrow> u128 \<Rightarrow> ledger \<Rightarrow> ledger" where
  "set_bridge_epoch_paid a epoch amount = write_leaf (BridgeEpochPay a epoch) (VU128 amount)"

definition bridge_epoch_paid_global :: "u64 \<Rightarrow> ledger \<Rightarrow> u128" where
  "bridge_epoch_paid_global epoch l = held_or 0 l (BridgeEpochPayGlobal epoch) as_u128"

definition set_bridge_epoch_paid_global :: "u64 \<Rightarrow> u128 \<Rightarrow> ledger \<Rightarrow> ledger" where
  "set_bridge_epoch_paid_global epoch amount = write_leaf (BridgeEpochPayGlobal epoch) (VU128 amount)"

definition bridge_settle :: "exit_fact \<Rightarrow> ledger \<Rightarrow> bool \<times> ledger" where
  "bridge_settle f l =
     (if \<not> bridge_exits_enabled l then (False, l)
      else if bridge_is_frozen l then (False, l)
      else case bridge_pool_vault l of
        None \<Rightarrow> (False, l)
      | Some vault \<Rightarrow>
          if exit_amount f = 0 then (False, l)
          else case bridged_asset (exit_asset_id f) l of
            None \<Rightarrow> (False, l)
          | Some asset \<Rightarrow>
              if bridge_exit_settled (burn_ref f) l then (False, l)
              else if \<not> outstanding_burn_matches (burn_ref f) (exit_asset_id f) (exit_amount f)
                        (exit_holder f) (exit_destination f) l then (False, l)
              else case checked_sub (bridge_vault_custody vault (exit_asset_id f) l) (exit_amount f) of
                None \<Rightarrow> (False, l)
              | Some h \<Rightarrow>
                  if h < asset_total asset then (False, l)
                  else let l = mark_bridge_exit_settled (burn_ref f) l;
                           l = consume_outstanding_burn (burn_ref f) l;
                           l = set_bridge_vault_custody vault (exit_asset_id f) h l;
                           l = record_bridge_settle_event (exit_asset_id f) (exit_destination f)
                                 (exit_amount f) (burn_ref f) l
                       in (True, record_side_event
                            (BridgeSettle (exit_asset_id f) (exit_destination f) (exit_amount f) (burn_ref f)) l))"

definition bridge_slash :: "exit_fact \<Rightarrow> ledger \<Rightarrow> bool \<times> ledger" where
  "bridge_slash f l =
     (if \<not> bridge_exits_enabled l then (False, l)
      else if bridge_is_frozen l then (False, l)
      else case bridge_pool_vault l of
        None \<Rightarrow> (False, l)
      | Some vault \<Rightarrow>
          if exit_amount f = 0 then (False, l)
          else case bridged_asset (exit_asset_id f) l of
            None \<Rightarrow> (False, l)
          | Some asset \<Rightarrow>
              if bridge_exit_settled (burn_ref f) l then (False, l)
              else if \<not> outstanding_burn_matches (burn_ref f) (exit_asset_id f) (exit_amount f)
                        (exit_holder f) (exit_destination f) l then (False, l)
              else let epoch = bridge_epoch l in
                case checked_add (bridge_epoch_paid (exit_asset_id f) epoch l) (exit_amount f) of
                  None \<Rightarrow> (False, l)
                | Some new_asset_paid \<Rightarrow>
                    if asset_epoch_cap asset < new_asset_paid then (False, l)
                    else case checked_add (bridge_epoch_paid_global epoch l) (exit_amount f) of
                      None \<Rightarrow> (False, l)
                    | Some new_global_paid \<Rightarrow>
                        if bridge_payout_cap l < new_global_paid then (False, l)
                        else case checked_add (asset_total asset) (exit_amount f) of
                          None \<Rightarrow> (False, l)
                        | Some new_supply \<Rightarrow>
                            if asset_cap asset < new_supply then (False, l)
                            else if bridge_vault_custody vault (exit_asset_id f) l < new_supply then (False, l)
                            else case checked_add (bridged_balance (exit_asset_id f) (exit_holder f) l) (exit_amount f) of
                              None \<Rightarrow> (False, l)
                            | Some credited \<Rightarrow>
                                let l = mark_bridge_exit_settled (burn_ref f) l;
                                    l = consume_outstanding_burn (burn_ref f) l;
                                    l = set_bridged_balance (exit_asset_id f) (exit_holder f) credited l;
                                    l = set_bridged_asset (exit_asset_id f) (asset\<lparr>asset_total := new_supply\<rparr>) l;
                                    l = set_bridge_epoch_paid (exit_asset_id f) epoch new_asset_paid l;
                                    l = set_bridge_epoch_paid_global epoch new_global_paid l;
                                    l = record_bridge_slash_event (exit_asset_id f) (exit_holder f)
                                          (exit_amount f) (burn_ref f) l
                                in (True, record_side_event
                                     (BridgeSlash (exit_asset_id f) (exit_holder f) (exit_amount f) (burn_ref f)) l))"

section \<open>Issued assets\<close>

definition asset_balance :: "bytes \<Rightarrow> bytes \<Rightarrow> ledger \<Rightarrow> u128" where
  "asset_balance a holder l = held_or 0 l (AssetBalance a holder) as_u128"

definition set_asset_balance :: "bytes \<Rightarrow> bytes \<Rightarrow> u128 \<Rightarrow> ledger \<Rightarrow> ledger" where
  "set_asset_balance a holder amount = write_leaf (AssetBalance a holder) (VU128 amount)"

definition asset_supply :: "bytes \<Rightarrow> ledger \<Rightarrow> u128" where
  "asset_supply a l = held_or 0 l (AssetSupply a) as_u128"

definition set_asset_supply :: "bytes \<Rightarrow> u128 \<Rightarrow> ledger \<Rightarrow> ledger" where
  "set_asset_supply a amount = write_leaf (AssetSupply a) (VU128 amount)"

definition credit_asset :: "bytes \<Rightarrow> bytes \<Rightarrow> u128 \<Rightarrow> ledger \<Rightarrow> bool \<times> ledger" where
  "credit_asset a holder amount l =
     (case checked_add (asset_balance a holder l) amount of
        Some updated \<Rightarrow> (True, set_asset_balance a holder updated l) | None \<Rightarrow> (False, l))"

definition debit_asset :: "bytes \<Rightarrow> bytes \<Rightarrow> u128 \<Rightarrow> ledger \<Rightarrow> bool \<times> ledger" where
  "debit_asset a holder amount l =
     (case checked_sub (asset_balance a holder l) amount of
        Some updated \<Rightarrow> (True, set_asset_balance a holder updated l) | None \<Rightarrow> (False, l))"

definition issue_asset :: "hash \<Rightarrow> bytes \<Rightarrow> bytes \<Rightarrow> u128 \<Rightarrow> ledger \<Rightarrow> bytes option \<times> ledger" where
  "issue_asset H issuer holder amount l =
     (let a = asset_id_of H issuer in
      if asset_supply a l \<noteq> 0 then (None, l)
      else if amount = 0 then (None, l)
      else (Some a, set_asset_balance a holder amount (set_asset_supply a amount l)))"

definition mint_asset :: "hash \<Rightarrow> bytes \<Rightarrow> bytes \<Rightarrow> u128 \<Rightarrow> ledger \<Rightarrow> bool \<times> ledger" where
  "mint_asset H issuer holder amount l =
     (if amount = 0 then (False, l)
      else let a = asset_id_of H issuer in
        case checked_add (asset_supply a l) amount of
          None \<Rightarrow> (False, l)
        | Some tot \<Rightarrow>
            (case credit_asset a holder amount l of
               (True, l) \<Rightarrow> (True, set_asset_supply a tot l)
             | (False, l) \<Rightarrow> (False, l)))"

section \<open>Backing of an asset\<close>

text \<open>
  \<open>holders a l\<close> adds the balances of asset \<open>a\<close>, \<open>exits_due a l\<close> the burns of \<open>a\<close> whose exit is neither
  settled nor slashed.  An asset is \<open>backed\<close> when its balances add up to its supply and the vault
  holds the supply and every exit still due.
\<close>

definition holder_value :: "bytes \<Rightarrow> leaf \<Rightarrow> value \<Rightarrow> nat" where
  "holder_value a k v =
     (case k of
        BridgeBalance b _ \<Rightarrow> if b = a then (case as_u128 v of Some x \<Rightarrow> unat x | None \<Rightarrow> 0) else 0
      | _ \<Rightarrow> 0)"

definition exit_value :: "bytes \<Rightarrow> leaf \<Rightarrow> value \<Rightarrow> nat" where
  "exit_value a k v =
     (case k of
        BridgeOutstanding _ \<Rightarrow>
          (case as_burn v of Some b \<Rightarrow> if burn_asset b = a then unat (burn_amount b) else 0 | None \<Rightarrow> 0)
      | _ \<Rightarrow> 0)"

definition holders :: "bytes \<Rightarrow> ledger \<Rightarrow> nat" where
  "holders a l = fm_sum (holder_value a) (store l)"

definition exits_due :: "bytes \<Rightarrow> ledger \<Rightarrow> nat" where
  "exits_due a l = fm_sum (exit_value a) (store l)"

definition in_custody :: "bytes \<Rightarrow> ledger \<Rightarrow> nat" where
  "in_custody a l = (case bridge_pool_vault l of Some v \<Rightarrow> unat (bridge_vault_custody v a l) | None \<Rightarrow> 0)"

definition backed :: "bytes \<Rightarrow> ledger \<Rightarrow> bool" where
  "backed a l \<longleftrightarrow>
     holders a l = unat (bridged_supply a l) \<and>
     unat (bridged_supply a l) + exits_due a l \<le> in_custody a l"

lemma fm_sum_upd_eq: "fm_sum f (fmupd k v m) = fm_sum f m - fm_at f m k + f k v"
  using fm_sum_upd [of f k v m] fm_sum_ge [of f m k] by linarith

lemma fm_sum_drop_eq: "fm_sum f (fmdrop k m) = fm_sum f m - fm_at f m k"
  using fm_sum_drop [of f k m] by linarith

lemma holder_at: "fm_at (holder_value a) (store l) (BridgeBalance b h) =
    (if b = a then unat (bridged_balance b h l) else 0)"
  by (auto simp: fm_at_def holder_value_def bridged_balance_def held_or_def held_def split: option.splits)

lemma exit_at: "fm_at (exit_value a) (store l) (BridgeOutstanding r) =
    (case bridge_outstanding_burn r l of
       Some b \<Rightarrow> if burn_asset b = a then unat (burn_amount b) else 0 | None \<Rightarrow> 0)"
  by (auto simp: fm_at_def exit_value_def bridge_outstanding_burn_def held_def split: option.splits)

lemma fm_at_zero: "(\<And>v. f k v = 0) \<Longrightarrow> fm_at f m k = 0"
  by (simp add: fm_at_def split: option.split)

lemma holders_other: "(\<And>b h. k \<noteq> BridgeBalance b h) \<Longrightarrow> holders a (write_leaf k v l) = holders a l"
  unfolding holders_def store_write fm_sum_upd_eq
  by (subst fm_at_zero) (auto simp: holder_value_def split: leaf.splits)

lemma exits_other: "(\<And>r. k \<noteq> BridgeOutstanding r) \<Longrightarrow> exits_due a (write_leaf k v l) = exits_due a l"
  unfolding exits_due_def store_write fm_sum_upd_eq
  by (subst fm_at_zero) (auto simp: exit_value_def split: leaf.splits)

lemma holders_balance:
  "holders a (write_leaf (BridgeBalance b h) (VU128 x) l) =
     (if b = a then holders a l - unat (bridged_balance a h l) + unat x else holders a l)"
  by (auto simp: holders_def fm_sum_upd_eq holder_at) (simp_all add: holder_value_def)

lemma exits_burn:
  "exits_due a (write_leaf (BridgeOutstanding r) (VBurn b) l) \<le>
     exits_due a l + (if burn_asset b = a then unat (burn_amount b) else 0)"
  by (auto simp: exits_due_def fm_sum_upd_eq exit_value_def)

lemma exits_consume:
  "bridge_outstanding_burn r l = Some b \<Longrightarrow>
   exits_due a (snd (erase_leaf (BridgeOutstanding r) l)) =
     (if burn_asset b = a then exits_due a l - unat (burn_amount b) else exits_due a l)"
  by (simp add: exits_due_def fm_sum_drop_eq exit_at)

lemma holders_erase: "(\<And>b h. k \<noteq> BridgeBalance b h) \<Longrightarrow> holders a (snd (erase_leaf k l)) = holders a l"
  unfolding holders_def store_erase fm_sum_drop_eq
  by (subst fm_at_zero) (auto simp: holder_value_def split: leaf.splits)

lemma exits_ge: "bridge_outstanding_burn r l = Some b \<Longrightarrow> burn_asset b = a \<Longrightarrow> unat (burn_amount b) \<le> exits_due a l"
  using fm_sum_ge [of "exit_value a" "store l" "BridgeOutstanding r"] by (simp add: exit_at exits_due_def)

lemma holders_ge: "unat (bridged_balance a h l) \<le> holders a l"
  using fm_sum_ge [of "holder_value a" "store l" "BridgeBalance a h"] by (simp add: holder_at holders_def)

lemma sums_events [simp]:
  "holders a (record_side_event e l) = holders a l" "holders a (record_native_event k d l) = holders a l"
  "exits_due a (record_side_event e l) = exits_due a l" "exits_due a (record_native_event k d l) = exits_due a l"
  by (simp_all add: holders_def exits_due_def)

lemma custody_other:
  "k \<noteq> Single BridgeVault \<Longrightarrow> (\<And>u b. k \<noteq> VaultCustody u b) \<Longrightarrow> in_custody a (write_leaf k v l) = in_custody a l"
  by (cases k) (auto simp: in_custody_def bridge_pool_vault_def bridge_vault_custody_def split: option.split)

lemma custody_events [simp]:
  "in_custody a (record_side_event e l) = in_custody a l" "in_custody a (record_native_event k d l) = in_custody a l"
  by (simp_all add: in_custody_def bridge_pool_vault_def bridge_vault_custody_def split: option.split)

lemma custody_erase: "in_custody a (snd (erase_leaf (BridgeOutstanding r) l)) = in_custody a l"
  by (simp add: in_custody_def bridge_pool_vault_def bridge_vault_custody_def split: option.split)

lemmas backed_simps = holders_other exits_other holders_balance holders_erase custody_other custody_erase

lemma backed_change:
  assumes "backed a l" and "holders a l' + x = holders a l + y"
    and "unat (bridged_supply a l') + x = unat (bridged_supply a l) + y"
    and "exits_due a l' + in_custody a l + y \<le> exits_due a l + in_custody a l' + x"
  shows "backed a l'"
  using assms by (auto simp: backed_def)

lemma bridge_mintE:
  assumes "bridge_mint f l = (True, l')"
  obtains vault asset tot minted credited h where
    "fact_amount f \<noteq> 0" "execution_height l \<le> expiry_height f"
    "bridge_pool_vault l = Some vault" "bridged_asset (fact_asset_id f) l = Some asset"
    "\<not> bridge_reference_seen (source_chain f) (source_ref f) l"
    "checked_add (asset_total asset) (fact_amount f) = Some tot" "tot \<le> asset_cap asset"
    "checked_add (bridge_epoch_minted (fact_asset_id f) (bridge_epoch l) l) (fact_amount f) = Some minted"
    "minted \<le> asset_epoch_cap asset"
    "checked_add (bridged_balance (fact_asset_id f) (fact_recipient f) l) (fact_amount f) = Some credited"
    "checked_add (bridge_vault_custody vault (fact_asset_id f) l) (fact_amount f) = Some h"
    "l' = record_side_event (BridgeMint (fact_asset_id f) (fact_recipient f) (fact_amount f))
      (record_bridge_mint_event (fact_asset_id f) (fact_recipient f) (fact_amount f)
      (set_bridge_epoch_minted (fact_asset_id f) (bridge_epoch l) minted
      (mark_bridge_reference (source_chain f) (source_ref f)
      (set_bridged_asset (fact_asset_id f) (asset\<lparr>asset_total := tot\<rparr>)
      (set_bridged_balance (fact_asset_id f) (fact_recipient f) credited
      (set_bridge_vault_custody vault (fact_asset_id f) h l))))))"
  using assms
  by (auto simp: bridge_mint_def credit_vault_custody_def Let_def not_less split: if_splits option.splits)

lemma bridge_mint_False: "bridge_mint f l = (False, l') \<Longrightarrow> l' = l"
  by (auto simp: bridge_mint_def credit_vault_custody_def Let_def split: if_splits option.splits)

lemma bridge_mint_applies: "fst (bridge_mint f l) = bridge_mint_would_apply f l"
  by (auto simp: bridge_mint_def bridge_mint_would_apply_def credit_vault_custody_def Let_def not_less
      split: option.splits)

lemmas bridge_setters = set_bridged_balance_def set_bridged_asset_def set_bridge_vault_custody_def
  mark_bridge_reference_def set_bridge_epoch_minted_def mark_bridge_exit_settled_def
  record_outstanding_burn_def consume_outstanding_burn_def set_bridge_epoch_paid_def
  set_bridge_epoch_paid_global_def event_defs

lemmas bridge_readers = bridged_balance_def bridged_asset_def bridge_vault_custody_def bridged_supply_def
  bridge_pool_vault_def in_custody_def bridge_outstanding_burn_def

lemma bridge_mint_backed:
  assumes "backed a l" and "bridge_mint f l = (b, l')"
  shows "backed a l'"
proof (cases b)
  case True
  with assms(2) have "bridge_mint f l = (True, l')" by simp
  then obtain vault asset tot minted credited h where m:
    "bridge_pool_vault l = Some vault" "bridged_asset (fact_asset_id f) l = Some asset"
    "checked_add (asset_total asset) (fact_amount f) = Some tot"
    "checked_add (bridged_balance (fact_asset_id f) (fact_recipient f) l) (fact_amount f) = Some credited"
    "checked_add (bridge_vault_custody vault (fact_asset_id f) l) (fact_amount f) = Some h"
    and l': "l' = record_side_event (BridgeMint (fact_asset_id f) (fact_recipient f) (fact_amount f))
      (record_bridge_mint_event (fact_asset_id f) (fact_recipient f) (fact_amount f)
      (set_bridge_epoch_minted (fact_asset_id f) (bridge_epoch l) minted
      (mark_bridge_reference (source_chain f) (source_ref f)
      (set_bridged_asset (fact_asset_id f) (asset\<lparr>asset_total := tot\<rparr>)
      (set_bridged_balance (fact_asset_id f) (fact_recipient f) credited
      (set_bridge_vault_custody vault (fact_asset_id f) h l))))))"
    by (rule bridge_mintE)
  have vault: "bridge_pool_vault l' = Some vault"
    using m(1) by (simp add: l' bridge_setters bridge_pool_vault_def)
  have exits: "exits_due a l' = exits_due a l"
    by (simp add: l' bridge_setters backed_simps)
  show ?thesis
  proof (cases "fact_asset_id f = a")
    case True
    have "holders a l' = holders a l + unat (fact_amount f)"
      using True m(4) holders_ge [of a "fact_recipient f" l]
      by (simp add: l' bridge_setters backed_simps word_nat bridged_balance_def)
    moreover have "unat (bridged_supply a l') = unat (bridged_supply a l) + unat (fact_amount f)"
      using True m(2,3) by (simp add: l' bridge_setters bridged_supply_def bridged_asset_def word_nat)
    moreover have "in_custody a l' = in_custody a l + unat (fact_amount f)"
      using True m(1,5) vault
      by (simp add: l' bridge_setters in_custody_def bridge_vault_custody_def word_nat)
    ultimately show ?thesis
      using assms(1) exits by (simp add: backed_def)
  next
    case False
    have "holders a l' = holders a l" "bridged_supply a l' = bridged_supply a l"
      using False by (simp_all add: l' bridge_setters backed_simps bridged_supply_def bridged_asset_def)
    moreover have "in_custody a l' = in_custody a l"
      using False m(1) vault by (simp add: in_custody_def) (simp add: l' bridge_setters bridge_vault_custody_def)
    ultimately show ?thesis
      using assms(1) exits by (simp add: backed_def)
  qed
qed (use assms bridge_mint_False in auto)

lemma bridge_burnE:
  assumes "bridge_burn H a holder amount dest chain n l = (True, l')"
  obtains asset tot ref idx where
    "amount \<noteq> 0" "bridged_asset a l = Some asset" "amount \<le> bridged_balance a holder l"
    "checked_sub (asset_total asset) amount = Some tot" "idx = word_of_nat (length (block_events l))"
    "ref = bridge_burn_ref H chain (chain_genesis_hash l) a holder amount dest n idx"
    "l' = record_side_event (BridgeBurn a holder amount dest chain ref)
      (record_bridge_burn_event a holder amount dest chain n idx ref
      (record_outstanding_burn ref a amount holder dest
      (set_bridged_asset a (asset\<lparr>asset_total := tot\<rparr>)
      (set_bridged_balance a holder (bridged_balance a holder l - amount) l))))"
  using assms
  by (auto simp: bridge_burn_def Let_def not_less bridge_setters chain_genesis_hash_def split: if_splits option.splits)

lemma bridge_burn_False: "bridge_burn H a holder amount dest chain n l = (False, l') \<Longrightarrow> l' = l"
  by (auto simp: bridge_burn_def Let_def split: if_splits option.splits)

lemma bridge_burn_backed:
  assumes "backed a l" and "bridge_burn H c holder amount dest chain n l = (b, l')"
  shows "backed a l'"
proof (cases b)
  case True
  with assms(2) have "bridge_burn H c holder amount dest chain n l = (True, l')" by simp
  then obtain asset tot ref idx where m: "bridged_asset c l = Some asset" "amount \<le> bridged_balance c holder l"
    "checked_sub (asset_total asset) amount = Some tot"
    and l': "l' = record_side_event (BridgeBurn c holder amount dest chain ref)
      (record_bridge_burn_event c holder amount dest chain n idx ref
      (record_outstanding_burn ref c amount holder dest
      (set_bridged_asset c (asset\<lparr>asset_total := tot\<rparr>)
      (set_bridged_balance c holder (bridged_balance c holder l - amount) l))))"
    by (rule bridge_burnE)
  let ?x = "if c = a then unat amount else 0"
  have "in_custody a l' = in_custody a l"
    by (simp add: l' bridge_setters backed_simps)
  moreover have "holders a l' + ?x = holders a l"
    using m(2) holders_ge [of c holder l]
    by (auto simp: l' bridge_setters backed_simps unat_sub word_le_nat_alt)
  moreover have "unat (bridged_supply a l') + ?x = unat (bridged_supply a l)"
    using m(1,3) by (auto simp: l' bridge_setters bridged_supply_def bridged_asset_def word_nat)
  moreover have "exits_due a l' \<le> exits_due a l + ?x"
    unfolding l' using exits_burn [of a ref "\<lparr>burn_asset = c, burn_amount = amount, burn_beneficiary = holder,
        burn_destination = dest\<rparr>" "set_bridged_asset c (asset\<lparr>asset_total := tot\<rparr>)
        (set_bridged_balance c holder (bridged_balance c holder l - amount) l)"]
    by (simp add: bridge_setters backed_simps split: if_splits)
  ultimately show ?thesis
    by (intro backed_change [OF assms(1), of _ ?x 0]) simp_all
qed (use assms in \<open>auto dest: bridge_burn_False\<close>)

lemma burn_matchesE:
  assumes "outstanding_burn_matches ref a amount holder dest l"
  obtains r where "bridge_outstanding_burn ref l = Some r" "burn_asset r = a" "burn_amount r = amount"
  using assms by (auto simp: outstanding_burn_matches_def split: option.splits)

lemma exits_closed:
  assumes "outstanding_burn_matches ref c amount holder dest l"
  shows "exits_due a (snd (erase_leaf (BridgeOutstanding ref) (write_leaf (BridgeExitSeen ref) VMark l))) +
    (if c = a then unat amount else 0) = exits_due a l"
proof -
  obtain r where r: "bridge_outstanding_burn ref l = Some r" "burn_asset r = c" "burn_amount r = amount"
    using assms by (rule burn_matchesE)
  let ?l = "write_leaf (BridgeExitSeen ref) VMark l"
  have "bridge_outstanding_burn ref ?l = Some r"
    using r(1) by (simp add: bridge_outstanding_burn_def)
  moreover have "exits_due a ?l = exits_due a l"
    by (simp add: exits_other)
  ultimately show ?thesis
    using r exits_ge [OF r(1), of a] by (simp add: exits_consume)
qed

lemma bridge_settleE:
  assumes "bridge_settle f l = (True, l')"
  obtains vault asset h where "bridge_exits_enabled l" "\<not> bridge_is_frozen l"
    "bridge_pool_vault l = Some vault" "exit_amount f \<noteq> 0" "bridged_asset (exit_asset_id f) l = Some asset"
    "\<not> bridge_exit_settled (burn_ref f) l"
    "outstanding_burn_matches (burn_ref f) (exit_asset_id f) (exit_amount f) (exit_holder f) (exit_destination f) l"
    "checked_sub (bridge_vault_custody vault (exit_asset_id f) l) (exit_amount f) = Some h"
    "asset_total asset \<le> h"
    "l' = record_side_event (BridgeSettle (exit_asset_id f) (exit_destination f) (exit_amount f) (burn_ref f))
      (record_bridge_settle_event (exit_asset_id f) (exit_destination f) (exit_amount f) (burn_ref f)
      (set_bridge_vault_custody vault (exit_asset_id f) h
      (consume_outstanding_burn (burn_ref f) (mark_bridge_exit_settled (burn_ref f) l))))"
  using assms by (auto simp: bridge_settle_def Let_def not_less split: if_splits option.splits)

lemma bridge_settle_False: "bridge_settle f l = (False, l') \<Longrightarrow> l' = l"
  by (auto simp: bridge_settle_def Let_def split: if_splits option.splits)

lemma bridge_settle_backed:
  assumes "backed a l" and "bridge_settle f l = (b, l')"
  shows "backed a l'"
proof (cases b)
  case True
  with assms(2) have "bridge_settle f l = (True, l')" by simp
  then obtain vault asset h where m: "bridge_pool_vault l = Some vault"
    "outstanding_burn_matches (burn_ref f) (exit_asset_id f) (exit_amount f) (exit_holder f) (exit_destination f) l"
    "checked_sub (bridge_vault_custody vault (exit_asset_id f) l) (exit_amount f) = Some h"
    and l': "l' = record_side_event (BridgeSettle (exit_asset_id f) (exit_destination f) (exit_amount f) (burn_ref f))
      (record_bridge_settle_event (exit_asset_id f) (exit_destination f) (exit_amount f) (burn_ref f)
      (set_bridge_vault_custody vault (exit_asset_id f) h
      (consume_outstanding_burn (burn_ref f) (mark_bridge_exit_settled (burn_ref f) l))))"
    by (rule bridge_settleE)
  let ?x = "if exit_asset_id f = a then unat (exit_amount f) else 0"
  have vault: "bridge_pool_vault l' = Some vault"
    using m(1) by (simp add: l' bridge_setters bridge_pool_vault_def)
  then have "in_custody a l' + ?x = in_custody a l"
    using m(1,3) by (auto simp: in_custody_def l' bridge_setters bridge_vault_custody_def word_nat)
  moreover have "holders a l' = holders a l" "bridged_supply a l' = bridged_supply a l"
    by (simp_all add: l' bridge_setters backed_simps bridged_supply_def bridged_asset_def)
  moreover have "exits_due a l' + ?x = exits_due a l"
    using exits_closed [OF m(2), of a] by (simp add: l' bridge_setters backed_simps)
  ultimately show ?thesis
    by (intro backed_change [OF assms(1), of _ 0 0]) (simp_all split: if_splits)
qed (use assms bridge_settle_False in auto)

lemma bridge_slashE:
  assumes "bridge_slash f l = (True, l')"
  obtains vault asset paid global tot credited where "bridge_exits_enabled l" "\<not> bridge_is_frozen l"
    "bridge_pool_vault l = Some vault" "exit_amount f \<noteq> 0" "bridged_asset (exit_asset_id f) l = Some asset"
    "\<not> bridge_exit_settled (burn_ref f) l"
    "outstanding_burn_matches (burn_ref f) (exit_asset_id f) (exit_amount f) (exit_holder f) (exit_destination f) l"
    "checked_add (bridge_epoch_paid (exit_asset_id f) (bridge_epoch l) l) (exit_amount f) = Some paid"
    "paid \<le> asset_epoch_cap asset"
    "checked_add (bridge_epoch_paid_global (bridge_epoch l) l) (exit_amount f) = Some global"
    "global \<le> bridge_payout_cap l"
    "checked_add (asset_total asset) (exit_amount f) = Some tot" "tot \<le> asset_cap asset"
    "checked_add (bridged_balance (exit_asset_id f) (exit_holder f) l) (exit_amount f) = Some credited"
    "l' = record_side_event (BridgeSlash (exit_asset_id f) (exit_holder f) (exit_amount f) (burn_ref f))
      (record_bridge_slash_event (exit_asset_id f) (exit_holder f) (exit_amount f) (burn_ref f)
      (set_bridge_epoch_paid_global (bridge_epoch l) global
      (set_bridge_epoch_paid (exit_asset_id f) (bridge_epoch l) paid
      (set_bridged_asset (exit_asset_id f) (asset\<lparr>asset_total := tot\<rparr>)
      (set_bridged_balance (exit_asset_id f) (exit_holder f) credited
      (consume_outstanding_burn (burn_ref f) (mark_bridge_exit_settled (burn_ref f) l)))))))"
  using assms by (auto simp: bridge_slash_def Let_def not_less split: if_splits option.splits)

lemma bridge_slash_False: "bridge_slash f l = (False, l') \<Longrightarrow> l' = l"
  by (auto simp: bridge_slash_def Let_def split: if_splits option.splits)

lemma bridge_slash_backed:
  assumes "backed a l" and "bridge_slash f l = (b, l')"
  shows "backed a l'"
proof (cases b)
  case True
  with assms(2) have "bridge_slash f l = (True, l')" by simp
  then obtain vault asset paid global tot credited where m: "bridged_asset (exit_asset_id f) l = Some asset"
    "outstanding_burn_matches (burn_ref f) (exit_asset_id f) (exit_amount f) (exit_holder f) (exit_destination f) l"
    "checked_add (asset_total asset) (exit_amount f) = Some tot"
    "checked_add (bridged_balance (exit_asset_id f) (exit_holder f) l) (exit_amount f) = Some credited"
    and l': "l' = record_side_event (BridgeSlash (exit_asset_id f) (exit_holder f) (exit_amount f) (burn_ref f))
      (record_bridge_slash_event (exit_asset_id f) (exit_holder f) (exit_amount f) (burn_ref f)
      (set_bridge_epoch_paid_global (bridge_epoch l) global
      (set_bridge_epoch_paid (exit_asset_id f) (bridge_epoch l) paid
      (set_bridged_asset (exit_asset_id f) (asset\<lparr>asset_total := tot\<rparr>)
      (set_bridged_balance (exit_asset_id f) (exit_holder f) credited
      (consume_outstanding_burn (burn_ref f) (mark_bridge_exit_settled (burn_ref f) l)))))))"
    by (rule bridge_slashE)
  let ?x = "if exit_asset_id f = a then unat (exit_amount f) else 0"
  have "in_custody a l' = in_custody a l"
    by (simp add: l' bridge_setters backed_simps)
  moreover have "holders a l' = holders a l + ?x"
    using m(4) holders_ge [of "exit_asset_id f" "exit_holder f" l]
    by (auto simp: l' bridge_setters backed_simps word_nat bridged_balance_def)
  moreover have "unat (bridged_supply a l') = unat (bridged_supply a l) + ?x"
    using m(1,3) by (auto simp: l' bridge_setters bridged_supply_def bridged_asset_def word_nat)
  moreover have "exits_due a l' + ?x = exits_due a l"
    using exits_closed [OF m(2), of a] by (simp add: l' bridge_setters backed_simps)
  ultimately show ?thesis
    by (intro backed_change [OF assms(1), of _ 0 ?x]) (simp_all split: if_splits)
qed (use assms bridge_slash_False in auto)

lemma register_bridged_asset_backed:
  "backed a (register_bridged_asset c cap epoch_cap stark l) \<longleftrightarrow> backed a l"
  by (auto simp: backed_def register_bridged_asset_def Let_def record_bridge_asset_id_def set_bridged_asset_def
      backed_simps bridged_supply_def bridged_asset_def)

section \<open>Each deposit once, each exit once\<close>

lemma bridge_mint_once:
  assumes "bridge_mint f l = (b, l')"
  shows "bridge_reference_seen c r l' \<longleftrightarrow>
      bridge_reference_seen c r l \<or> b \<and> c = source_chain f \<and> r = source_ref f"
    and "bridge_exit_settled e l' \<longleftrightarrow> bridge_exit_settled e l"
    and "bridge_reference_seen (source_chain f) (source_ref f) l \<Longrightarrow> \<not> b"
proof -
  show "bridge_reference_seen c r l' \<longleftrightarrow>
      bridge_reference_seen c r l \<or> b \<and> c = source_chain f \<and> r = source_ref f"
    using assms by (cases b) (auto simp: bridge_setters bridge_reference_seen_def
        dest: bridge_mint_False elim!: bridge_mintE split: if_splits)
  show "bridge_exit_settled e l' \<longleftrightarrow> bridge_exit_settled e l"
    using assms by (cases b) (auto simp: bridge_setters bridge_exit_settled_def
        dest: bridge_mint_False elim!: bridge_mintE)
  show "\<not> b" if "bridge_reference_seen (source_chain f) (source_ref f) l"
    using assms that by (auto elim: bridge_mintE)
qed

lemma bridge_burn_once:
  assumes "bridge_burn H a holder amount dest chain n l = (b, l')"
  shows "bridge_reference_seen c r l' \<longleftrightarrow> bridge_reference_seen c r l"
    and "bridge_exit_settled e l' \<longleftrightarrow> bridge_exit_settled e l"
  using assms by (cases b; auto simp: bridge_setters bridge_reference_seen_def bridge_exit_settled_def
      dest: bridge_burn_False elim!: bridge_burnE)+

lemma bridge_settle_once:
  assumes "bridge_settle f l = (b, l')"
  shows "bridge_reference_seen c r l' \<longleftrightarrow> bridge_reference_seen c r l"
    and "bridge_exit_settled e l' \<longleftrightarrow> bridge_exit_settled e l \<or> b \<and> e = burn_ref f"
    and "bridge_exit_settled (burn_ref f) l \<Longrightarrow> \<not> b"
proof -
  show "bridge_reference_seen c r l' \<longleftrightarrow> bridge_reference_seen c r l"
    using assms by (cases b) (auto simp: bridge_setters bridge_reference_seen_def
        dest: bridge_settle_False elim!: bridge_settleE)
  show "bridge_exit_settled e l' \<longleftrightarrow> bridge_exit_settled e l \<or> b \<and> e = burn_ref f"
    using assms by (cases b) (auto simp: bridge_setters bridge_exit_settled_def
        dest: bridge_settle_False elim!: bridge_settleE split: if_splits)
  show "\<not> b" if "bridge_exit_settled (burn_ref f) l"
    using assms that by (auto elim: bridge_settleE)
qed

lemma bridge_slash_once:
  assumes "bridge_slash f l = (b, l')"
  shows "bridge_reference_seen c r l' \<longleftrightarrow> bridge_reference_seen c r l"
    and "bridge_exit_settled e l' \<longleftrightarrow> bridge_exit_settled e l \<or> b \<and> e = burn_ref f"
    and "bridge_exit_settled (burn_ref f) l \<Longrightarrow> \<not> b"
proof -
  show "bridge_reference_seen c r l' \<longleftrightarrow> bridge_reference_seen c r l"
    using assms by (cases b) (auto simp: bridge_setters bridge_reference_seen_def
        dest: bridge_slash_False elim!: bridge_slashE)
  show "bridge_exit_settled e l' \<longleftrightarrow> bridge_exit_settled e l \<or> b \<and> e = burn_ref f"
    using assms by (cases b) (auto simp: bridge_setters bridge_exit_settled_def
        dest: bridge_slash_False elim!: bridge_slashE split: if_splits)
  show "\<not> b" if "bridge_exit_settled (burn_ref f) l"
    using assms that by (auto elim: bridge_slashE)
qed

end
