(* ===== verification/LedgerGov.thy ===== *)
theory LedgerGov
  imports LedgerBridge
begin

text \<open>
  Governance in the ledger, \<^verbatim>\<open>src/crates/qtv-node/src/ledger.rs\<close>: freezing and blacklisting of
  accounts, the guardians, proposing, voting, concluding and enacting referenda, and the effect of
  every action.  An operation that may panic returns an option; one that reports an error returns
  the error beside the ledger it leaves.
\<close>

section \<open>Stopped accounts\<close>

definition record_stopped :: "hash \<Rightarrow> bytes \<Rightarrow> ledger \<Rightarrow> ledger" where
  "record_stopped H i = write_leaf (GovStoppedAsset (asset_id_of H i)) VMark"

definition forget_stopped :: "hash \<Rightarrow> bytes \<Rightarrow> ledger \<Rightarrow> ledger" where
  "forget_stopped H i = write_leaf (GovStoppedAsset (asset_id_of H i)) Cleared"

definition set_gov_blacklisted :: "hash \<Rightarrow> bytes \<Rightarrow> ledger \<Rightarrow> ledger" where
  "set_gov_blacklisted H i l = record_stopped H i (write_leaf (GovBlacklist i) VMark l)"

definition is_blacklisted :: "bytes \<Rightarrow> ledger \<Rightarrow> bool" where
  "is_blacklisted address l \<longleftrightarrow>
     (case address_id address of Some i \<Rightarrow> is_gov_blacklisted i l | None \<Rightarrow> False)"

definition is_frozen_id :: "bytes \<Rightarrow> ledger \<Rightarrow> bool" where
  "is_frozen_id i l \<longleftrightarrow> marked l (GovFreeze i)"

definition asset_issuer_is_stopped :: "bytes \<Rightarrow> ledger \<Rightarrow> bool" where
  "asset_issuer_is_stopped a l \<longleftrightarrow> marked l (GovStoppedAsset a)"

definition set_frozen :: "hash \<Rightarrow> bytes \<Rightarrow> ledger \<Rightarrow> ledger" where
  "set_frozen H i l = record_stopped H i (write_leaf (GovFreeze i) VMark l)"

definition clear_frozen :: "hash \<Rightarrow> bytes \<Rightarrow> ledger \<Rightarrow> ledger" where
  "clear_frozen H i l =
     (let l = write_leaf (GovFreeze i) Cleared l
      in if \<not> is_gov_blacklisted i l then forget_stopped H i l else l)"

definition is_frozen :: "bytes \<Rightarrow> ledger \<Rightarrow> bool" where
  "is_frozen address l \<longleftrightarrow>
     (case address_id address of Some i \<Rightarrow> is_frozen_id i l | None \<Rightarrow> False)"

section \<open>Guardians\<close>

definition GUARDIAN_FREEZE_WINDOW_SECONDS :: u64 where "GUARDIAN_FREEZE_WINDOW_SECONDS = 7 * 86400"
definition GUARDIAN_ENACT_DELAY_SECONDS :: u64 where "GUARDIAN_ENACT_DELAY_SECONDS = 24 * 60 * 60"

definition guardian_set :: "ledger \<Rightarrow> guardian_set" where
  "guardian_set l = held_or \<lparr>members = [], guardian_threshold = 0\<rparr> l (Single GovGuardian) as_guardians"

definition set_guardian_set :: "guardian_set \<Rightarrow> ledger \<Rightarrow> ledger" where
  "set_guardian_set caucus = write_leaf (Single GovGuardian) (VGuardians caucus)"

definition guardian_freeze_epoch :: "ledger \<Rightarrow> u64" where
  "guardian_freeze_epoch l = held_or 0 l (Single GovGuardianEpoch) as_u64"

definition set_guardian_freeze_epoch :: "u64 \<Rightarrow> ledger \<Rightarrow> ledger" where
  "set_guardian_freeze_epoch epoch = write_leaf (Single GovGuardianEpoch) (VU64 epoch)"

definition guardian_freeze_entries :: "ledger \<Rightarrow> (bytes \<times> u64) list" where
  "guardian_freeze_entries l = held_or [] l (Single GovGuardianFreezeTargets) as_entries"

definition write_guardian_freeze_entries :: "(bytes \<times> u64) list \<Rightarrow> ledger \<Rightarrow> ledger" where
  "write_guardian_freeze_entries entries = write_leaf (Single GovGuardianFreezeTargets) (VEntries entries)"

definition is_protected_account :: "hash \<Rightarrow> bytes \<Rightarrow> bool" where
  "is_protected_account H addr \<longleftrightarrow>
     (case id_from_slice addr of Some i \<Rightarrow> is_reserved_pot H i | None \<Rightarrow> False)"

fun put_entry :: "bytes \<Rightarrow> u64 \<Rightarrow> (bytes \<times> u64) list \<Rightarrow> (bytes \<times> u64) list" where
  "put_entry i t [] = [(i, t)]"
| "put_entry i t ((j, u) # es) = (if j = i then (j, t) # es else (j, u) # put_entry i t es)"

primrec freeze_each ::
  "hash \<Rightarrow> u64 \<Rightarrow> u64 \<Rightarrow> bytes list \<Rightarrow> (bytes \<times> u64) list \<Rightarrow> ledger \<Rightarrow> (bytes \<times> u64) list \<times> ledger" where
  "freeze_each H bound t [] entries l = (entries, l)"
| "freeze_each H bound t (x # xs) entries l =
     (let l = set_frozen H x l;
          l = (case id_bytes_to_address x of
                 Some addr \<Rightarrow> record_side_event (GuardianFreeze addr bound) l | None \<Rightarrow> l)
      in freeze_each H bound t xs (put_entry x t entries) l)"

definition guardian_freeze ::
  "hash \<Rightarrow> u64 \<Rightarrow> bytes list \<Rightarrow> bytes list \<Rightarrow> u64 \<Rightarrow> ledger \<Rightarrow> bool \<times> ledger" where
  "guardian_freeze H bound targets approvers now l =
     (if targets = [] \<or> \<not> authorizes (guardian_set l) approvers then (False, l)
      else if bound \<noteq> guardian_freeze_epoch l then (False, l)
      else if list_ex (is_protected_account H) targets then (False, l)
      else if list_ex (\<lambda>x. is_frozen_id x l \<and> \<not> list_ex (\<lambda>(i, _). i = x) (guardian_freeze_entries l)) targets
      then (False, l)
      else
        let t = saturating_add now GUARDIAN_FREEZE_WINDOW_SECONDS;
            (entries, l) = freeze_each H bound t targets (guardian_freeze_entries l) l;
            l = write_guardian_freeze_entries entries l
        in (True, set_guardian_freeze_epoch (saturating_add bound 1) l))"

primrec expire_each :: "hash \<Rightarrow> u64 \<Rightarrow> (bytes \<times> u64) list \<Rightarrow> ledger \<Rightarrow> (bytes \<times> u64) list \<times> ledger" where
  "expire_each H now [] l = ([], l)"
| "expire_each H now (e # es) l =
     (if snd e \<le> now then expire_each H now es (clear_frozen H (fst e) l)
      else let (survivors, l) = expire_each H now es l in (e # survivors, l))"

definition guardian_expire :: "hash \<Rightarrow> u64 \<Rightarrow> ledger \<Rightarrow> ledger" where
  "guardian_expire H now l =
     (let entries = guardian_freeze_entries l in
      if entries = [] then l
      else let (survivors, l) = expire_each H now entries l in write_guardian_freeze_entries survivors l)"

definition guardian_freeze_forget :: "bytes list \<Rightarrow> ledger \<Rightarrow> ledger" where
  "guardian_freeze_forget targets l =
     write_guardian_freeze_entries (filter (\<lambda>(i, _). i \<notin> set targets) (guardian_freeze_entries l)) l"

definition guardian_bridge_unfreeze :: "hash \<Rightarrow> bytes list \<Rightarrow> u64 \<Rightarrow> ledger \<Rightarrow> bool \<times> ledger" where
  "guardian_bridge_unfreeze H approvers now l =
     (if bridge_freeze l = None then (False, l)
      else if \<not> authorizes (guardian_set l) approvers then (False, l)
      else (True, lift_bridge_freeze H now LiftSlash l))"

section \<open>Referenda\<close>

definition gov_next_id :: "ledger \<Rightarrow> u64" where
  "gov_next_id l = held_or 1 l (Single GovNext) as_u64"

definition set_gov_next_id :: "u64 \<Rightarrow> ledger \<Rightarrow> ledger" where
  "set_gov_next_id i = write_leaf (Single GovNext) (VU64 i)"

definition gov_total_locked :: "ledger \<Rightarrow> u128" where
  "gov_total_locked l = held_or 0 l (Single GovLocked) as_u128"

definition set_gov_total_locked :: "u128 \<Rightarrow> ledger \<Rightarrow> ledger" where
  "set_gov_total_locked amount = write_leaf (Single GovLocked) (VU128 amount)"

definition gov_referendum :: "u64 \<Rightarrow> ledger \<Rightarrow> referendum option" where
  "gov_referendum i l = held l (GovRef i) as_referendum"

definition set_gov_referendum :: "u64 \<Rightarrow> referendum \<Rightarrow> ledger \<Rightarrow> ledger" where
  "set_gov_referendum i r = write_leaf (GovRef i) (VReferendum r)"

definition gov_action :: "u64 \<Rightarrow> ledger \<Rightarrow> action option" where
  "gov_action i l = held l (GovAction i) as_action"

definition set_gov_action :: "u64 \<Rightarrow> action \<Rightarrow> ledger \<Rightarrow> ledger" where
  "set_gov_action i a = write_leaf (GovAction i) (VAction a)"

definition clear_gov_action :: "u64 \<Rightarrow> ledger \<Rightarrow> ledger" where
  "clear_gov_action i = write_leaf (GovAction i) Cleared"

definition gov_electorate :: "u64 \<Rightarrow> ledger \<Rightarrow> u64 option" where
  "gov_electorate i l = held l (GovElectorate i) as_u64"

definition set_gov_electorate :: "u64 \<Rightarrow> u64 \<Rightarrow> ledger \<Rightarrow> ledger" where
  "set_gov_electorate i amount = write_leaf (GovElectorate i) (VU64 amount)"

definition gov_track_deposit :: "track \<Rightarrow> ledger \<Rightarrow> u64" where
  "gov_track_deposit t l = held_or (track_deposit t) l (GovDeposit (track_code t)) as_u64"

definition set_gov_track_deposit :: "track \<Rightarrow> u64 \<Rightarrow> ledger \<Rightarrow> ledger" where
  "set_gov_track_deposit t amount = write_leaf (GovDeposit (track_code t)) (VU64 amount)"

definition gov_receipt :: "u64 \<Rightarrow> ledger \<Rightarrow> enactment_receipt option" where
  "gov_receipt i l = held l (GovReceipt i) as_receipt"

definition set_gov_receipt :: "u64 \<Rightarrow> enactment_receipt \<Rightarrow> ledger \<Rightarrow> ledger" where
  "set_gov_receipt i r = write_leaf (GovReceipt i) (VReceipt r)"

definition gov_ballot :: "u64 \<Rightarrow> bytes \<Rightarrow> ledger \<Rightarrow> ballot option" where
  "gov_ballot i voter l = held l (GovBallot i voter) as_ballot"

definition set_gov_ballot :: "u64 \<Rightarrow> bytes \<Rightarrow> ballot \<Rightarrow> ledger \<Rightarrow> ledger" where
  "set_gov_ballot i voter b = write_leaf (GovBallot i voter) (VBallot b)"

definition set_gov_lock :: "bytes \<Rightarrow> lock \<Rightarrow> ledger \<Rightarrow> ledger" where
  "set_gov_lock voter k = write_leaf (GovLock voter) (VLock k)"

definition clear_gov_lock :: "bytes \<Rightarrow> ledger \<Rightarrow> ledger" where
  "clear_gov_lock voter = write_leaf (GovLock voter) Cleared"

definition action_is_enactable :: "action \<Rightarrow> bool" where
  "action_is_enactable a =
     (case a of Activate feature _ \<Rightarrow> feature \<noteq> [] | BridgeAnchorSet _ _ \<Rightarrow> False | _ \<Rightarrow> True)"

definition action_kind :: "action \<Rightarrow> bytes" where
  "action_kind a = ascii (case a of
       Activate _ _ \<Rightarrow> ''activate''
     | Act_Mint _ _ \<Rightarrow> ''mint''
     | Act_BridgeMigration _ \<Rightarrow> ''bridge_migration''
     | BridgeUnfreeze \<Rightarrow> ''bridge_unfreeze''
     | GuardianRotate _ \<Rightarrow> ''guardian_rotate''
     | CommitteeRotate _ \<Rightarrow> ''committee_rotate''
     | AssetRegister _ _ _ _ \<Rightarrow> ''asset_register''
     | BridgeAnchorSet _ _ \<Rightarrow> ''bridge_anchor_set''
     | EpochAdvance \<Rightarrow> ''epoch_advance''
     | OperatorRevoke _ \<Rightarrow> ''operator_revoke''
     | Act_FreezeRecovery _ _ _ \<Rightarrow> ''freeze_recovery''
     | Blacklist _ \<Rightarrow> ''blacklist''
     | Freeze _ \<Rightarrow> ''freeze''
     | Parameter _ _ \<Rightarrow> ''parameter''
     | Spend _ _ _ \<Rightarrow> ''spend''
     | Unfreeze _ \<Rightarrow> ''unfreeze'')"

definition status_kind :: "status \<Rightarrow> bytes" where
  "status_kind s = ascii (case s of Deciding \<Rightarrow> ''deciding'' | Approved \<Rightarrow> ''approved'' | Rejected \<Rightarrow> ''rejected'')"

definition gov_propose :: "bytes \<Rightarrow> track \<Rightarrow> action \<Rightarrow> u64 \<Rightarrow> ledger \<Rightarrow> (u64 option \<times> ledger) option" where
  "gov_propose proposer t act now l =
     (if action_track act \<noteq> t then Some (None, l)
      else if \<not> action_is_enactable act then Some (None, l)
      else case address_id proposer of
        None \<Rightarrow> Some (None, l)
      | Some proposer_id \<Rightarrow>
          let dep = gov_track_deposit t l;
              a = account proposer l
          in if account_balance a < dep then Some (None, l)
          else
            let l = set_account proposer (a\<lparr>account_balance := account_balance a - dep\<rparr>) l;
                i = gov_next_id l;
                l = set_gov_referendum i (open_referendum i t proposer_id now dep) l;
                l = set_gov_action i act l;
                l = set_gov_electorate i (matured_total_staked l) l
            in do {
              next \<leftarrow> checked_add i 1;
              let l = set_gov_next_id next l;
              Some (Some i, record_side_event
                (GovPropose i proposer (track_code t) (action_kind act) dep) l) })"

definition raised_lock :: "bytes \<Rightarrow> u64 \<Rightarrow> u64 \<Rightarrow> ledger \<Rightarrow> lock" where
  "raised_lock voter_id stake release l =
     (let k = (case gov_lock voter_id l of Some k \<Rightarrow> k | None \<Rightarrow> \<lparr>lock_amount = 0, lock_until = 0\<rparr>);
          k = k\<lparr>lock_amount := saturating_add (lock_amount k) stake\<rparr>
      in if lock_until k < release then k\<lparr>lock_until := release\<rparr> else k)"

definition gov_vote ::
  "bytes \<Rightarrow> u64 \<Rightarrow> bool \<Rightarrow> conviction \<Rightarrow> u64 \<Rightarrow> u64 \<Rightarrow> ledger \<Rightarrow> (bool \<times> ledger) option" where
  "gov_vote voter i aye conv stake now l =
     (case address_id voter of
        None \<Rightarrow> Some (False, l)
      | Some voter_id \<Rightarrow>
          case gov_referendum i l of
            None \<Rightarrow> Some (False, l)
          | Some r \<Rightarrow>
              if ref_status r \<noteq> Deciding \<or> ready r now then Some (False, l)
              else if gov_ballot i voter_id l \<noteq> None then Some (False, l)
              else if (case stake_bond voter_id l of Some b \<Rightarrow> exit_requested_at b \<noteq> None | None \<Rightarrow> False)
              then Some (False, l)
              else let a = account voter l in
                if account_balance a < stake then Some (False, l)
                else if ucast (governance_stake_in_epoch voter (current_epoch l) l) * Staking.NATIVE_UNIT < ucast stake
                then Some (False, l)
                else
                  let l = set_account voter (a\<lparr>account_balance := account_balance a - stake\<rparr>) l;
                      release = max (saturating_add now (lock_seconds conv)) (decides_at r);
                      l = set_gov_lock voter_id (raised_lock voter_id stake release l) l
                  in do {
                    locked \<leftarrow> checked_add (gov_total_locked l) (ucast stake);
                    let l = set_gov_total_locked locked l;
                    t \<leftarrow> record_conviction aye conv stake (ref_tally r);
                    let l = set_gov_referendum i (r\<lparr>ref_tally := t\<rparr>) l;
                    let l = set_gov_ballot i voter_id
                      \<lparr>ballot_aye = aye, ballot_conviction = conv, ballot_stake = stake\<rparr> l;
                    Some (True, record_side_event (GovVote i voter aye (conviction_code conv) stake) l) })"

definition gov_conclude :: "u64 \<Rightarrow> u64 \<Rightarrow> ledger \<Rightarrow> status option \<times> ledger" where
  "gov_conclude i now l =
     (case gov_referendum i l of
        None \<Rightarrow> (None, l)
      | Some r \<Rightarrow>
          if ref_status r \<noteq> Deciding then (Some (ref_status r), l)
          else
            let live = matured_total_staked l;
                electorate = (ucast (max (case gov_electorate i l of Some e \<Rightarrow> e | None \<Rightarrow> live) live) :: u128);
                (s, r) = resolve now electorate r
            in if s = Deciding then (Some s, l)
            else
              let l = (if deposit_refunded r electorate
                       then (case id_bytes_to_address (ref_proposer r) of
                               Some addr \<Rightarrow>
                                 let a = account addr l in
                                 set_account addr
                                   (a\<lparr>account_balance := saturating_add (account_balance a) (ref_deposit r)\<rparr>) l
                             | None \<Rightarrow> set_stake_treasury (saturating_add (stake_treasury l) (ref_deposit r)) l)
                       else set_stake_treasury (saturating_add (stake_treasury l) (ref_deposit r)) l);
                  l = set_gov_referendum i r l
              in (Some s, record_side_event
                   (GovTally i (status_kind s) (aye_stake (ref_tally r)) (nay_stake (ref_tally r))) l))"

definition gov_release :: "bytes \<Rightarrow> u64 \<Rightarrow> ledger \<Rightarrow> u64 \<times> ledger" where
  "gov_release voter now l =
     (case address_id voter of
        None \<Rightarrow> (0, l)
      | Some voter_id \<Rightarrow>
          case gov_lock voter_id l of
            None \<Rightarrow> (0, l)
          | Some k \<Rightarrow>
              if \<not> withdrawable k now then (0, l)
              else
                let l = clear_gov_lock voter_id l;
                    l = set_gov_total_locked (saturating_sub (gov_total_locked l) (ucast (lock_amount k))) l;
                    a = account voter l
                in (lock_amount k, set_account voter
                     (a\<lparr>account_balance := saturating_add (account_balance a) (lock_amount k)\<rparr>) l))"

definition bridge_migration_pending :: "u64 \<Rightarrow> ledger \<Rightarrow> bool" where
  "bridge_migration_pending now l \<longleftrightarrow>
     list_ex (\<lambda>n. let i = word_of_nat n in
       case gov_referendum i l of
         None \<Rightarrow> False
       | Some r \<Rightarrow>
           \<not> killed r \<and> ref_status r \<noteq> Rejected \<and> \<not> enactment_expired r now \<and>
           (case gov_action i l of Some (Act_BridgeMigration _) \<Rightarrow> True | _ \<Rightarrow> False))
       [1..<unat (gov_next_id l)]"

definition bridge_expire :: "hash \<Rightarrow> u64 \<Rightarrow> ledger \<Rightarrow> ledger" where
  "bridge_expire H now l =
     (case bridge_freeze l of
        None \<Rightarrow> l
      | Some r \<Rightarrow>
          if freeze_until r \<le> now \<and> \<not> bridge_migration_pending now l
          then lift_bridge_freeze H now LiftSlash l else l)"

section \<open>Enacting\<close>

datatype enact_error =
    Unknown
  | NotApproved
  | Constitution violation
  | BadAddress
  | UnknownParameter
  | BadValue
  | BridgeNotFrozen
  | NoCommittee
  | NotImplemented
  | Overflow
  | Expired

definition gov_unfreeze_bridge :: "hash \<Rightarrow> u64 \<Rightarrow> ledger \<Rightarrow> enact_error + ledger" where
  "gov_unfreeze_bridge H now l =
     (if bridge_freeze l = None then Inl BridgeNotFrozen else Inr (lift_bridge_freeze H now LiftSlash l))"

definition gov_minted_in_period :: "u64 \<Rightarrow> ledger \<Rightarrow> u128" where
  "gov_minted_in_period period l = held_or 0 l (GovMintPeriod period) as_u128"

definition set_gov_minted_in_period :: "u64 \<Rightarrow> u128 \<Rightarrow> ledger \<Rightarrow> ledger" where
  "set_gov_minted_in_period period amount = write_leaf (GovMintPeriod period) (VU128 amount)"

definition feature_version :: "bytes \<Rightarrow> ledger \<Rightarrow> u64" where
  "feature_version feature l = held_or 0 l (FeatureGate feature) as_u64"

definition feature_active :: "bytes \<Rightarrow> ledger \<Rightarrow> bool" where
  "feature_active feature l \<longleftrightarrow> 0 < feature_version feature l"

definition set_feature_version :: "bytes \<Rightarrow> u64 \<Rightarrow> ledger \<Rightarrow> ledger" where
  "set_feature_version feature version = write_leaf (FeatureGate feature) (VU64 version)"

definition u64_from_le :: "bytes \<Rightarrow> u64 option" where
  "u64_from_le bs = (if length bs = 8 then Some (word_of_nat (nat_of_le bs)) else None)"

definition u128_from_le :: "bytes \<Rightarrow> u128 option" where
  "u128_from_le bs = (if length bs = 16 then Some (word_of_nat (nat_of_le bs)) else None)"

definition payout_ceiling :: "ledger \<Rightarrow> u128" where
  "payout_ceiling l =
     fold (\<lambda>a acc. case bridged_asset a l of
             Some x \<Rightarrow> saturating_add acc (asset_epoch_cap x) | None \<Rightarrow> acc) (bridge_asset_ids l) 0"

definition apply_parameter :: "bytes \<Rightarrow> bytes \<Rightarrow> u64 \<Rightarrow> ledger \<Rightarrow> (enact_error + ledger) option" where
  "apply_parameter key val now l =
     (if key = ascii ''price'' then
        Some (case u128_from_le val of Some x \<Rightarrow> Inr (set_stake_price x l) | None \<Rightarrow> Inl BadValue)
      else if key = ascii ''mainnet_start'' then
        Some (case u64_from_le val of
                None \<Rightarrow> Inl BadValue
              | Some day \<Rightarrow>
                  if stake_mainnet_start l \<noteq> - 1 then Inl BadValue
                  else if day < now div 86400 then Inl BadValue
                  else Inr (set_session_meter (new_meter day) (set_stake_mainnet_start day l)))
      else if key = ascii ''bridge_gateway'' then
        Some (case id_from_slice val of Some g \<Rightarrow> Inr (set_bridge_gateway g l) | None \<Rightarrow> Inl BadValue)
      else if key = ascii ''bridge_exits'' then
        Some (if val = [0] then Inr (set_bridge_exits_enabled False l)
              else if val = [1] then Inr (set_bridge_exits_enabled True l)
              else Inl BadValue)
      else if key = ascii ''bridge_payout_cap'' then
        Some (case u128_from_le val of
                None \<Rightarrow> Inl BadValue
              | Some cap \<Rightarrow>
                  if payout_ceiling l < cap then Inl BadValue else Inr (set_bridge_payout_cap cap l))
      else if key = ascii ''gov_deposit'' then
        (if length val \<noteq> 9 then Some (Inl BadValue)
         else case track_from_code (hd val) of
           None \<Rightarrow> Some (Inl BadValue)
         | Some t \<Rightarrow>
             let amount = word_of_nat (nat_of_le (take 8 (drop 1 val))) in
             do {
               (floor, ceiling) \<leftarrow> gov_deposit_bounds (total_supply l);
               Some (if amount < floor \<or> ceiling < amount then Inl BadValue
                     else Inr (set_gov_track_deposit t amount l)) })
      else Some (Inl UnknownParameter))"

definition seize_bond :: "bytes \<Rightarrow> bytes \<Rightarrow> u64 \<Rightarrow> u64 \<Rightarrow> ledger \<Rightarrow> u64 \<times> ledger" where
  "seize_bond from_id from_addr rest taken l =
     (case stake_bond from_id l of
        None \<Rightarrow> (taken, l)
      | Some b \<Rightarrow>
          let from_bond = min (bond_amount b) rest in
          if 0 < from_bond
          then let residue = bond_amount b - from_bond;
                   l = clear_stake_bond from_id l;
                   l = debit_staked (bond_amount b) l;
                   l = credit_if from_addr residue l
               in (saturating_add taken from_bond, l)
          else (taken, l))"

definition seize_lock :: "bytes \<Rightarrow> u64 \<Rightarrow> u64 \<Rightarrow> ledger \<Rightarrow> u64 \<times> ledger" where
  "seize_lock from_id still taken l =
     (case gov_lock from_id l of
        None \<Rightarrow> (taken, l)
      | Some k \<Rightarrow>
          let from_lock = min (lock_amount k) still in
          if 0 < from_lock
          then let k = k\<lparr>lock_amount := lock_amount k - from_lock\<rparr>;
                   l = (if lock_amount k = 0 then clear_gov_lock from_id l else set_gov_lock from_id k l);
                   l = set_gov_total_locked (saturating_sub (gov_total_locked l) (ucast from_lock)) l
               in (saturating_add taken from_lock, l)
          else (taken, l))"

definition seize_frozen :: "bytes \<Rightarrow> bytes \<Rightarrow> u64 \<Rightarrow> u64 \<Rightarrow> u64 \<Rightarrow> ledger \<Rightarrow> u64 \<times> ledger" where
  "seize_frozen from_id from_addr amount rest taken l =
     (if is_frozen_id from_id l
      then let (taken, l) = seize_bond from_id from_addr rest taken l;
               still = saturating_sub amount taken
           in if 0 < still then seize_lock from_id still taken l else (taken, l)
      else (taken, l))"

definition seize :: "bytes \<Rightarrow> bytes \<Rightarrow> seizure \<Rightarrow> u64 \<times> ledger \<Rightarrow> u64 \<times> ledger" where
  "seize victim_addr scope z acc =
     (let (recovered, l) = acc in
      case id_bytes_to_address (seizure_from z) of
        None \<Rightarrow> (recovered, l)
      | Some from_addr \<Rightarrow>
          let a = account from_addr l;
              taken = min (account_balance a) (seizure_amount z);
              l = set_account from_addr (a\<lparr>account_balance := account_balance a - taken\<rparr>) l;
              rest = seizure_amount z - taken;
              (taken, l) =
                (if 0 < rest
                 then (case id_from_slice (seizure_from z) of
                         None \<Rightarrow> (taken, l)
                       | Some from_id \<Rightarrow>
                           seize_frozen from_id from_addr (seizure_amount z) rest taken l)
                 else (taken, l))
          in (saturating_add recovered taken,
              record_side_event (RecoverySeizure victim_addr from_addr taken scope) l))"

primrec seize_all :: "bytes \<Rightarrow> bytes \<Rightarrow> seizure list \<Rightarrow> u64 \<times> ledger \<Rightarrow> u64 \<times> ledger" where
  "seize_all victim_addr scope [] acc = acc"
| "seize_all victim_addr scope (z # zs) acc = seize_all victim_addr scope zs (seize victim_addr scope z acc)"

definition recover :: "bytes \<Rightarrow> bytes \<Rightarrow> seizure list \<Rightarrow> ledger \<Rightarrow> enact_error + ledger" where
  "recover scope victim seizures l =
     (case id_bytes_to_address victim of
        None \<Rightarrow> Inl BadAddress
      | Some victim_addr \<Rightarrow>
          let (recovered, l) = seize_all victim_addr scope seizures (0, l);
              a = account victim_addr l;
              l = set_account victim_addr
                    (a\<lparr>account_balance := saturating_add (account_balance a) recovered\<rparr>) l;
              l = record_side_event (RecoveryCredit victim_addr recovered scope) l
          in Inr (guardian_freeze_forget (List.map_filter (\<lambda>z. id_from_slice (seizure_from z)) seizures) l))"

definition stop_each :: "(bytes \<Rightarrow> ledger \<Rightarrow> ledger) \<Rightarrow> (bytes \<Rightarrow> side_event) \<Rightarrow> bytes list \<Rightarrow> ledger \<Rightarrow> ledger" where
  "stop_each change event targets l =
     guardian_freeze_forget (List.map_filter id_from_slice targets)
       (fold (\<lambda>x l. case id_from_slice x of
                None \<Rightarrow> l
              | Some i \<Rightarrow>
                  let l = change i l in
                  (case id_bytes_to_address i of Some addr \<Rightarrow> record_side_event (event addr) l | None \<Rightarrow> l))
          targets l)"

primrec migrate_each :: "bytes \<Rightarrow> bytes \<Rightarrow> bytes list \<Rightarrow> ledger \<Rightarrow> ledger" where
  "migrate_each old_vault vault [] l = l"
| "migrate_each old_vault vault (a # as) l =
     (let h = bridge_vault_custody old_vault a l in
      if h = 0 then migrate_each old_vault vault as l
      else let l = set_bridge_vault_custody old_vault a 0 l;
               carried = saturating_add (bridge_vault_custody vault a l) h
           in migrate_each old_vault vault as (set_bridge_vault_custody vault a carried l))"

definition migrate_bridge :: "bytes \<Rightarrow> ledger \<Rightarrow> enact_error + ledger" where
  "migrate_bridge vault l =
     (if \<not> bridge_is_frozen l then Inl BridgeNotFrozen
      else case id_from_slice vault of
        None \<Rightarrow> Inl BadAddress
      | Some vault_id \<Rightarrow>
          let l = (case bridge_pool_vault l of
                     None \<Rightarrow> l
                   | Some old_vault \<Rightarrow>
                       if old_vault \<noteq> vault_id then migrate_each old_vault vault_id (bridge_asset_ids l) l else l);
              l = set_bridge_pool_vault vault_id l
          in Inr (case id_bytes_to_address vault_id of
                    Some addr \<Rightarrow> record_side_event (Ev_BridgeMigration addr) l | None \<Rightarrow> l))"

fun collect_operators ::
  "ml_dsa \<Rightarrow> u64 \<Rightarrow> operator_claim list \<Rightarrow> (u32 \<times> bytes) list \<Rightarrow> (u32 \<times> bytes) list option" where
  "collect_operators S chain_id [] ops = Some ops"
| "collect_operators S chain_id (c # cs) ops =
     (if list_ex (\<lambda>(i, _). i = operator_id c) ops then None
      else if list_ex (\<lambda>(_, k). k = public_key c) ops then None
      else if \<not> operator_pop_ok S (operator_id c) (public_key c) (pop c) chain_id then None
      else collect_operators S chain_id cs (ops @ [(operator_id c, public_key c)]))"

definition rotate_committee ::
  "ml_dsa \<Rightarrow> u64 \<Rightarrow> committee_rotation \<Rightarrow> ledger \<Rightarrow> enact_error + ledger" where
  "rotate_committee S chain_id rotation l =
     (if rotation_threshold rotation < 2 then Inl BadValue
      else case collect_operators S chain_id (rotation_operators rotation) [] of
        None \<Rightarrow> Inl BadValue
      | Some ops \<Rightarrow>
          if length ops < unat (rotation_threshold rotation) then Inl BadValue
          else if unat (rotation_threshold rotation) * 3 \<le> length ops * 2 then Inl BadValue
          else Inr (record_side_event
                 (Ev_CommitteeRotate (word_of_nat (length ops)) (rotation_threshold rotation))
                 (seed_bridge_operator_set (operator_set_new ops (rotation_threshold rotation)) l)))"

definition spend :: "hash \<Rightarrow> bytes \<Rightarrow> bytes \<Rightarrow> u64 \<Rightarrow> ledger \<Rightarrow> enact_error + ledger" where
  "spend H source to amount l =
     (case id_bytes_to_address to of
        None \<Rightarrow> Inl BadAddress
      | Some to_addr \<Rightarrow>
          case id_from_slice source of
            None \<Rightarrow> Inl BadAddress
          | Some from_id \<Rightarrow>
              let debited =
                (if from_id = H (ascii ''qtv/gov/grants'')
                 then let grants = grants_address H; pot = account grants l in
                   if account_balance pot < amount then Inl BadValue
                   else Inr (set_account grants (pot\<lparr>account_balance := account_balance pot - amount\<rparr>) l)
                 else if from_id = stake_singleton_key H STAKE_TREASURY_TAG
                 then (if stake_treasury l < amount then Inl BadValue
                       else Inr (set_stake_treasury (stake_treasury l - amount) l))
                 else Inl BadAddress)
              in (case debited of
                    Inl e \<Rightarrow> Inl e
                  | Inr l \<Rightarrow>
                      let a = account to_addr l;
                          l = set_account to_addr
                                (a\<lparr>account_balance := saturating_add (account_balance a) amount\<rparr>) l;
                          name = (if from_id = H (ascii ''qtv/gov/grants'')
                                  then ascii ''gov/grants'' else ascii ''stake/treasury'')
                      in Inr (record_side_event (Ev_Spend name to_addr amount) l)))"

definition mint_native :: "bytes \<Rightarrow> u64 \<Rightarrow> u64 \<Rightarrow> ledger \<Rightarrow> enact_error + ledger" where
  "mint_native to amount now l =
     (case id_bytes_to_address to of
        None \<Rightarrow> Inl BadAddress
      | Some addr \<Rightarrow>
          let period = now div YEAR_SECONDS in
          case checked_add (gov_minted_in_period period l) (ucast amount) of
            None \<Rightarrow> Inl Overflow
          | Some after_period \<Rightarrow>
              let a = account addr l in
              case checked_add (account_balance a) amount of
                None \<Rightarrow> Inl Overflow
              | Some b \<Rightarrow>
                  case checked_add (total_supply l) amount of
                    None \<Rightarrow> Inl Overflow
                  | Some tot \<Rightarrow>
                      let l = set_account addr (a\<lparr>account_balance := b\<rparr>) l;
                          l = set_total_supply tot l;
                          l = set_gov_minted_in_period period after_period l;
                          l = record_mint_event addr amount l
                      in Inr (record_side_event (Ev_Mint addr amount) l))"

definition execute_action ::
  "hash \<Rightarrow> ml_dsa \<Rightarrow> action \<Rightarrow> u64 \<Rightarrow> u64 \<Rightarrow> ledger \<Rightarrow> (enact_error + ledger) option" where
  "execute_action H S act now chain_id l =
     (case act of
        Act_Mint to amount \<Rightarrow> Some (mint_native to amount now l)
      | Parameter key val \<Rightarrow> do {
          outcome \<leftarrow> apply_parameter key val now l;
          Some (case outcome of
                  Inl e \<Rightarrow> Inl e | Inr l \<Rightarrow> Inr (record_side_event (Ev_Parameter key val) l)) }
      | Spend source to amount \<Rightarrow> Some (spend H source to amount l)
      | Blacklist x \<Rightarrow>
          Some (Inr (case id_from_slice x of
                       None \<Rightarrow> l
                     | Some i \<Rightarrow>
                         let l = set_gov_blacklisted H i l in
                         (case id_bytes_to_address i of
                            Some addr \<Rightarrow> record_side_event (Ev_Blacklist addr) l | None \<Rightarrow> l)))
      | Act_FreezeRecovery scope victim seizures \<Rightarrow> Some (recover scope victim seizures l)
      | Freeze targets \<Rightarrow> Some (Inr (stop_each (set_frozen H) Ev_Freeze targets l))
      | Unfreeze targets \<Rightarrow> Some (Inr (stop_each (clear_frozen H) Ev_Unfreeze targets l))
      | Act_BridgeMigration vault \<Rightarrow> Some (migrate_bridge vault l)
      | BridgeUnfreeze \<Rightarrow>
          Some (case gov_unfreeze_bridge H now l of
                  Inl e \<Rightarrow> Inl e | Inr l \<Rightarrow> Inr (record_side_event Ev_BridgeUnfreeze l))
      | GuardianRotate g \<Rightarrow>
          Some (if \<not> well_formed g then Inl BadValue
                else Inr (record_side_event
                       (Ev_GuardianRotate (word_of_nat (length (members g))) (guardian_threshold g))
                       (set_guardian_set g l)))
      | CommitteeRotate rotation \<Rightarrow> Some (rotate_committee S chain_id rotation l)
      | OperatorRevoke i \<Rightarrow>
          Some (case bridge_operator_set l of
                  None \<Rightarrow> Inl NoCommittee
                | Some ops \<Rightarrow>
                    (case revoke i ops of
                       (False, _) \<Rightarrow> Inl BadValue
                     | (True, ops) \<Rightarrow>
                         Inr (record_side_event (Ev_OperatorRevoke i) (seed_bridge_operator_set ops l))))
      | AssetRegister a cap epoch_cap stark \<Rightarrow>
          Some (if cap = 0 \<or> epoch_cap = 0 then Inl BadValue
                else if stark then Inl BadValue
                else Inr (record_side_event (Ev_AssetRegister a cap epoch_cap stark)
                       (register_bridged_asset a cap epoch_cap stark l)))
      | BridgeAnchorSet _ _ \<Rightarrow> Some (Inl BadValue)
      | EpochAdvance \<Rightarrow>
          Some (case checked_add (bridge_epoch l) 1 of
                  None \<Rightarrow> Inl BadValue
                | Some next \<Rightarrow> Inr (record_side_event (Ev_EpochAdvance next) (set_bridge_epoch next l)))
      | Activate feature version \<Rightarrow>
          Some (if feature = [] \<or> version \<le> feature_version feature l then Inl BadValue
                else Inr (record_side_event (Ev_Activate feature version)
                       (set_feature_version feature version l))))"

definition scope_ok :: "hash \<Rightarrow> u64 \<Rightarrow> action \<Rightarrow> bool" where
  "scope_ok H chain_id act =
     (case act of
        Act_FreezeRecovery scope victim seizures \<Rightarrow> H (recovery_scope_preimage chain_id victim seizures) = scope
      | _ \<Rightarrow> True)"

definition action_scope :: "action \<Rightarrow> bytes" where
  "action_scope act = (case act of Act_FreezeRecovery scope _ _ \<Rightarrow> scope | _ \<Rightarrow> replicate 32 0)"

definition record_enactment :: "hash \<Rightarrow> u64 \<Rightarrow> u64 \<Rightarrow> action \<Rightarrow> tally \<Rightarrow> ledger \<Rightarrow> ledger" where
  "record_enactment H i now act t l =
     (let receipt = \<lparr>receipt_referendum = i, proposal_hash = H (encode_action act []),
            receipt_scope = action_scope act, receipt_tally = t, enacted_at = now\<rparr>;
          l = set_gov_receipt i receipt l;
          l = clear_gov_action i l
      in record_side_event (GovEnact i (action_kind act) (proposal_hash receipt)) l)"

definition gov_enact ::
  "hash \<Rightarrow> ml_dsa \<Rightarrow> u64 \<Rightarrow> u64 \<Rightarrow> u64 \<Rightarrow> ledger \<Rightarrow> ((enact_error + unit) \<times> ledger) option" where
  "gov_enact H S i now chain_id l =
     (case gov_conclude i now l of
        (None, l) \<Rightarrow> Some (Inl Unknown, l)
      | (Some s, l) \<Rightarrow>
          if s \<noteq> Approved then Some (Inl NotApproved, l)
          else case gov_action i l of
            None \<Rightarrow> Some (Inl Unknown, l)
          | Some act \<Rightarrow>
              case gov_referendum i l of
                None \<Rightarrow> Some (Inl Unknown, l)
              | Some r \<Rightarrow>
                  if enactment_expired r now then Some (Inl Expired, clear_gov_action i l)
                  else if \<not> enactable r now then Some (Inl NotApproved, l)
                  else case check_enactment (ref_track r) act (scope_ok H chain_id act) (is_protected_account H) of
                    Inl v \<Rightarrow> Some (Inl (Constitution v), l)
                  | Inr _ \<Rightarrow> do {
                      outcome \<leftarrow> execute_action H S act now chain_id l;
                      Some (case outcome of
                              Inl e \<Rightarrow> (Inl e, l)
                            | Inr l \<Rightarrow> (Inr (), record_enactment H i now act (ref_tally r) l)) })"

section \<open>Guardian enactment\<close>

definition guardian_enact_nonce :: "ledger \<Rightarrow> u64" where
  "guardian_enact_nonce l = held_or 0 l (Single GuardianEnactNonce) as_u64"

definition set_guardian_enact_nonce :: "u64 \<Rightarrow> ledger \<Rightarrow> ledger" where
  "set_guardian_enact_nonce n = write_leaf (Single GuardianEnactNonce) (VU64 n)"

definition guardian_pending_enact :: "ledger \<Rightarrow> (u64 \<times> bytes) option" where
  "guardian_pending_enact l =
     (case held l (Single GuardianPendingEnact) as_bytes of
        Some bs \<Rightarrow>
          if 8 < length bs then Some (word_of_nat (nat_of_le (take 8 bs)), drop 8 bs) else None
      | None \<Rightarrow> None)"

definition clear_guardian_pending_enact :: "ledger \<Rightarrow> ledger" where
  "clear_guardian_pending_enact = write_leaf (Single GuardianPendingEnact) Cleared"

fun is_anchor_set :: "action \<Rightarrow> bool" where
  "is_anchor_set (BridgeAnchorSet _ _) \<longleftrightarrow> True"
| "is_anchor_set _ \<longleftrightarrow> False"

definition guardian_enact_bridge_action :: "action \<Rightarrow> u64 \<Rightarrow> u64 \<Rightarrow> ledger \<Rightarrow> bool \<times> ledger" where
  "guardian_enact_bridge_action act enact_nonce now l =
     (if guardian_enact_nonce l \<noteq> enact_nonce then (False, l)
      else if \<not> is_anchor_set act then (False, l)
      else if guardian_pending_enact l \<noteq> None then (False, l)
      else
        let effective_at = saturating_add now GUARDIAN_ENACT_DELAY_SECONDS;
            payload = le_of_nat 8 (unat effective_at) @ encode_action act [];
            l = write_leaf (Single GuardianPendingEnact) (VBytes payload) l
        in (True, set_guardian_enact_nonce (saturating_add enact_nonce 1) l))"

definition guardian_apply_due_enact :: "hash \<Rightarrow> ml_dsa \<Rightarrow> u64 \<Rightarrow> ledger \<Rightarrow> ledger option" where
  "guardian_apply_due_enact H S now l =
     (case guardian_pending_enact l of
        None \<Rightarrow> Some l
      | Some (effective_at, action_bytes) \<Rightarrow>
          if now < effective_at then Some l
          else
            let l = clear_guardian_pending_enact l in
            if bridge_freeze l \<noteq> None then Some l
            else case decode_action (new_decoder action_bytes) of
              Inl _ \<Rightarrow> Some l
            | Inr (act, d) \<Rightarrow>
                if remaining d = 0 \<and> is_anchor_set act
                then do {
                  outcome \<leftarrow> execute_action H S act now 0 l;
                  Some (case outcome of Inl _ \<Rightarrow> l | Inr l \<Rightarrow> l) }
                else Some l)"

end
