(* ===== verification/Conservation.thy ===== *)
theory Conservation
  imports LedgerGov
begin

text \<open>
  Native value across the whole ledger.  The lemmas extend the conservation of theory
  \<open>LedgerStake\<close> to governance and to the bridge: every operation keeps the native value held in
  accounts, bonds, reward books, locks, deposits, pool and treasury equal to the recorded supply.
\<close>

section \<open>Leaves that hold no native value\<close>

definition neutral :: "leaf \<Rightarrow> bool" where
  "neutral k \<longleftrightarrow>
     (case k of
        Acct _ \<Rightarrow> False | AcctUnparsed _ \<Rightarrow> False | StakeBond _ \<Rightarrow> False | StakeRewards _ \<Rightarrow> False
      | GovLock _ \<Rightarrow> False | GovRef _ \<Rightarrow> False
      | Single s \<Rightarrow> s \<notin> {StakePool, StakeTreasury, Supply, StakeTotal}
      | _ \<Rightarrow> True)"

lemma neutral_native: "neutral k \<Longrightarrow> native_value k v = 0"
  by (cases k) (auto simp: neutral_def native_value_def native_kind_def)

lemma neutral_distinct:
  assumes "neutral k"
  shows "k \<noteq> Single Supply" "k \<noteq> Single StakeTotal" "k \<noteq> StakeBond i" "k \<noteq> StakeRewards i"
  using assms by (auto simp: neutral_def)

lemma sound_neutral_write [simp]: "neutral k \<Longrightarrow> sound (write_leaf k v l) a m n \<longleftrightarrow> sound l a m n"
proof -
  assume k: "neutral k"
  have "holdings (write_leaf k v l) = holdings l"
    unfolding holdings_def store_write fm_sum_upd_eq by (simp add: neutral_native [OF k] fm_at_zero)
  moreover have "staked_sum (write_leaf k v l) = staked_sum l"
    by (rule staked_write_other) (use neutral_distinct [OF k] in auto)
  moreover have "books_open (write_leaf k v l) = books_open l"
    by (simp add: books_open_def neutral_distinct(4) [OF k, THEN not_sym])
  ultimately show ?thesis
    using neutral_distinct(1,2) [OF k]
    by (auto simp: sound_def balanced_def total_supply_def total_staked_def)
qed

lemma sound_neutral_erase [simp]: "neutral k \<Longrightarrow> sound (snd (erase_leaf k l)) a m n \<longleftrightarrow> sound l a m n"
proof -
  assume k: "neutral k"
  have "holdings (snd (erase_leaf k l)) = holdings l"
    unfolding holdings_def store_erase fm_sum_drop_eq by (simp add: neutral_native [OF k] fm_at_zero)
  moreover have "staked_sum (snd (erase_leaf k l)) = staked_sum l"
    unfolding staked_sum_def store_erase fm_sum_drop_eq
    using neutral_distinct [OF k] by (subst fm_at_zero) (auto simp: bond_value_def split: leaf.splits)
  moreover have "books_open (snd (erase_leaf k l)) = books_open l"
    by (simp add: books_open_def neutral_distinct(4) [OF k, THEN not_sym])
  ultimately show ?thesis
    using neutral_distinct(1,2) [OF k]
    by (auto simp: sound_def balanced_def total_supply_def total_staked_def)
qed

lemmas plain_writes = bridge_setters set_gov_next_id_def set_gov_total_locked_def set_gov_action_def
  clear_gov_action_def set_gov_electorate_def set_gov_track_deposit_def set_gov_receipt_def
  set_gov_ballot_def record_stopped_def forget_stopped_def set_gov_blacklisted_def set_frozen_def
  clear_frozen_def set_guardian_set_def set_guardian_freeze_epoch_def write_guardian_freeze_entries_def
  set_gov_minted_in_period_def set_feature_version_def set_bridge_gateway_def
  set_bridge_exits_enabled_def set_bridge_payout_cap_def set_bridge_epoch_def set_bridge_pool_vault_def
  seed_bridge_operator_set_def register_bridged_asset_def record_bridge_asset_id_def
  set_guardian_enact_nonce_def clear_guardian_pending_enact_def set_stake_price_def
  set_stake_mainnet_start_def set_session_meter_def guardian_freeze_forget_def
  set_asset_balance_def set_asset_supply_def clear_bridge_freeze_def set_bridge_freeze_def
  set_bridge_last_lift_def

section \<open>The bridge moves no native value\<close>

lemma bridge_mint_sound: "bridge_mint f l = (r, l') \<Longrightarrow> sound l' a m n \<longleftrightarrow> sound l a m n"
  by (cases r) (auto elim!: bridge_mintE simp: plain_writes neutral_def dest: bridge_mint_False)

lemma bridge_burn_sound:
  "bridge_burn H c h x d ch nc l = (r, l') \<Longrightarrow> sound l' a m n \<longleftrightarrow> sound l a m n"
  by (cases r) (auto elim!: bridge_burnE simp: plain_writes neutral_def dest: bridge_burn_False)

lemma bridge_settle_sound: "bridge_settle f l = (r, l') \<Longrightarrow> sound l' a m n \<longleftrightarrow> sound l a m n"
  by (cases r) (auto elim!: bridge_settleE simp: plain_writes neutral_def dest: bridge_settle_False)

lemma bridge_slash_sound: "bridge_slash f l = (r, l') \<Longrightarrow> sound l' a m n \<longleftrightarrow> sound l a m n"
  by (cases r) (auto elim!: bridge_slashE simp: plain_writes neutral_def dest: bridge_slash_False)

section \<open>Deposits and locks\<close>

definition escrow :: "u64 \<Rightarrow> ledger \<Rightarrow> nat" where
  "escrow i l =
     (case gov_referendum i l of
        Some r \<Rightarrow> if ref_status r = Deciding then unat (ref_deposit r) else 0 | None \<Rightarrow> 0)"

definition locked_amount :: "bytes \<Rightarrow> ledger \<Rightarrow> u64" where
  "locked_amount i l = (case gov_lock i l of Some k \<Rightarrow> lock_amount k | None \<Rightarrow> 0)"

lemma native_at_ref: "native_at l (GovRef i) = escrow i l"
  by (cases "peek l (GovRef i)")
    (auto simp: escrow_def gov_referendum_def held_def native_value_def native_kind_def as_referendum_iff
      split: option.splits)

lemma native_at_locked: "native_at l (GovLock i) = unat (locked_amount i l)"
  by (simp add: native_at_lock locked_amount_def split: option.split)

lemma sound_set_referendum:
  assumes "sound l k m n"
    and "(if ref_status r = Deciding then unat (ref_deposit r) else 0) + k' = escrow i l + k"
  shows "sound (set_gov_referendum i r l) k' m n"
  unfolding set_gov_referendum_def
  by (rule sound_write [OF assms(1)])
    (use assms(2) in \<open>simp_all add: native_at_ref native_value_def native_kind_def\<close>)

lemma sound_set_lock:
  assumes "sound l k m n" and "unat (lock_amount x) + k' = unat (locked_amount i l) + k"
  shows "sound (set_gov_lock i x l) k' m n"
  unfolding set_gov_lock_def
  by (rule sound_write [OF assms(1)])
    (use assms(2) in \<open>simp_all add: native_at_locked native_value_def native_kind_def\<close>)

lemma sound_clear_lock:
  assumes "sound l k m n"
  shows "sound (clear_gov_lock i l) (k + unat (locked_amount i l)) m n"
  unfolding clear_gov_lock_def
  by (rule sound_write [OF assms]) (simp_all add: native_at_locked native_value_def native_kind_def)

lemma sound_debit:
  assumes "sound l k m n" and "\<not> account_balance (account address l) < amount"
  shows "sound (set_account address ((account address l)\<lparr>account_balance :=
    account_balance (account address l) - amount\<rparr>) l) (k + unat amount) m n"
  by (rule sound_set_account [OF assms(1)]) (use assms(2) in \<open>simp add: unat_sub not_less word_le_nat_alt\<close>)

lemma account_other [simp]:
  "account a (write_leaf (GovRef i) v l) = account a l" "account a (write_leaf (GovLock u) v l) = account a l"
  "account a (write_leaf (Single s) v l) = account a l"
  by (simp_all add: account_def)

lemma gov_propose_sound:
  assumes "gov_propose proposer t act now l = Some (r, l')" and "sound l 0 0 0"
    and "escrow (gov_next_id l) l = 0"
  shows "sound l' 0 0 0"
proof -
  let ?dep = "gov_track_deposit t l"
  let ?l1 = "set_account proposer ((account proposer l)\<lparr>account_balance :=
    account_balance (account proposer l) - ?dep\<rparr>) l"
  have i: "gov_next_id ?l1 = gov_next_id l" "escrow i ?l1 = escrow i l" for i
    by (simp_all add: gov_next_id_def set_account_def escrow_def gov_referendum_def)
  have "sound (set_gov_referendum (gov_next_id l) (open_referendum (gov_next_id l) t pid now ?dep) ?l1) 0 0 0"
    if "\<not> account_balance (account proposer l) < ?dep" for pid
    by (rule sound_set_referendum [OF sound_debit [OF assms(2) that]])
      (simp add: open_referendum_def i assms(3))
  then show ?thesis
    using assms(1,2)
    by (auto simp: gov_propose_def Let_def i plain_writes neutral_def split: if_splits option.splits bind_splits)
qed

lemma raised_lock_amount:
  "lock_amount (raised_lock i stake release l) = saturating_add (locked_amount i l) stake"
  by (simp add: raised_lock_def locked_amount_def Let_def split: option.split)

lemma sound_raise_lock:
  assumes "sound l (unat stake) m n"
  shows "sound (set_gov_lock i (raised_lock i stake release l) l) 0 m n"
  by (rule sound_set_lock [OF assms])
    (simp add: raised_lock_amount sound_fits [OF assms order_refl native_at_locked])

lemma gov_vote_sound:
  assumes "gov_vote voter i aye conv stake now l = Some (b, l')" and "sound l 0 0 0"
  shows "sound l' 0 0 0"
proof -
  let ?l1 = "set_account voter ((account voter l)\<lparr>account_balance :=
    account_balance (account voter l) - stake\<rparr>) l"
  have main: "sound (set_gov_referendum i (r\<lparr>ref_tally := t\<rparr>)
      (set_gov_total_locked x (set_gov_lock u (raised_lock u stake release ?l1) ?l1))) 0 0 0"
    if guard: "\<not> account_balance (account voter l) < stake" and r: "gov_referendum i l = Some r"
    for r t x u release
  proof (rule sound_set_referendum)
    show "sound (set_gov_total_locked x (set_gov_lock u (raised_lock u stake release ?l1) ?l1)) 0 0 0"
      using sound_raise_lock [OF sound_debit [OF assms(2) guard, unfolded add_0]]
      by (simp add: set_gov_total_locked_def neutral_def)
    have "escrow i (set_gov_total_locked x (set_gov_lock u (raised_lock u stake release ?l1) ?l1)) = escrow i l"
      by (simp add: escrow_def gov_referendum_def set_gov_total_locked_def set_gov_lock_def set_account_def)
    then show "(if ref_status (r\<lparr>ref_tally := t\<rparr>) = Deciding then unat (ref_deposit (r\<lparr>ref_tally := t\<rparr>)) else 0) + 0 =
      escrow i (set_gov_total_locked x (set_gov_lock u (raised_lock u stake release ?l1) ?l1)) + 0"
      using r by (simp add: escrow_def)
  qed
  show ?thesis
    using assms
    by (auto simp: gov_vote_def Let_def main set_gov_ballot_def neutral_def
        split: if_splits option.splits bind_splits)
qed

lemma sound_clear_escrow:
  assumes "sound l 0 0 0" and "gov_referendum i l = Some r" and "ref_status r = Deciding"
    and "ref_deposit r' = ref_deposit r" and "ref_status r' \<noteq> Deciding"
  shows "sound (set_gov_referendum i r' l) (unat (ref_deposit r')) 0 0"
  by (rule sound_set_referendum [OF assms(1)]) (use assms in \<open>simp add: escrow_def\<close>)

lemma conclude_store:
  "store (set_account a x (set_gov_referendum i r l)) = store (set_gov_referendum i r (set_account a x l))"
  "store (set_stake_treasury t (set_gov_referendum i r l)) = store (set_gov_referendum i r (set_stake_treasury t l))"
  by (rule fmap_ext, auto simp: set_gov_referendum_def set_account_def set_stake_treasury_def)+

lemma sound_refund:
  assumes "sound l 0 0 0" and "gov_referendum i l = Some r" and "ref_status r = Deciding"
    and "ref_deposit r' = ref_deposit r" and "ref_status r' \<noteq> Deciding"
  shows "sound (set_gov_referendum i r' (set_account addr ((account addr l)\<lparr>account_balance :=
      saturating_add (account_balance (account addr l)) (ref_deposit r')\<rparr>) l)) 0 0 0"
    and "sound (set_gov_referendum i r' (set_stake_treasury (saturating_add (stake_treasury l) (ref_deposit r')) l)) 0 0 0"
proof -
  let ?l = "set_gov_referendum i r' l"
  note s = sound_clear_escrow [OF assms]
  have eq: "account addr ?l = account addr l" "stake_treasury ?l = stake_treasury l"
    by (simp_all add: set_gov_referendum_def stake_treasury_def)
  show "sound (set_gov_referendum i r' (set_account addr ((account addr l)\<lparr>account_balance :=
      saturating_add (account_balance (account addr l)) (ref_deposit r')\<rparr>) l)) 0 0 0"
    using sound_credit [OF s order_refl, of addr] by (auto simp: eq intro: sound_store [OF conclude_store(1)])
  show "sound (set_gov_referendum i r' (set_stake_treasury (saturating_add (stake_treasury l) (ref_deposit r')) l)) 0 0 0"
    using sound_credit_treasury [OF s order_refl] by (auto simp: eq intro: sound_store [OF conclude_store(2)])
qed

lemma resolveE:
  assumes "resolve now e r = (s, r')" and "ref_status r = Deciding" and "s \<noteq> Deciding"
  shows "ref_deposit r' = ref_deposit r" and "ref_status r' = s" and "ref_proposer r' = ref_proposer r"
  using assms by (auto simp: resolve_def Let_def split: if_splits)

lemma gov_conclude_sound:
  assumes "gov_conclude i now l = (s, l')" and "sound l 0 0 0"
  shows "sound l' 0 0 0"
proof (cases "gov_referendum i l")
  case (Some r)
  define e where "e = (ucast (max (case gov_electorate i l of Some e \<Rightarrow> e | None \<Rightarrow> matured_total_staked l)
    (matured_total_staked l)) :: u128)"
  obtain t r' where res: "resolve now e r = (t, r')" by fastforce
  show ?thesis
  proof (cases "ref_status r = Deciding \<and> t \<noteq> Deciding")
    case True
    then have r: "ref_status r = Deciding" "ref_deposit r' = ref_deposit r" "ref_status r' \<noteq> Deciding"
      using resolveE [OF res] by auto
    note refund = sound_refund [OF assms(2) Some r]
    have "l' = record_side_event (GovTally i (status_kind t) (aye_stake (ref_tally r')) (nay_stake (ref_tally r')))
      (set_gov_referendum i r' (if deposit_refunded r' e
        then (case id_bytes_to_address (ref_proposer r') of
                Some addr \<Rightarrow> set_account addr ((account addr l)\<lparr>account_balance :=
                  saturating_add (account_balance (account addr l)) (ref_deposit r')\<rparr>) l
              | None \<Rightarrow> set_stake_treasury (saturating_add (stake_treasury l) (ref_deposit r')) l)
        else set_stake_treasury (saturating_add (stake_treasury l) (ref_deposit r')) l))"
      using assms(1) Some True res
      by (auto simp: gov_conclude_def Let_def e_def [symmetric] cong: option.case_cong)
    then show ?thesis
      by (auto simp: refund split: option.split)
  next
    case False
    with assms Some res show ?thesis
      by (auto simp: gov_conclude_def Let_def e_def [symmetric] split: if_splits)
  qed
qed (use assms in \<open>auto simp: gov_conclude_def\<close>)

lemma gov_release_sound:
  assumes "gov_release voter now l = (x, l')" and "sound l 0 0 0"
  shows "sound l' 0 0 0"
proof -
  have "sound (let l1 = set_gov_total_locked y (clear_gov_lock i l); a = account voter l1 in
      set_account voter (a\<lparr>account_balance := saturating_add (account_balance a) (lock_amount k)\<rparr>) l1) 0 0 0"
    if k: "gov_lock i l = Some k" for i k y
  proof -
    let ?l = "set_gov_total_locked y (clear_gov_lock i l)"
    have "sound ?l (unat (lock_amount k)) 0 0"
      using sound_clear_lock [OF assms(2), of i] k
      by (simp add: set_gov_total_locked_def neutral_def locked_amount_def)
    from sound_credit [OF this order_refl] show ?thesis
      by (simp add: Let_def)
  qed
  then show ?thesis
    using assms by (auto simp: gov_release_def Let_def split: option.splits if_splits)
qed

section \<open>Actions\<close>

lemma sound_set_supply:
  assumes "sound l k m n" and "k' + unat (total_supply l) = k + unat x"
  shows "sound (set_total_supply x l) k' m n"
  using assms holdings_set_supply [of x l]
  by (auto simp: sound_def balanced_def set_total_supply_def staked_write_other total_staked_def
      total_supply_def books_open_def)

lemma mint_native_sound:
  assumes "mint_native to amount now l = Inr l'" and "sound l 0 0 0"
  shows "sound l' 0 0 0"
proof -
  have "sound (set_total_supply tot (set_account addr ((account addr l)\<lparr>account_balance := b\<rparr>) l)) 0 0 0"
    if tot: "checked_add (total_supply l) amount = Some tot"
      and b: "checked_add (account_balance (account addr l)) amount = Some b" for addr tot b
  proof -
    let ?l = "set_account addr ((account addr l)\<lparr>account_balance := b\<rparr>) l"
    have "sound (set_total_supply tot l) (unat amount) 0 0"
      by (rule sound_set_supply [OF assms(2)]) (use tot in \<open>simp add: checked_add_Some_iff\<close>)
    then have "sound (set_account addr ((account addr l)\<lparr>account_balance := b\<rparr>) (set_total_supply tot l)) 0 0 0"
      by (rule sound_set_account) (use b in \<open>simp add: checked_add_Some_iff set_total_supply_def\<close>)
    moreover have "store (set_account addr ((account addr l)\<lparr>account_balance := b\<rparr>) (set_total_supply tot l)) =
        store (set_total_supply tot ?l)"
      by (rule fmap_ext) (auto simp: set_total_supply_def set_account_def)
    ultimately show ?thesis
      by (rule sound_store [rotated])
  qed
  then show ?thesis
    using assms
    by (auto simp: mint_native_def Let_def plain_writes neutral_def split: option.splits)
qed

lemma spend_sound:
  assumes "spend H source to amount l = Inr l'" and "sound l 0 0 0"
  shows "sound l' 0 0 0"
proof -
  have credit: "sound (set_account a ((account a l1)\<lparr>account_balance :=
      saturating_add (account_balance (account a l1)) amount\<rparr>) l1) 0 0 0"
    if "sound l1 (unat amount) 0 0" for a l1
    using sound_credit [OF that order_refl] by simp
  have grants: "sound (set_account g ((account g l)\<lparr>account_balance :=
      account_balance (account g l) - amount\<rparr>) l) (unat amount) 0 0"
    if "\<not> account_balance (account g l) < amount" for g
    using sound_debit [OF assms(2) that] by simp
  have treasury: "sound (set_stake_treasury (stake_treasury l - amount) l) (unat amount) 0 0"
    if "\<not> stake_treasury l < amount"
    by (rule sound_set_treasury [OF assms(2)]) (use that in \<open>simp add: unat_sub not_less word_le_nat_alt\<close>)
  show ?thesis
    using assms(1)
    by (auto simp: spend_def Let_def intro!: credit grants treasury split: option.splits if_splits)
qed

lemma saturating_add_0 [simp]: "saturating_add (x :: u64) 0 = x"
  using u64_less [of x] by (simp add: saturating_add_def checked_add_def)

lemma sound_take_bond:
  assumes "sound l k 0 0" and "stake_bond i l = Some b" and "x \<le> bond_amount b"
  shows "sound (credit_if addr (bond_amount b - x) (debit_staked (bond_amount b) (clear_stake_bond i l)))
    (k + unat x) 0 0"
proof -
  let ?l1 = "debit_staked (bond_amount b) (clear_stake_bond i l)"
  have amt: "bonded_amount i l = bond_amount b"
    using assms(2) by (simp add: bonded_amount_def)
  have le: "unat (bond_amount b) \<le> unat (total_staked l)"
    using assms(1) fm_sum_ge [of bond_value "store l" "StakeBond i"]
    by (simp add: sound_def bond_at amt staked_sum_def)
  have "sound (clear_stake_bond i l) (k + unat (bond_amount b)) (unat (bond_amount b)) 0"
    using sound_clear_bond [OF assms(1), of i] by (simp add: amt)
  then have "sound ?l1 (k + unat (bond_amount b)) (unat (bond_amount b)) (0 + unat (bond_amount b))"
    by (rule sound_debit_staked) (use le in \<open>simp add: total_staked_def clear_stake_bond_def\<close>)
  then have "sound ?l1 (k + unat (bond_amount b)) 0 0"
    by (rule sound_settled) simp
  from sound_credit_if [OF this, of "bond_amount b - x" addr] assms(3)
  show ?thesis
    by (simp add: unat_sub word_le_nat_alt)
qed

lemma seize_bond_sound:
  assumes "seize_bond i addr rest taken l = (taken', l')" and "sound l k 0 0"
  obtains x where "sound l' (k + unat x) 0 0" "taken' = saturating_add taken x" "x \<le> rest"
proof (cases "stake_bond i l")
  case None
  with assms that [of 0] show thesis by (simp add: seize_bond_def)
next
  case (Some b)
  show thesis
  proof (cases "0 < min (bond_amount b) rest")
    case True
    have "sound l' (k + unat (min (bond_amount b) rest)) 0 0"
      using assms Some True sound_take_bond [OF assms(2) Some, of "min (bond_amount b) rest" addr]
      by (auto simp: seize_bond_def Let_def simp del: min_less_iff_conj)
    moreover have "taken' = saturating_add taken (min (bond_amount b) rest)"
      using assms(1) Some True by (auto simp: seize_bond_def Let_def simp del: min_less_iff_conj)
    ultimately show thesis
      by (rule that) simp
  next
    case False
    with assms Some that [of 0] show thesis
      by (simp add: seize_bond_def Let_def del: min_less_iff_conj)
  qed
qed

lemma sound_flow:
  assumes "sound l (k + unat (x :: u64)) m n"
  shows "k + unat x < 2 ^ 64"
  using sound_bound [OF assms, of "Single Supply"] u64_less [of "total_supply l"] by linarith

lemma flow_add:
  assumes "sound l (k + unat x + unat y) m n"
  shows "unat (saturating_add x (y :: u64)) = unat x + unat y"
  using sound_flow [OF assms] by (intro saturating_exact) linarith

lemma seize_bond_flow:
  assumes "seize_bond i addr rest taken l = (taken', l')" and "sound l (k + unat taken) 0 0"
  shows "sound l' (k + unat taken') 0 0"
proof -
  obtain x where x: "sound l' (k + unat taken + unat x) 0 0" "taken' = saturating_add taken x"
    using seize_bond_sound [OF assms] .
  then show ?thesis
    using flow_add [OF x(1)] by (simp add: add.assoc)
qed

lemma sound_take_lock:
  assumes "sound l k 0 0" and "gov_lock i l = Some b" and "x \<le> lock_amount b"
  shows "sound (if lock_amount b - x = 0 then clear_gov_lock i l
    else set_gov_lock i (b\<lparr>lock_amount := lock_amount b - x\<rparr>) l) (k + unat x) 0 0"
proof -
  have amt: "locked_amount i l = lock_amount b"
    using assms(2) by (simp add: locked_amount_def)
  have le: "unat x \<le> unat (lock_amount b)"
    using assms(3) by (simp add: word_le_nat_alt)
  show ?thesis
  proof (cases "lock_amount b - x = 0")
    case True
    with sound_clear_lock [OF assms(1), of i] show ?thesis
      by (simp add: amt)
  next
    case False
    have "sound (set_gov_lock i (b\<lparr>lock_amount := lock_amount b - x\<rparr>) l) (k + unat x) 0 0"
      by (rule sound_set_lock [OF assms(1)]) (use le assms(3) in \<open>simp add: amt unat_sub\<close>)
    with False show ?thesis by simp
  qed
qed

lemma seize_lock_flow:
  assumes "seize_lock i still taken l = (taken', l')" and "sound l (k + unat taken) 0 0"
  shows "sound l' (k + unat taken') 0 0"
proof (cases "gov_lock i l")
  case None
  with assms show ?thesis by (simp add: seize_lock_def)
next
  case (Some b)
  let ?x = "min (lock_amount b) still"
  let ?l1 = "if lock_amount b - ?x = 0 then clear_gov_lock i l
    else set_gov_lock i (b\<lparr>lock_amount := lock_amount b - ?x\<rparr>) l"
  show ?thesis
  proof (cases "0 < ?x")
    case True
    have s: "sound ?l1 (k + unat taken + unat ?x) 0 0"
      by (rule sound_take_lock [OF assms(2) Some]) simp
    have "l' = set_gov_total_locked (saturating_sub (gov_total_locked ?l1) (ucast ?x)) ?l1"
      "taken' = saturating_add taken ?x"
      using assms(1) Some True by (auto simp: seize_lock_def Let_def simp del: min_less_iff_conj)
    with s flow_add [OF s] show ?thesis
      by (simp add: set_gov_total_locked_def neutral_def add.assoc)
  next
    case False
    with assms Some show ?thesis
      by (simp add: seize_lock_def Let_def del: min_less_iff_conj)
  qed
qed

lemma seize_frozen_flow:
  assumes "seize_frozen i addr amount rest taken l = (taken', l')" and "sound l (k + unat taken) 0 0"
  shows "sound l' (k + unat taken') 0 0"
  using assms
  by (auto simp: seize_frozen_def Let_def split: if_splits prod.splits dest: seize_bond_flow seize_lock_flow
      intro: seize_lock_flow [OF _ seize_bond_flow])

lemma seize_flow:
  assumes "seize victim scope z (recovered, l) = (recovered', l')" and "sound l (unat recovered) 0 0"
  shows "sound l' (unat recovered') 0 0"
proof (cases "id_bytes_to_address (seizure_from z)")
  case None
  with assms show ?thesis by (simp add: seize_def)
next
  case (Some addr)
  define a where "a = account addr l"
  define taken where "taken = min (account_balance a) (seizure_amount z)"
  define l1 where "l1 = set_account addr (a\<lparr>account_balance := account_balance a - taken\<rparr>) l"
  obtain t l2 where t: "(t, l2) = (if 0 < seizure_amount z - taken
      then (case id_from_slice (seizure_from z) of
              None \<Rightarrow> (taken, l1)
            | Some i \<Rightarrow> seize_frozen i addr (seizure_amount z) (seizure_amount z - taken) taken l1)
      else (taken, l1))"
    by (metis surj_pair)
  have "seize victim scope z (recovered, l) =
      (saturating_add recovered t, record_side_event (RecoverySeizure victim addr t scope) l2)"
    by (simp only: seize_def Let_def prod.case Some option.case a_def [symmetric] taken_def [symmetric]
        l1_def [symmetric] t [symmetric])
  with assms(1) have out: "recovered' = saturating_add recovered t" "sound l' k m n \<longleftrightarrow> sound l2 k m n" for k m n
    by auto
  have "taken \<le> account_balance a"
    by (simp add: taken_def)
  then have "sound l1 (unat recovered + unat taken) 0 0"
    unfolding l1_def a_def by (intro sound_debit assms(2)) (simp add: a_def not_less)
  with t have s: "sound l2 (unat recovered + unat t) 0 0"
    by (auto split: if_splits option.splits intro: seize_frozen_flow [OF sym])
  then show ?thesis
    using flow_add [of l2 0 recovered t] by (simp add: out)
qed

lemma seize_all_flow:
  "seize_all victim scope zs (recovered, l) = (recovered', l') \<Longrightarrow> sound l (unat recovered) 0 0 \<Longrightarrow>
   sound l' (unat recovered') 0 0"
proof (induction zs arbitrary: recovered l)
  case (Cons z zs)
  obtain r1 l1 where z: "seize victim scope z (recovered, l) = (r1, l1)"
    by fastforce
  with Cons.prems Cons.IH [of r1 l1] seize_flow [OF z] show ?case
    by simp
qed simp

lemma recover_sound:
  assumes "recover scope victim zs l = Inr l'" and "sound l 0 0 0"
  shows "sound l' 0 0 0"
proof -
  obtain addr x l1 where s: "seize_all addr scope zs (0, l) = (x, l1)"
    and l': "l' = guardian_freeze_forget (List.map_filter (\<lambda>z. id_from_slice (seizure_from z)) zs)
      (record_side_event (RecoveryCredit addr x scope) (set_account addr ((account addr l1)\<lparr>account_balance :=
        saturating_add (account_balance (account addr l1)) x\<rparr>) l1))"
    using assms(1) by (auto simp: recover_def Let_def split: option.splits prod.splits)
  have "sound l1 (unat x) 0 0"
    using seize_all_flow [OF s] assms(2) by simp
  from sound_credit [OF this order_refl, of addr] show ?thesis
    by (simp add: l' plain_writes neutral_def)
qed

section \<open>The freeze bond\<close>

text \<open>The bond of a freeze lies in the bond pot until the freeze is lifted.\<close>

definition bond_kept :: "hash \<Rightarrow> ledger \<Rightarrow> bool" where
  "bond_kept H l \<longleftrightarrow>
     (case bridge_freeze l of
        None \<Rightarrow> True
      | Some r \<Rightarrow> length (freeze_who r) = 32 \<and> freeze_bond r \<le> balance (bridge_bond_address H) l)"

lemma lift_bridge_freeze_sound:
  assumes "sound l 0 0 0" and "bond_kept H l"
  shows "sound (lift_bridge_freeze H now outcome l) 0 0 0"
proof (cases "bridge_freeze l")
  case (Some r)
  let ?pot = "bridge_bond_address H"
  let ?l1 = "set_account ?pot ((account ?pot l)\<lparr>account_balance :=
    saturating_sub (account_balance (account ?pot l)) (freeze_bond r)\<rparr>) l"
  have "freeze_bond r \<le> account_balance (account ?pot l)"
    using assms(2) Some by (simp add: bond_kept_def balance_def)
  then have s: "sound ?l1 (unat (freeze_bond r)) 0 0"
    using sound_debit [OF assms(1), of ?pot "freeze_bond r"] by (simp add: saturating_sub_def not_less)
  obtain who where who: "id_bytes_to_address (freeze_who r) = Some who"
    using assms(2) Some id_bytes_to_address_total [of "freeze_who r"] by (auto simp: bond_kept_def)
  from sound_credit [OF s order_refl, of who] sound_credit_treasury [OF s order_refl]
  show ?thesis
    by (cases outcome) (simp_all add: lift_bridge_freeze_def Some Let_def who plain_writes neutral_def)
qed (use assms in \<open>simp add: lift_bridge_freeze_def\<close>)

lemma bridge_freeze_with_fee_sound:
  assumes "bridge_freeze_with_fee H caller fee now l = Some (r, l')" and "sound l 0 0 0"
  shows "sound l' 0 0 0"
proof -
  have "sound (let pot = account (bridge_bond_address H) l1 in
      set_account (bridge_bond_address H)
        (pot\<lparr>account_balance := saturating_add (account_balance pot) BRIDGE_FREEZE_BOND\<rparr>) l1) 0 0 0"
    if pay: "pay H caller debit fee l = Some l1" and debit: "checked_add fee BRIDGE_FREEZE_BOND = Some debit"
      and guard: "\<not> account_balance (account caller l) < debit" for l1 debit
  proof -
    have d: "unat debit = unat fee + unat BRIDGE_FREEZE_BOND"
      using debit by (simp add: checked_add_Some_iff)
    have "sound l1 (unat BRIDGE_FREEZE_BOND) 0 0"
      using sound_pay [OF pay assms(2) guard] d by (simp add: word_le_nat_alt)
    from sound_credit [OF this order_refl] show ?thesis
      by (simp add: Let_def)
  qed
  then show ?thesis
    using assms
    by (auto simp: bridge_freeze_with_fee_def Let_def set_bridge_freeze_def neutral_def
        split: option.splits if_splits bind_splits)
qed

lemma sound_stop_each:
  assumes "\<And>i l. sound (change i l) k m n \<longleftrightarrow> sound l k m n"
  shows "sound (stop_each change event targets l) k m n \<longleftrightarrow> sound l k m n"
proof -
  let ?f = "\<lambda>x l. case id_from_slice x of
      None \<Rightarrow> l
    | Some i \<Rightarrow> let l = change i l in
        (case id_bytes_to_address i of Some addr \<Rightarrow> record_side_event (event addr) l | None \<Rightarrow> l)"
  have "sound (fold ?f targets l) k m n \<longleftrightarrow> sound l k m n"
    by (induction targets arbitrary: l) (simp_all add: Let_def assms split: option.split)
  then show ?thesis
    by (simp add: stop_each_def plain_writes neutral_def)
qed

lemma sound_frozen [simp]:
  "sound (set_frozen H i l) k m n \<longleftrightarrow> sound l k m n" "sound (clear_frozen H i l) k m n \<longleftrightarrow> sound l k m n"
  "sound (set_gov_blacklisted H i l) k m n \<longleftrightarrow> sound l k m n"
  by (simp_all add: plain_writes neutral_def Let_def)

lemma sound_migrate_each [simp]: "sound (migrate_each u v as l) k m n \<longleftrightarrow> sound l k m n"
  by (induction as arbitrary: l) (simp_all add: Let_def set_bridge_vault_custody_def neutral_def)

lemma apply_parameter_sound:
  "apply_parameter key val now l = Some (Inr l') \<Longrightarrow> sound l' k m n \<longleftrightarrow> sound l k m n"
  by (auto simp: apply_parameter_def Let_def plain_writes neutral_def split: if_splits option.splits bind_splits)

lemma execute_action_sound:
  assumes "execute_action H S act now chain l = Some (Inr l')" and "sound l 0 0 0" and "bond_kept H l"
  shows "sound l' 0 0 0"
proof (cases act)
  case (Act_Mint to amount)
  with assms mint_native_sound show ?thesis by (auto simp: execute_action_def)
next
  case (Spend source to amount)
  with assms spend_sound show ?thesis by (auto simp: execute_action_def)
next
  case (Act_FreezeRecovery scope victim zs)
  with assms recover_sound show ?thesis by (auto simp: execute_action_def)
next
  case BridgeUnfreeze
  with assms lift_bridge_freeze_sound [OF assms(2,3)] show ?thesis
    by (auto simp: execute_action_def gov_unfreeze_bridge_def split: if_splits)
next
  case (Parameter key val)
  with assms show ?thesis
    by (auto simp: execute_action_def dest: apply_parameter_sound split: bind_splits sum.splits)
qed (use assms in \<open>auto simp: execute_action_def sound_stop_each migrate_bridge_def rotate_committee_def
    plain_writes neutral_def Let_def split: if_splits option.splits prod.splits bool.splits\<close>)

end
