(* ===== verification/LedgerInvariant.thy ===== *)
theory LedgerInvariant
  imports Conservation
begin

text \<open>
  The invariant of the ledger as a whole and the steps that keep it.  Beside the conservation of
  native value it says that the governance locks add up to the recorded total, that no referendum
  number ahead of the counter holds a deposit, that the bond of a bridge freeze lies in its pot, and
  that every bridged asset is backed.
\<close>

section \<open>What an operation leaves alone\<close>

fun bridge_leaf :: "leaf \<Rightarrow> bool" where
  "bridge_leaf (BridgeAsset _) \<longleftrightarrow> True"
| "bridge_leaf (BridgeBalance _ _) \<longleftrightarrow> True"
| "bridge_leaf (BridgeOutstanding _) \<longleftrightarrow> True"
| "bridge_leaf (VaultCustody _ _) \<longleftrightarrow> True"
| "bridge_leaf (BridgeSeen _ _) \<longleftrightarrow> True"
| "bridge_leaf (BridgeExitSeen _) \<longleftrightarrow> True"
| "bridge_leaf (Single s) \<longleftrightarrow> s = BridgeVault \<or> s = BridgeAssetList"
| "bridge_leaf _ \<longleftrightarrow> False"

fun gov_leaf :: "leaf \<Rightarrow> bool" where
  "gov_leaf (GovLock _) \<longleftrightarrow> True"
| "gov_leaf (GovRef _) \<longleftrightarrow> True"
| "gov_leaf (GovAction _) \<longleftrightarrow> True"
| "gov_leaf (Single s) \<longleftrightarrow> s = GovLocked \<or> s = GovNext"
| "gov_leaf _ \<longleftrightarrow> False"

definition watched :: "bool \<Rightarrow> bool \<Rightarrow> leaf \<Rightarrow> bool" where
  "watched b g k \<longleftrightarrow> k = Single BridgeFreeze \<or> b \<and> bridge_leaf k \<or> g \<and> gov_leaf k"

text \<open>
  \<open>keeps p b g l l'\<close>: between \<open>l\<close> and \<open>l'\<close> the freeze record stands, so do the bridge leaves (with \<open>b\<close>) and
  the governance leaves (with \<open>g\<close>), and the account \<open>p\<close> has not become poorer.
\<close>

definition keeps :: "bytes \<Rightarrow> bool \<Rightarrow> bool \<Rightarrow> ledger \<Rightarrow> ledger \<Rightarrow> bool" where
  "keeps p b g l l' \<longleftrightarrow>
     (\<forall>k. watched b g k \<longrightarrow> peek l' k = peek l k) \<and> balance p l \<le> balance p l'"

lemma keeps_refl [simp, intro]: "keeps p b g l l"
  by (simp add: keeps_def)

lemma keeps_trans: "keeps p b g l l' \<Longrightarrow> keeps p b g l' l'' \<Longrightarrow> keeps p b g l l''"
  by (auto simp: keeps_def)

lemma watched_account [simp]: "\<not> watched b g (state_leaf a)" "\<not> watched b g (Single Supply)"
  by (simp_all add: watched_def state_leaf_def split: sum.split)

lemma balance_write: "\<not> is_acct k \<Longrightarrow> balance p (write_leaf k v l) = balance p l"
  by (auto simp: balance_def account_def)

lemma keeps_write:
  assumes "keeps p b g l l'" and "\<not> watched b g k" and "\<not> is_acct k"
  shows "keeps p b g l (write_leaf k v l')"
  using assms by (auto simp: keeps_def balance_write)

lemma keeps_erase:
  assumes "keeps p b g l l'" and "\<not> watched b g k" and "\<not> is_acct k"
  shows "keeps p b g l (snd (erase_leaf k l'))"
proof -
  have "balance p (snd (erase_leaf k l')) = balance p l'"
    using assms(3) by (auto simp: balance_def account_def)
  with assms show ?thesis
    by (auto simp: keeps_def)
qed

lemma keeps_events [simp]:
  "keeps p b g l (record_side_event e l') \<longleftrightarrow> keeps p b g l l'"
  "keeps p b g l (record_native_event k d l') \<longleftrightarrow> keeps p b g l l'"
  by (simp_all add: keeps_def balance_def account_def)

lemma balance_set:
  "balance p (set_account a x l) = (if state_leaf a = state_leaf p then account_balance x else balance p l)"
  by (simp add: balance_def account_def set_account_def)

lemma keeps_account:
  assumes "keeps p b g l l'" and "state_leaf a = state_leaf p \<Longrightarrow> balance p l' \<le> account_balance x"
  shows "keeps p b g l (set_account a x l')"
proof -
  have "balance p l' \<le> balance p (set_account a x l')"
    using assms(2) by (simp add: balance_set)
  moreover have "peek (set_account a x l') k = peek l' k" if "watched b g k" for k
    using that by (auto simp: set_account_def)
  ultimately show ?thesis
    using assms(1) by (auto simp: keeps_def)
qed

lemma le_saturating_add: "x \<le> saturating_add x (y :: u64)"
  using u64_bound [of x] by (simp add: word_nat)

lemma keeps_credit:
  assumes "keeps p b g l l'"
  shows "keeps p b g l (set_account a ((account a l')\<lparr>account_balance :=
    saturating_add (account_balance (account a l')) x\<rparr>) l')"
  by (rule keeps_account [OF assms]) (simp add: balance_def account_def le_saturating_add)

lemma keeps_debit:
  assumes "keeps p b g l l'" and "state_leaf a \<noteq> state_leaf p"
  shows "keeps p b g l (set_account a x l')"
  by (rule keeps_account [OF assms(1)]) (use assms(2) in simp)

lemma keeps_supply: "keeps p b g l l' \<Longrightarrow> keeps p b g l (set_total_supply x l')"
  unfolding set_total_supply_def by (rule keeps_write) simp_all

lemma keeps_credit_account: "keeps p b g l l' \<Longrightarrow> keeps p b g l (credit_account a x l')"
  by (auto simp: credit_account_def Let_def balance_def intro!: keeps_credit)

lemma keeps_debit_supply: "keeps p b g l l' \<Longrightarrow> keeps p b g l (debit_supply x l')"
  by (auto simp: debit_supply_def intro!: keeps_supply)

lemma keeps_credit_supply: "keeps p b g l l' \<Longrightarrow> keeps p b g l (credit_supply x l')"
  by (auto simp: credit_supply_def intro!: keeps_supply)

lemma keeps_fee: "keeps p b g l l' \<Longrightarrow> collect_fee H fee l' = Some l'' \<Longrightarrow> keeps p b g l l''"
  by (auto simp: collect_fee_def apply_fee_split_def Let_def
      intro!: keeps_debit_supply keeps_credit_account split: if_splits bind_splits option.splits)

lemma keeps_pay:
  assumes "pay H a debit fee l = Some l'" and "state_leaf a \<noteq> state_leaf p"
  shows "keeps p b g l l'"
  using assms by (auto simp: pay_def Let_def intro!: keeps_debit elim!: keeps_fee [rotated] split: bind_splits)

section \<open>Staking keeps bridge and governance\<close>

lemmas stake_writes = set_stake_bond_def clear_stake_bond_def set_stake_banned_def set_stake_pool_def
  set_stake_treasury_def set_total_staked_def set_total_staked_active_def set_total_staked_raised_at_def
  set_stake_rewards_def clear_stake_rewards_def set_session_meter_def

lemma unwatched [simp]:
  "\<not> watched b g (StakeBond i)" "\<not> watched b g (StakeRewards i)" "\<not> watched b g (StakeBanned i)"
  "\<not> watched b g (StakePayee i)" "\<not> watched b g (Single StakePool)" "\<not> watched b g (Single StakeTreasury)"
  "\<not> watched b g (Single StakeTotal)" "\<not> watched b g (Single StakeTotalActive)"
  "\<not> watched b g (Single StakeTotalRaised)" "\<not> watched b g (Single StakeMeter)"
  by (simp_all add: watched_def)

lemma keeps_staked:
  "keeps p b g l l' \<Longrightarrow> keeps p b g l (credit_staked x l')"
  "keeps p b g l l' \<Longrightarrow> keeps p b g l (debit_staked x l')"
  by (auto simp: credit_staked_def debit_staked_def Let_def stake_writes intro!: keeps_write)

lemma keeps_credit_if: "keeps p b g l l' \<Longrightarrow> keeps p b g l (credit_if a x l')"
  by (auto simp: credit_if_def intro!: keeps_credit)

lemmas keeps_intros = keeps_write keeps_staked keeps_credit keeps_credit_if keeps_debit_supply
  keeps_credit_supply

lemma bond_keeps:
  assumes "bond a x day l = (r, l')" and "state_leaf a \<noteq> state_leaf p"
  shows "keeps p b g l l'"
  using assms
  by (auto simp: bond_def Let_def stake_writes intro!: keeps_intros keeps_debit split: option.splits if_splits)

lemma bond_with_fee_keeps:
  assumes "bond_with_fee H a x fee day l = Some (r, l')" and "state_leaf a \<noteq> state_leaf p"
  shows "keeps p b g l l'"
  using assms
  by (auto simp: bond_with_fee_def Let_def stake_writes event_defs intro!: keeps_intros
      elim!: keeps_pay split: option.splits if_splits bind_splits)

lemma claim_reward_keeps: "claim_reward a day l = Some (r, l') \<Longrightarrow> keeps p b g l l'"
  by (auto simp: claim_reward_def Let_def stake_writes intro!: keeps_intros
      split: option.splits if_splits bind_splits prod.splits)

lemma claim_with_fee_keeps:
  assumes "claim_with_fee H a fee day l = Some (r, l')" and "state_leaf a \<noteq> state_leaf p"
  shows "keeps p b g l l'"
  using assms
  by (auto simp: claim_with_fee_def Let_def split: if_splits bind_splits prod.splits
      elim!: keeps_trans [OF keeps_pay claim_reward_keeps])

lemma slash_validator_keeps: "slash_validator a l = Some (r, l') \<Longrightarrow> keeps p b g l l'"
  by (auto simp: slash_validator_def Let_def stake_writes event_defs intro!: keeps_intros
      split: option.splits if_splits bind_splits)

lemma slash_stake_keeps: "slash_stake a f l = Some (r, l') \<Longrightarrow> keeps p b g l l'"
  by (auto simp: slash_stake_def Let_def stake_writes event_defs intro!: keeps_intros
      split: option.splits if_splits bind_splits)

lemma request_stake_exit_keeps: "request_stake_exit a day l = (r, l') \<Longrightarrow> keeps p b g l l'"
  by (auto simp: request_stake_exit_def Let_def stake_writes intro!: keeps_intros
      split: option.splits if_splits prod.splits bool.splits)

lemma request_exit_with_fee_keeps:
  assumes "request_exit_with_fee H a fee day l = Some (r, l')" and "state_leaf a \<noteq> state_leaf p"
  shows "keeps p b g l l'"
  using assms
  by (auto simp: request_exit_with_fee_def split: option.splits if_splits bind_splits
      intro: keeps_trans [OF keeps_pay request_stake_exit_keeps])

lemma designate_keeps:
  assumes "designate_stake_payee_with_fee H a payee fee l = Some (r, l')" and "state_leaf a \<noteq> state_leaf p"
  shows "keeps p b g l l'"
  using assms
  by (auto simp: designate_stake_payee_with_fee_def split: option.splits if_splits bind_splits
      intro!: keeps_write elim!: keeps_pay)

lemma withdraw_stake_keeps: "withdraw_stake a day l = Some (r, l') \<Longrightarrow> keeps p b g l l'"
  by (auto simp: withdraw_stake_def Let_def stake_writes event_defs intro!: keeps_intros
      split: option.splits if_splits bind_splits)

lemma withdraw_with_fee_keeps:
  assumes "withdraw_with_fee H a fee day l = Some (r, l')" and "state_leaf a \<noteq> state_leaf p"
  shows "keeps p b g l l'"
  using assms
  by (auto simp: withdraw_with_fee_def split: option.splits if_splits bind_splits
      intro: keeps_trans [OF keeps_pay withdraw_stake_keeps])

lemma grant_reward_keeps: "keeps p b g l (grant_reward i day paid blocks book l)"
  by (auto simp: grant_reward_def Let_def stake_writes event_defs intro!: keeps_intros split: option.splits)

lemma accrue_keeps: "accrue_reward_by_id i day l = Some (r, l') \<Longrightarrow> keeps p b g l l'"
  by (auto simp: accrue_reward_by_id_def Let_def stake_writes grant_reward_keeps intro!: keeps_write
      split: option.splits if_splits bind_splits)

lemma accrue_each_keeps: "accrue_each is day l = Some l' \<Longrightarrow> keeps p b g l l'"
proof (induction "is" arbitrary: l)
  case (Cons i "is")
  then show ?case
    by (auto split: bind_splits intro: keeps_trans [OF accrue_keeps])
qed simp

lemma settle_session_keeps: "settle_session day n l = Some l' \<Longrightarrow> keeps p b g l l'"
proof -
  assume s: "settle_session day n l = Some l'"
  have rec: "keeps p b g l (snd (record_session n day l))"
    by (auto simp: record_session_def Let_def stake_writes intro!: keeps_write split: prod.split)
  show ?thesis
    using s rec
    by (auto simp: settle_session_def split: if_splits prod.splits bind_splits
        intro: keeps_trans [OF _ accrue_each_keeps])
qed

section \<open>The bridge keeps governance, governance keeps the bridge\<close>

lemma bridge_unwatched [simp]:
  "\<not> watched False g (BridgeAsset a)" "\<not> watched False g (BridgeBalance a h)"
  "\<not> watched False g (BridgeOutstanding r)" "\<not> watched False g (VaultCustody u a)"
  "\<not> watched False g (BridgeSeen c r)" "\<not> watched False g (BridgeExitSeen r)" "\<not> watched b g (BridgeEpochMint a e)"
  "\<not> watched b g (BridgeEpochPay a e)" "\<not> watched b g (BridgeEpochPayGlobal e)"
  by (simp_all add: watched_def)

lemma bridge_mint_keeps: "bridge_mint f l = (r, l') \<Longrightarrow> keeps p False g l l'"
  by (cases r) (auto elim!: bridge_mintE simp: bridge_setters intro!: keeps_write dest: bridge_mint_False)

lemma bridge_burn_keeps: "bridge_burn H c h x d ch n l = (r, l') \<Longrightarrow> keeps p False g l l'"
  by (cases r) (auto elim!: bridge_burnE simp: bridge_setters intro!: keeps_write dest: bridge_burn_False)

lemma bridge_settle_keeps: "bridge_settle f l = (r, l') \<Longrightarrow> keeps p False g l l'"
  by (cases r) (auto elim!: bridge_settleE simp: bridge_setters intro!: keeps_write keeps_erase
      dest: bridge_settle_False)

lemma bridge_slash_keeps: "bridge_slash f l = (r, l') \<Longrightarrow> keeps p False g l l'"
  by (cases r) (auto elim!: bridge_slashE simp: bridge_setters intro!: keeps_write keeps_erase
      dest: bridge_slash_False)

lemma gov_unwatched [simp]:
  "\<not> watched b False (GovLock i)" "\<not> watched b False (GovRef n)" "\<not> watched b False (Single GovLocked)"
  "\<not> watched b False (Single GovNext)" "\<not> watched b False (GovAction n)" "\<not> watched b g (GovElectorate n)"
  "\<not> watched b g (GovBallot n i)" "\<not> watched b g (GovReceipt n)" "\<not> watched b g (GovFreeze i)"
  "\<not> watched b g (GovBlacklist i)" "\<not> watched b g (GovStoppedAsset a)" "\<not> watched b g (GovMintPeriod n)"
  "\<not> watched b g (GovDeposit c)" "\<not> watched b g (FeatureGate f)"
  by (simp_all add: watched_def)

lemma single_unwatched:
  "s \<notin> {BridgeFreeze, BridgeVault, BridgeAssetList, GovLocked, GovNext} \<Longrightarrow> \<not> watched b g (Single s)"
  by (simp add: watched_def)

lemmas gov_writes = plain_writes set_gov_referendum_def set_gov_lock_def clear_gov_lock_def

lemma gov_propose_keeps:
  assumes "gov_propose a t act now l = Some (r, l')" and "state_leaf a \<noteq> state_leaf p"
  shows "keeps p b False l l'"
  using assms
  by (auto simp: gov_propose_def Let_def gov_writes intro!: keeps_write keeps_debit
      split: if_splits option.splits bind_splits)

lemma gov_vote_keeps:
  assumes "gov_vote a i aye conv stake now l = Some (r, l')" and "state_leaf a \<noteq> state_leaf p"
  shows "keeps p b False l l'"
  using assms
  by (auto simp: gov_vote_def Let_def gov_writes intro!: keeps_write keeps_debit
      split: if_splits option.splits bind_splits)

lemma gov_conclude_keeps: "gov_conclude i now l = (r, l') \<Longrightarrow> keeps p b False l l'"
  by (auto simp: gov_conclude_def Let_def gov_writes stake_writes intro!: keeps_write keeps_credit
      split: if_splits option.splits prod.splits)

lemma gov_release_keeps: "gov_release a now l = (r, l') \<Longrightarrow> keeps p b False l l'"
  by (auto simp: gov_release_def Let_def gov_writes intro!: keeps_write keeps_credit simp del: account_other
      split: if_splits option.splits)

lemma set_frozen_keeps:
  "keeps p b g l l' \<Longrightarrow> keeps p b g l (set_frozen H i l')"
  "keeps p b g l l' \<Longrightarrow> keeps p b g l (clear_frozen H i l')"
  "keeps p b g l l' \<Longrightarrow> keeps p b g l (set_gov_blacklisted H i l')"
  by (auto simp: set_frozen_def clear_frozen_def set_gov_blacklisted_def record_stopped_def
      forget_stopped_def Let_def intro!: keeps_write)

lemma forget_keeps: "keeps p b g l l' \<Longrightarrow> keeps p b g l (guardian_freeze_forget ts l')"
  by (auto simp: guardian_freeze_forget_def write_guardian_freeze_entries_def single_unwatched intro!: keeps_write)

lemma stop_each_keeps:
  assumes "\<And>i l l'. keeps p b g l l' \<Longrightarrow> keeps p b g l (change i l')"
  shows "keeps p b g l (stop_each change event ts l)"
proof -
  let ?f = "\<lambda>x l. case id_from_slice x of
      None \<Rightarrow> l
    | Some i \<Rightarrow> let l = change i l in
        (case id_bytes_to_address i of Some addr \<Rightarrow> record_side_event (event addr) l | None \<Rightarrow> l)"
  have "keeps p b g l l' \<Longrightarrow> keeps p b g l (fold ?f ts l')" for l'
    by (induction ts arbitrary: l') (simp_all add: Let_def assms split: option.split)
  then show ?thesis
    by (auto simp: stop_each_def intro!: forget_keeps)
qed

lemma seize_bond_keeps: "seize_bond i a rest t l = (t', l') \<Longrightarrow> keeps p b g l l'"
  by (auto simp: seize_bond_def Let_def stake_writes intro!: keeps_intros split: option.splits if_splits)

lemma seize_lock_keeps: "seize_lock i still t l = (t', l') \<Longrightarrow> keeps p b False l l'"
  by (auto simp: seize_lock_def Let_def gov_writes intro!: keeps_write split: option.splits if_splits)

lemma seize_frozen_keeps: "seize_frozen i a x rest t l = (t', l') \<Longrightarrow> keeps p b False l l'"
  by (auto simp: seize_frozen_def Let_def split: if_splits prod.splits
      intro: seize_bond_keeps keeps_trans [OF seize_bond_keeps seize_lock_keeps])

lemma seize_keeps:
  assumes "seize victim scope z (x, l) = (y, l')"
    and "\<And>a. id_bytes_to_address (seizure_from z) = Some a \<Longrightarrow> state_leaf a \<noteq> state_leaf p"
  shows "keeps p b False l l'"
proof (cases "id_bytes_to_address (seizure_from z)")
  case (Some a)
  then have a: "state_leaf a \<noteq> state_leaf p" by (rule assms(2))
  show ?thesis
    using assms(1) Some a
    by (auto simp: seize_def Let_def split: prod.splits if_splits option.splits
        intro!: keeps_debit intro: keeps_trans [OF keeps_debit [OF keeps_refl] seize_frozen_keeps])
qed (use assms in \<open>simp add: seize_def\<close>)

lemma seize_all_keeps:
  assumes "seize_all victim scope zs (x, l) = (y, l')"
    and "\<And>z a. z \<in> set zs \<Longrightarrow> id_bytes_to_address (seizure_from z) = Some a \<Longrightarrow> state_leaf a \<noteq> state_leaf p"
  shows "keeps p b False l l'"
  using assms
proof (induction zs arbitrary: x l)
  case (Cons z zs)
  obtain r1 l1 where z: "seize victim scope z (x, l) = (r1, l1)"
    by fastforce
  have "keeps p b False l l1"
    by (rule seize_keeps [OF z]) (use Cons.prems(2) in auto)
  moreover have "keeps p b False l1 l'"
    by (rule Cons.IH [of r1]) (use Cons.prems z in auto)
  ultimately show ?case
    by (rule keeps_trans)
qed simp

lemma recover_keeps:
  assumes "recover scope victim zs l = Inr l'"
    and "\<And>z a. z \<in> set zs \<Longrightarrow> id_bytes_to_address (seizure_from z) = Some a \<Longrightarrow> state_leaf a \<noteq> state_leaf p"
  shows "keeps p b False l l'"
  using assms
  by (auto simp: recover_def Let_def split: option.splits prod.splits
      intro!: forget_keeps keeps_credit elim!: seize_all_keeps)

lemma mint_native_keeps: "mint_native to x now l = Inr l' \<Longrightarrow> keeps p b g l l'"
  by (auto simp: mint_native_def Let_def gov_writes set_total_supply_def checked_add_Some_iff word_le_nat_alt
      balance_def account_def intro!: keeps_write keeps_account split: option.splits)

lemma spend_keeps:
  assumes "spend H source to x l = Inr l'" and "state_leaf (grants_address H) \<noteq> state_leaf p"
  shows "keeps p b g l l'"
proof -
  have treasury: "keeps p b g l (set_stake_treasury y l)" for y
    by (auto simp: set_stake_treasury_def intro!: keeps_write)
  show ?thesis
    using assms
    by (auto simp: spend_def Let_def intro!: keeps_credit keeps_debit [of p b g l l] treasury
        split: option.splits if_splits)
qed

lemma apply_parameter_keeps: "apply_parameter key val now l = Some (Inr l') \<Longrightarrow> keeps p b g l l'"
  by (auto simp: apply_parameter_def Let_def gov_writes single_unwatched intro!: keeps_write
      split: if_splits option.splits bind_splits)

lemma migrate_each_keeps: "keeps p False g l l' \<Longrightarrow> keeps p False g l (migrate_each u v as l')"
  by (induction as arbitrary: l') (simp_all add: Let_def set_bridge_vault_custody_def keeps_write)

section \<open>Locks and referendum numbers\<close>

definition lock_value :: "leaf \<Rightarrow> value \<Rightarrow> nat" where
  "lock_value k v =
     (case k of GovLock _ \<Rightarrow> (case as_lock v of Some x \<Rightarrow> unat (lock_amount x) | None \<Rightarrow> 0) | _ \<Rightarrow> 0)"

definition locked_sum :: "ledger \<Rightarrow> nat" where
  "locked_sum l = fm_sum lock_value (store l)"

definition gov_wf :: "ledger \<Rightarrow> bool" where
  "gov_wf l \<longleftrightarrow>
     locked_sum l = unat (gov_total_locked l) \<and> (\<forall>n. gov_next_id l \<le> n \<longrightarrow> escrow n l = 0)"

lemma fm_sum_cong: "(\<And>k. fm_at f m k = fm_at f m' k) \<Longrightarrow> fm_sum f m = fm_sum f m'"
  by (subst (1 2) fm_sum_over [of _ "fset (fmdom m) \<union> fset (fmdom m')"]) auto

lemma gov_wf_keeps:
  assumes "keeps p b True l l'"
  shows "gov_wf l' \<longleftrightarrow> gov_wf l"
proof -
  have peek: "peek l' k = peek l k" if "gov_leaf k" for k
    using assms that by (simp add: keeps_def watched_def)
  have "fm_at lock_value (store l') k = fm_at lock_value (store l) k" for k
    by (cases "gov_leaf k") (auto simp: fm_at_def peek lock_value_def split: option.splits leaf.splits)
  then have "locked_sum l' = locked_sum l"
    unfolding locked_sum_def by (rule fm_sum_cong)
  moreover have "gov_total_locked l' = gov_total_locked l" "gov_next_id l' = gov_next_id l" "escrow n l' = escrow n l" for n
    by (simp_all add: gov_total_locked_def gov_next_id_def escrow_def gov_referendum_def held_or_def held_def peek)
  ultimately show ?thesis
    by (simp add: gov_wf_def)
qed

lemma lock_at: "fm_at lock_value (store l) (GovLock i) = unat (locked_amount i l)"
  by (auto simp: fm_at_def lock_value_def locked_amount_def gov_lock_def held_def split: option.splits)

lemma locked_other: "(\<And>i. k \<noteq> GovLock i) \<Longrightarrow> locked_sum (write_leaf k v l) = locked_sum l"
  unfolding locked_sum_def store_write fm_sum_upd_eq
  by (subst fm_at_zero) (auto simp: lock_value_def split: leaf.splits)

lemma locked_set:
  "locked_sum (set_gov_lock i x l) = locked_sum l - unat (locked_amount i l) + unat (lock_amount x)"
  "locked_sum (clear_gov_lock i l) = locked_sum l - unat (locked_amount i l)"
  by (simp_all add: locked_sum_def set_gov_lock_def clear_gov_lock_def fm_sum_upd_eq lock_at)
    (simp_all add: lock_value_def)

lemma locked_ge: "unat (locked_amount i l) \<le> locked_sum l"
  using fm_sum_ge [of lock_value "store l" "GovLock i"] by (simp add: lock_at locked_sum_def)

lemma locked_events [simp]:
  "locked_sum (record_side_event e l) = locked_sum l" "locked_sum (record_native_event k d l) = locked_sum l"
  "gov_wf (record_side_event e l) \<longleftrightarrow> gov_wf l" "gov_wf (record_native_event k d l) \<longleftrightarrow> gov_wf l"
  by (simp_all add: locked_sum_def gov_wf_def gov_total_locked_def gov_next_id_def escrow_def gov_referendum_def)

lemma gov_wf_write: "\<not> gov_leaf k \<or> (\<exists>i. k = GovAction i) \<Longrightarrow> gov_wf (write_leaf k v l) \<longleftrightarrow> gov_wf l"
  by (cases k) (auto simp: gov_wf_def locked_other gov_total_locked_def gov_next_id_def escrow_def gov_referendum_def)

lemma gov_wf_account [simp]: "gov_wf (set_account a x l) \<longleftrightarrow> gov_wf l"
  by (simp add: set_account_def gov_wf_write state_leaf_def split: sum.split)

lemma gov_wf_referendum:
  assumes "gov_wf l" and "(if ref_status r = Deciding then unat (ref_deposit r) else 0) \<le> escrow i l"
  shows "gov_wf (set_gov_referendum i r l)"
  using assms
  by (auto simp: gov_wf_def set_gov_referendum_def locked_other gov_total_locked_def gov_next_id_def
      escrow_def gov_referendum_def split: if_splits option.splits)

lemma gov_propose_wf:
  assumes "gov_propose a t act now l = Some (r, l')" and "gov_wf l"
  shows "gov_wf l'"
proof -
  let ?i = "gov_next_id l"
  have "gov_wf (write_leaf (Single GovNext) (VU64 n) (write_leaf (GovElectorate ?i) e (write_leaf (GovAction ?i) c
      (write_leaf (GovRef ?i) (VReferendum x) (set_account a y l)))))"
    if "checked_add ?i 1 = Some n" for n e c x y
  proof -
    have n: "unat n = unat ?i + 1"
      using that by (simp add: checked_add_Some_iff)
    then have "?i < n" "\<And>m. n \<le> m \<Longrightarrow> ?i \<le> m \<and> m \<noteq> ?i"
      by (auto simp: word_le_nat_alt word_less_nat_alt)
    with assms(2) show ?thesis
      by (auto simp: gov_wf_def locked_other set_account_def gov_total_locked_def gov_next_id_def escrow_def
          gov_referendum_def)
  qed
  moreover have "gov_next_id (set_account a y l) = ?i" for y
    by (simp add: gov_next_id_def set_account_def)
  ultimately show ?thesis
    using assms
    by (auto simp: gov_propose_def Let_def gov_writes split: if_splits option.splits bind_splits)
qed

text \<open>Moving a lock together with the recorded total.\<close>

lemma gov_wf_lock:
  assumes "gov_wf l"
    and "unat tot' + unat (locked_amount i l) = unat (gov_total_locked l) + unat (lock_amount x)"
  shows "gov_wf (set_gov_total_locked tot' (set_gov_lock i x l))"
proof -
  have "locked_sum (set_gov_total_locked tot' (set_gov_lock i x l)) = unat tot'"
    using assms locked_ge [of i l] by (simp add: set_gov_total_locked_def locked_other locked_set gov_wf_def)
  with assms(1) show ?thesis
    by (simp add: gov_wf_def set_gov_total_locked_def set_gov_lock_def gov_total_locked_def gov_next_id_def
        escrow_def gov_referendum_def)
qed

lemma gov_wf_unlock:
  assumes "gov_wf l" and "unat tot' + unat (locked_amount i l) = unat (gov_total_locked l)"
  shows "gov_wf (set_gov_total_locked tot' (clear_gov_lock i l))"
proof -
  have "locked_sum (set_gov_total_locked tot' (clear_gov_lock i l)) = unat tot'"
    using assms locked_ge [of i l] by (simp add: set_gov_total_locked_def locked_other locked_set gov_wf_def)
  with assms(1) show ?thesis
    by (simp add: gov_wf_def set_gov_total_locked_def clear_gov_lock_def gov_total_locked_def gov_next_id_def
        escrow_def gov_referendum_def)
qed

lemma gov_vote_wf:
  assumes "gov_vote a i aye conv stake now l = Some (b, l')" and "gov_wf l" and "sound l 0 0 0"
  shows "gov_wf l'"
proof -
  let ?l1 = "set_account a ((account a l)\<lparr>account_balance := account_balance (account a l) - stake\<rparr>) l"
  have main: "gov_wf (set_gov_referendum i (r\<lparr>ref_tally := t\<rparr>)
      (set_gov_total_locked x (set_gov_lock u (raised_lock u stake release ?l1) ?l1)))"
    if guard: "\<not> account_balance (account a l) < stake" and r: "gov_referendum i l = Some r"
      and x: "checked_add (gov_total_locked (set_gov_lock u (raised_lock u stake release ?l1) ?l1)) (ucast stake) = Some x"
    for r t x u release
  proof (rule gov_wf_referendum)
    have s: "sound ?l1 (unat stake) 0 0"
      using sound_debit [OF assms(3) guard] by simp
    have tot: "gov_total_locked (set_gov_lock u y ?l1) = gov_total_locked ?l1" for y
      by (simp add: gov_total_locked_def set_gov_lock_def)
    show "gov_wf (set_gov_total_locked x (set_gov_lock u (raised_lock u stake release ?l1) ?l1))"
      using assms(2) x sound_fits [OF s order_refl native_at_locked]
      by (intro gov_wf_lock) (simp_all add: tot checked_add_Some_iff raised_lock_amount)
    have "escrow i (set_gov_total_locked x (set_gov_lock u (raised_lock u stake release ?l1) ?l1)) = escrow i l"
      by (simp add: escrow_def gov_referendum_def set_gov_total_locked_def set_gov_lock_def set_account_def)
    with r show "(if ref_status (r\<lparr>ref_tally := t\<rparr>) = Deciding then unat (ref_deposit (r\<lparr>ref_tally := t\<rparr>)) else 0)
      \<le> escrow i (set_gov_total_locked x (set_gov_lock u (raised_lock u stake release ?l1) ?l1))"
      by (simp add: escrow_def)
  qed
  show ?thesis
    using assms(1,2)
    by (auto simp: gov_vote_def Let_def main set_gov_ballot_def gov_wf_write
        split: if_splits option.splits bind_splits)
qed

lemma gov_conclude_wf:
  assumes "gov_conclude i now l = (s, l')" and "gov_wf l"
  shows "gov_wf l'"
proof -
  have "gov_wf (set_gov_referendum i r' l1)"
    if "gov_wf l1" and "resolve now e r = (t, r')" and "ref_status r = Deciding" and "t \<noteq> Deciding" for l1 e r t r'
    by (rule gov_wf_referendum [OF that(1)]) (use resolveE [OF that(2-)] that(4) in simp)
  then show ?thesis
    using assms
    by (auto simp: gov_conclude_def Let_def set_stake_treasury_def gov_wf_write
        split: if_splits option.splits prod.splits)
qed

lemma gov_release_wf:
  assumes "gov_release a now l = (x, l')" and "gov_wf l"
  shows "gov_wf l'"
proof -
  have "gov_wf (set_gov_total_locked (saturating_sub (gov_total_locked (clear_gov_lock i l)) (ucast (lock_amount k)))
      (clear_gov_lock i l))" if k: "gov_lock i l = Some k" for i k
  proof (rule gov_wf_unlock [OF assms(2)])
    have "unat (lock_amount k) \<le> unat (gov_total_locked l)"
      using locked_ge [of i l] assms(2) k by (simp add: gov_wf_def locked_amount_def)
    moreover have "gov_total_locked (clear_gov_lock i l) = gov_total_locked l"
      by (simp add: gov_total_locked_def clear_gov_lock_def)
    ultimately show "unat (saturating_sub (gov_total_locked (clear_gov_lock i l)) (ucast (lock_amount k))) +
        unat (locked_amount i l) = unat (gov_total_locked l)"
      using k by (simp add: word_nat locked_amount_def)
  qed
  then show ?thesis
    using assms by (auto simp: gov_release_def Let_def split: option.splits if_splits)
qed

lemma seize_lock_wf:
  assumes "seize_lock i still t l = (t', l')" and "gov_wf l"
  shows "gov_wf l'"
proof (cases "gov_lock i l")
  case (Some k)
  let ?x = "min (lock_amount k) still"
  let ?k = "k\<lparr>lock_amount := lock_amount k - ?x\<rparr>"
  have le: "unat (lock_amount k) \<le> unat (gov_total_locked l)"
    using locked_ge [of i l] assms(2) Some by (simp add: gov_wf_def locked_amount_def)
  have sub: "unat (lock_amount k - ?x) = unat (lock_amount k) - unat ?x" "unat ?x \<le> unat (lock_amount k)"
    by (simp_all add: unat_sub word_nat)
  have tot: "gov_total_locked (if c then clear_gov_lock i l else set_gov_lock i y l) = gov_total_locked l" for c y
    by (simp add: gov_total_locked_def clear_gov_lock_def set_gov_lock_def)
  have "gov_wf (set_gov_total_locked (saturating_sub (gov_total_locked l) (ucast ?x)) (set_gov_lock i ?k l))"
    by (rule gov_wf_lock [OF assms(2)]) (use le sub Some in \<open>simp add: word_nat locked_amount_def\<close>)
  moreover have "gov_wf (set_gov_total_locked (saturating_sub (gov_total_locked l) (ucast ?x)) (clear_gov_lock i l))"
    if "lock_amount k - ?x = 0"
  proof (rule gov_wf_unlock [OF assms(2)])
    from that have "unat ?x = unat (lock_amount k)"
      using sub by (metis le_antisym diff_is_0_eq unat_0)
    then show "unat (saturating_sub (gov_total_locked l) (ucast ?x)) + unat (locked_amount i l) =
        unat (gov_total_locked l)"
      using le Some by (simp add: word_nat locked_amount_def)
  qed
  ultimately show ?thesis
    using assms Some
    by (auto simp: seize_lock_def Let_def tot simp del: min_less_iff_conj split: if_splits)
qed (use assms in \<open>simp add: seize_lock_def\<close>)

lemma seize_frozen_wf:
  assumes "seize_frozen i a x rest t l = (t', l')" and "gov_wf l"
  shows "gov_wf l'"
proof -
  have bond: "gov_wf l1" if "seize_bond i a rest t l = (t1, l1)" for t1 l1
    using gov_wf_keeps [OF seize_bond_keeps [OF that, of a True True]] assms(2) by simp
  show ?thesis
    using assms bond
    by (auto simp: seize_frozen_def Let_def split: if_splits prod.splits dest: seize_lock_wf)
qed

lemma seize_wf:
  assumes "seize victim scope z (x, l) = (y, l')" and "gov_wf l"
  shows "gov_wf l'"
  using assms
  by (auto simp: seize_def Let_def split: option.splits prod.splits if_splits dest: seize_frozen_wf)

lemma seize_all_wf:
  "seize_all victim scope zs (x, l) = (y, l') \<Longrightarrow> gov_wf l \<Longrightarrow> gov_wf l'"
proof (induction zs arbitrary: x l)
  case (Cons z zs)
  obtain r1 l1 where z: "seize victim scope z (x, l) = (r1, l1)"
    by fastforce
  with Cons.prems Cons.IH [of r1 l1] seize_wf [OF z] show ?case
    by simp
qed simp

lemma recover_wf:
  assumes "recover scope victim zs l = Inr l'" and "gov_wf l"
  shows "gov_wf l'"
  using assms
  by (auto simp: recover_def Let_def gov_writes gov_wf_write split: option.splits prod.splits dest: seize_all_wf)

section \<open>Backing of every asset\<close>

definition bridge_wf :: "ledger \<Rightarrow> bool" where
  "bridge_wf l \<longleftrightarrow>
     (\<forall>a. backed a l \<and> (a \<notin> set (bridge_asset_ids l) \<longrightarrow> bridged_asset a l = None \<and> exits_due a l = 0))"

lemma bridge_wf_keeps:
  assumes "keeps p True g l l'"
  shows "bridge_wf l' \<longleftrightarrow> bridge_wf l"
proof -
  have peek: "peek l' k = peek l k" if "bridge_leaf k" for k
    using assms that by (simp add: keeps_def watched_def)
  have "fm_at (holder_value a) (store l') k = fm_at (holder_value a) (store l) k"
    "fm_at (exit_value a) (store l') k = fm_at (exit_value a) (store l) k" for a k
    by (cases "bridge_leaf k"; auto simp: fm_at_def peek holder_value_def exit_value_def
        split: option.splits leaf.splits)+
  then have "holders a l' = holders a l" "exits_due a l' = exits_due a l" for a
    unfolding holders_def exits_due_def by (auto intro: fm_sum_cong)
  moreover have "bridged_asset a l' = bridged_asset a l" "bridge_asset_ids l' = bridge_asset_ids l"
    "bridge_vault_custody u a l' = bridge_vault_custody u a l" "bridge_pool_vault l' = bridge_pool_vault l" for a u
    by (simp_all add: bridged_asset_def bridge_asset_ids_def bridge_vault_custody_def bridge_pool_vault_def
        held_or_def held_def peek)
  ultimately show ?thesis
    by (simp add: bridge_wf_def backed_def bridged_supply_def in_custody_def cong: option.case_cong)
qed

lemma le_saturating_add_128: "x \<le> saturating_add x y" "y \<le> saturating_add x y" for x y :: u128
  using unat_le_max [of x] unat_le_max [of y] by (simp_all add: word_nat)

lemma custody_set:
  "bridge_vault_custody u a (set_bridge_vault_custody v b x l) =
     (if u = v \<and> a = b then x else bridge_vault_custody u a l)"
  by (simp add: bridge_vault_custody_def set_bridge_vault_custody_def)

lemma migrate_each_grows:
  "u \<noteq> v \<Longrightarrow> bridge_vault_custody v a l \<le> bridge_vault_custody v a (migrate_each u v as l)"
proof (induction as arbitrary: l)
  case (Cons c "as")
  let ?l1 = "set_bridge_vault_custody v c (saturating_add
    (bridge_vault_custody v c (set_bridge_vault_custody u c 0 l)) (bridge_vault_custody u c l))
    (set_bridge_vault_custody u c 0 l)"
  have "bridge_vault_custody v a l \<le> bridge_vault_custody v a ?l1"
    using Cons.prems le_saturating_add_128 by (simp add: custody_set)
  with Cons.IH [of ?l1] Cons.IH [of l] Cons.prems show ?case
    by (auto simp: Let_def)
qed simp

text \<open>The new vault ends up with at least what the old one held of every listed asset.\<close>

lemma migrate_each_carries:
  "u \<noteq> v \<Longrightarrow> a \<in> set as \<Longrightarrow> bridge_vault_custody u a l \<le> bridge_vault_custody v a (migrate_each u v as l)"
proof (induction as arbitrary: l)
  case (Cons c "as")
  let ?l1 = "set_bridge_vault_custody v c (saturating_add
    (bridge_vault_custody v c (set_bridge_vault_custody u c 0 l)) (bridge_vault_custody u c l))
    (set_bridge_vault_custody u c 0 l)"
  show ?case
  proof (cases "c = a")
    case True
    have "bridge_vault_custody u c l \<le> bridge_vault_custody v a ?l1"
      using True le_saturating_add_128 by (simp add: custody_set)
    also have "\<dots> \<le> bridge_vault_custody v a (migrate_each u v as ?l1)"
      by (rule migrate_each_grows [OF Cons.prems(1)])
    finally show ?thesis
      using True by (simp add: Let_def)
  next
    case False
    have "bridge_vault_custody u a l = bridge_vault_custody u a ?l1"
      using False by (simp add: custody_set)
    also have "\<dots> \<le> bridge_vault_custody v a (migrate_each u v as ?l1)"
      using False Cons.prems by (intro Cons.IH) auto
    finally show ?thesis
      using False Cons by (simp add: Let_def)
  qed
qed simp

lemma migrate_each_others:
  "holders a (migrate_each u v as l) = holders a l" "exits_due a (migrate_each u v as l) = exits_due a l"
  "bridged_asset a (migrate_each u v as l) = bridged_asset a l"
  "bridge_asset_ids (migrate_each u v as l) = bridge_asset_ids l"
  by (induction as arbitrary: l)
    (simp_all add: Let_def set_bridge_vault_custody_def backed_simps bridged_asset_def bridge_asset_ids_def)

lemma bridge_wf_revault:
  assumes "bridge_wf l" and "length v = KEY_LEN"
    and "\<And>a. holders a l' = holders a l" "\<And>a. exits_due a l' = exits_due a l"
    and "\<And>a. bridged_asset a l' = bridged_asset a l" "bridge_asset_ids l' = bridge_asset_ids l"
    and "\<And>a. a \<in> set (bridge_asset_ids l) \<Longrightarrow> in_custody a l \<le> unat (bridge_vault_custody v a l')"
  shows "bridge_wf (set_bridge_pool_vault v l')"
proof -
  let ?l = "set_bridge_pool_vault v l'"
  have c: "in_custody a ?l = unat (bridge_vault_custody v a l')" for a
    using assms(2) by (simp add: in_custody_def bridge_pool_vault_def set_bridge_pool_vault_def
        bridge_vault_custody_def)
  have eq: "holders a ?l = holders a l" "exits_due a ?l = exits_due a l" "bridged_asset a ?l = bridged_asset a l"
    "bridge_asset_ids ?l = bridge_asset_ids l" "bridged_supply a ?l = bridged_supply a l" for a
    using assms by (simp_all add: set_bridge_pool_vault_def backed_simps bridged_asset_def bridged_supply_def
        bridge_asset_ids_def)
  have "backed a ?l" for a
  proof (cases "a \<in> set (bridge_asset_ids l)")
    case True
    moreover have "backed a l"
      using assms(1) by (simp add: bridge_wf_def)
    ultimately show ?thesis
      using assms(7) [OF True] by (auto simp: backed_def eq c)
  next
    case False
    with assms(1) have "bridged_supply a l = 0" "exits_due a l = 0" "holders a l = 0"
      by (auto simp: bridge_wf_def backed_def bridged_supply_def)
    then show ?thesis
      by (simp add: backed_def eq)
  qed
  then show ?thesis
    using assms(1) by (simp add: bridge_wf_def eq)
qed

lemma migrate_bridge_wf:
  assumes "migrate_bridge vault l = Inr l'" and "bridge_wf l"
  shows "bridge_wf l'"
proof -
  have events: "bridge_wf (record_side_event e l1) \<longleftrightarrow> bridge_wf l1" for e l1
    by (rule bridge_wf_keeps [of _ True]) simp
  obtain v where v: "id_from_slice vault = Some v" "length v = KEY_LEN"
    using assms(1) by (auto simp: migrate_bridge_def id_from_slice_def split: if_splits option.splits)
  let ?l1 = "case bridge_pool_vault l of None \<Rightarrow> l
    | Some old \<Rightarrow> if old \<noteq> v then migrate_each old v (bridge_asset_ids l) l else l"
  have "bridge_wf (set_bridge_pool_vault v ?l1)"
  proof (rule bridge_wf_revault [OF assms(2) v(2)])
    show "in_custody a l \<le> unat (bridge_vault_custody v a ?l1)" if "a \<in> set (bridge_asset_ids l)" for a
      using migrate_each_carries [OF _ that, of _ v l]
      by (auto simp: in_custody_def word_le_nat_alt split: option.split)
  qed (auto simp: migrate_each_others split: option.split)
  then show ?thesis
    using assms(1) v(1)
    by (auto simp: migrate_bridge_def Let_def events split: if_splits option.splits)
qed

lemma register_wf:
  assumes "bridge_wf l"
  shows "bridge_wf (register_bridged_asset a cap epoch_cap stark l)"
proof -
  let ?l = "register_bridged_asset a cap epoch_cap stark l"
  have ids: "set (bridge_asset_ids ?l) = insert a (set (bridge_asset_ids l))"
    by (auto simp: register_bridged_asset_def Let_def record_bridge_asset_id_def set_bridged_asset_def
        bridge_asset_ids_def)
  have "bridged_asset c ?l = bridged_asset c l" "exits_due c ?l = exits_due c l" if "c \<noteq> a" for c
    using that by (simp_all add: register_bridged_asset_def Let_def record_bridge_asset_id_def
        set_bridged_asset_def bridged_asset_def exits_other)
  with assms show ?thesis
    by (auto simp: bridge_wf_def register_bridged_asset_backed ids)
qed

lemma bridge_wf_step:
  assumes "bridge_wf l" and "\<And>a. backed a l \<Longrightarrow> backed a l'"
    and "bridge_asset_ids l' = bridge_asset_ids l"
    and "\<And>a. bridged_asset a l = None \<Longrightarrow> exits_due a l = 0 \<Longrightarrow> bridged_asset a l' = None \<and> exits_due a l' = 0"
  shows "bridge_wf l'"
  using assms by (simp add: bridge_wf_def)

lemma bridge_mint_wf:
  assumes "bridge_mint f l = (r, l')" and "bridge_wf l"
  shows "bridge_wf l'"
proof (rule bridge_wf_step [OF assms(2)])
  show "backed a l'" if "backed a l" for a
    by (rule bridge_mint_backed [OF that assms(1)])
  show "bridge_asset_ids l' = bridge_asset_ids l"
    using assms(1) by (cases r) (auto elim!: bridge_mintE simp: bridge_setters bridge_asset_ids_def
        dest: bridge_mint_False)
  show "bridged_asset a l' = None \<and> exits_due a l' = 0" if "bridged_asset a l = None" "exits_due a l = 0" for a
    using assms(1) that by (cases r) (auto elim!: bridge_mintE simp: bridge_setters bridged_asset_def
        backed_simps dest: bridge_mint_False)
qed

lemma bridge_burn_wf:
  assumes "bridge_burn H c h x d ch n l = (r, l')" and "bridge_wf l"
  shows "bridge_wf l'"
proof (rule bridge_wf_step [OF assms(2)])
  show "backed a l'" if "backed a l" for a
    by (rule bridge_burn_backed [OF that assms(1)])
  show "bridge_asset_ids l' = bridge_asset_ids l"
    using assms(1) by (cases r) (auto elim!: bridge_burnE simp: bridge_setters bridge_asset_ids_def
        dest: bridge_burn_False)
  show "bridged_asset a l' = None \<and> exits_due a l' = 0" if a: "bridged_asset a l = None" "exits_due a l = 0" for a
  proof (cases r)
    case True
    with assms(1) have "bridge_burn H c h x d ch n l = (True, l')" by simp
    then show ?thesis
    proof (rule bridge_burnE)
      fix asset tot ref idx
      assume m: "bridged_asset c l = Some asset" and l': "l' = record_side_event (BridgeBurn c h x d ch ref)
        (record_bridge_burn_event c h x d ch n idx ref (record_outstanding_burn ref c x h d
        (set_bridged_asset c (asset\<lparr>asset_total := tot\<rparr>)
        (set_bridged_balance c h (bridged_balance c h l - x) l))))"
      have "c \<noteq> a" using m a by auto
      moreover have "exits_due a l' \<le> exits_due a l"
        unfolding l' using \<open>c \<noteq> a\<close> exits_burn [of a ref "\<lparr>burn_asset = c, burn_amount = x, burn_beneficiary = h,
          burn_destination = d\<rparr>" "set_bridged_asset c (asset\<lparr>asset_total := tot\<rparr>)
          (set_bridged_balance c h (bridged_balance c h l - x) l)"]
        by (simp add: bridge_setters backed_simps)
      ultimately show ?thesis
        using a by (simp add: l' bridge_setters bridged_asset_def)
    qed
  qed (use assms(1) a bridge_burn_False in fastforce)
qed

lemma exits_closed_zero:
  assumes "exits_due a l = 0" and "outstanding_burn_matches ref c x h d l"
  shows "exits_due a (consume_outstanding_burn ref (mark_bridge_exit_settled ref l)) = 0"
  using exits_closed [OF assms(2), of a] assms(1)
  by (simp add: consume_outstanding_burn_def mark_bridge_exit_settled_def)

lemma bridge_settle_wf:
  assumes "bridge_settle f l = (r, l')" and "bridge_wf l"
  shows "bridge_wf l'"
proof (rule bridge_wf_step [OF assms(2)])
  show "backed a l'" if "backed a l" for a
    by (rule bridge_settle_backed [OF that assms(1)])
  show "bridge_asset_ids l' = bridge_asset_ids l"
    using assms(1) by (cases r) (auto elim!: bridge_settleE simp: bridge_setters bridge_asset_ids_def
        dest: bridge_settle_False)
  show "bridged_asset a l' = None \<and> exits_due a l' = 0" if a: "bridged_asset a l = None" "exits_due a l = 0" for a
    using assms(1) a by (cases r) (auto elim!: bridge_settleE simp: exits_closed_zero exits_other event_defs
        set_bridge_vault_custody_def bridged_asset_def consume_outstanding_burn_def mark_bridge_exit_settled_def
        dest: bridge_settle_False exits_closed_zero [OF a(2)])
qed

lemma bridge_slash_wf:
  assumes "bridge_slash f l = (r, l')" and "bridge_wf l"
  shows "bridge_wf l'"
proof (rule bridge_wf_step [OF assms(2)])
  show "backed a l'" if "backed a l" for a
    by (rule bridge_slash_backed [OF that assms(1)])
  show "bridge_asset_ids l' = bridge_asset_ids l"
    using assms(1) by (cases r) (auto elim!: bridge_slashE simp: bridge_setters bridge_asset_ids_def
        dest: bridge_slash_False)
  show "bridged_asset a l' = None \<and> exits_due a l' = 0" if a: "bridged_asset a l = None" "exits_due a l = 0" for a
    using assms(1) a by (cases r) (auto elim!: bridge_slashE simp: exits_other event_defs
        set_bridged_balance_def set_bridged_asset_def set_bridge_epoch_paid_def set_bridge_epoch_paid_global_def
        bridged_asset_def consume_outstanding_burn_def mark_bridge_exit_settled_def
        dest: bridge_slash_False exits_closed_zero [OF a(2)])
qed

section \<open>The invariant of the ledger\<close>

definition ledger_wf :: "hash \<Rightarrow> ledger \<Rightarrow> bool" where
  "ledger_wf H l \<longleftrightarrow> sound l 0 0 0 \<and> gov_wf l \<and> bridge_wf l \<and> bond_kept H l"

lemma bond_kept_keeps: "keeps (bridge_bond_address H) b g l l' \<Longrightarrow> bond_kept H l \<Longrightarrow> bond_kept H l'"
  by (auto simp: bond_kept_def keeps_def watched_def bridge_freeze_def held_def split: option.splits)

lemma ledger_wf_keeps:
  assumes "keeps (bridge_bond_address H) True True l l'" and "sound l' 0 0 0" and "ledger_wf H l"
  shows "ledger_wf H l'"
  using assms bond_kept_keeps [OF assms(1)] gov_wf_keeps [OF assms(1)] bridge_wf_keeps [OF assms(1)]
  by (simp add: ledger_wf_def)

lemma ledger_wf_gov:
  assumes "keeps (bridge_bond_address H) True False l l'" and "sound l' 0 0 0" and "gov_wf l'" and "ledger_wf H l"
  shows "ledger_wf H l'"
  using assms bond_kept_keeps [OF assms(1)] bridge_wf_keeps [OF assms(1)] by (simp add: ledger_wf_def)

lemma ledger_wf_bridge:
  assumes "keeps (bridge_bond_address H) False True l l'" and "sound l' 0 0 0" and "bridge_wf l'" and "ledger_wf H l"
  shows "ledger_wf H l'"
  using assms bond_kept_keeps [OF assms(1)] gov_wf_keeps [OF assms(1)] by (simp add: ledger_wf_def)

lemma bridge_wf_write: "\<not> bridge_leaf k \<Longrightarrow> bridge_wf (write_leaf k v l) \<longleftrightarrow> bridge_wf l"
proof -
  assume k: "\<not> bridge_leaf k"
  then have "holders a (write_leaf k v l) = holders a l" "exits_due a (write_leaf k v l) = exits_due a l"
    "in_custody a (write_leaf k v l) = in_custody a l" for a
    by (auto intro!: holders_other exits_other custody_other)
  moreover have "BridgeAsset a \<noteq> k" "Single BridgeAssetList \<noteq> k" for a
    using k by auto
  ultimately show ?thesis
    by (simp add: bridge_wf_def backed_def bridged_supply_def bridged_asset_def bridge_asset_ids_def)
qed

lemma bridge_wf_account [simp]: "bridge_wf (set_account a x l) \<longleftrightarrow> bridge_wf l"
  by (simp add: set_account_def bridge_wf_write state_leaf_def split: sum.split)

lemma lift_wf:
  "gov_wf (lift_bridge_freeze H now outcome l) \<longleftrightarrow> gov_wf l"
  "bridge_wf (lift_bridge_freeze H now outcome l) \<longleftrightarrow> bridge_wf l"
  "bond_kept H (lift_bridge_freeze H now outcome l)"
  by (auto simp: lift_bridge_freeze_def Let_def plain_writes stake_writes gov_wf_write bridge_wf_write
      bond_kept_def bridge_freeze_def split: option.split freeze_lift.split)

lemma lift_bridge_freeze_wf: "ledger_wf H l \<Longrightarrow> ledger_wf H (lift_bridge_freeze H now outcome l)"
  by (simp add: ledger_wf_def lift_wf lift_bridge_freeze_sound)

lemma bridge_freeze_with_fee_wf:
  assumes "bridge_freeze_with_fee H a fee now l = Some (r, l')" and "ledger_wf H l"
    and "state_leaf a \<noteq> state_leaf (bridge_bond_address H)"
  shows "ledger_wf H l'"
proof -
  let ?pot = "bridge_bond_address H"
  have wf: "gov_wf l1 \<and> bridge_wf l1" if "pay H a x fee l = Some l1" for x l1
    using assms(2) gov_wf_keeps [OF keeps_pay [OF that assms(3), of True]]
      bridge_wf_keeps [OF keeps_pay [OF that assms(3), of True]] by (auto simp: ledger_wf_def)
  have len: "length i = 32" if "address_id a = Some i" for i
    by (rule address_id_length [OF that])
  have bond: "BRIDGE_FREEZE_BOND \<le> saturating_add x BRIDGE_FREEZE_BOND" for x
    using u64_bound [of BRIDGE_FREEZE_BOND] by (simp add: word_nat)
  have s: "sound l' 0 0 0"
    using bridge_freeze_with_fee_sound [OF assms(1)] assms(2) by (simp add: ledger_wf_def)
  show ?thesis
    using assms(1,2) s
    by (auto simp: bridge_freeze_with_fee_def Let_def ledger_wf_def plain_writes gov_wf_write bridge_wf_write wf
        bond_kept_def bridge_freeze_def balance_write balance_set bond len
        split: option.splits if_splits bind_splits)
qed

lemma bridge_unfreeze_with_fee_wf:
  assumes "bridge_unfreeze_with_fee H a fee now l = Some (r, l')" and "ledger_wf H l"
    and "state_leaf a \<noteq> state_leaf (bridge_bond_address H)"
  shows "ledger_wf H l'"
proof -
  have "ledger_wf H l1" if "pay H a fee fee l = Some l1" and "\<not> account_balance (account a l) < fee" for l1
    by (rule ledger_wf_keeps [OF keeps_pay [OF that(1) assms(3)]])
      (use assms(2) sound_pay [OF that(1) _ that(2)] in \<open>auto simp: ledger_wf_def\<close>)
  then show ?thesis
    using assms(1,2)
    by (auto simp: bridge_unfreeze_with_fee_def Let_def lift_bridge_freeze_wf
        split: option.splits if_splits bind_splits)
qed

section \<open>Enacting an action\<close>

text \<open>
  The reserved pots are not touched by an enacted recovery, and spending draws on the grants pot or
  on the treasury, never on the bond pot: here the tags of the two pots must not collide.
\<close>

lemma state_leaf_id: "id_bytes_to_address i = Some a \<Longrightarrow> state_leaf a = Acct i"
  using id_bytes_to_address_id [of i a]
  by (auto simp: address_id_def state_leaf_def split: sum.splits if_splits)

lemma state_leaf_cached: "length (H tag) = 32 \<Longrightarrow> state_leaf (cached_address H tag) = Acct (H tag)"
  by (simp add: state_leaf_def cached_address_parses)

lemma seizure_spares_pot:
  assumes "\<And>x. length (H x) = 32" and "\<not> is_protected_account H (seizure_from z)"
    and "id_bytes_to_address (seizure_from z) = Some a"
  shows "state_leaf a \<noteq> state_leaf (bridge_bond_address H)"
proof -
  have "length (seizure_from z) = KEY_LEN"
    using id_bytes_to_address_id [OF assms(3)] by (simp add: KEY_LEN_def)
  then have "\<not> is_reserved_pot H (seizure_from z)"
    using assms(2) by (simp add: is_protected_account_def id_from_slice_def)
  then have "seizure_from z \<noteq> H (ascii ''qtv/bridge/bond'')"
    by (auto simp: is_reserved_pot_def reserved_pots_def)
  then show ?thesis
    using state_leaf_id [OF assms(3)] assms(1) by (simp add: bridge_bond_address_def state_leaf_cached)
qed

lemma grants_not_bond:
  assumes "\<And>x. length (H x) = 32" and "H (ascii ''qtv/gov/grants'') \<noteq> H (ascii ''qtv/bridge/bond'')"
  shows "state_leaf (grants_address H) \<noteq> state_leaf (bridge_bond_address H)"
  using assms by (simp add: grants_address_def bridge_bond_address_def state_leaf_cached)


end
