(* ===== verification/LedgerSteps.thy ===== *)
theory LedgerSteps
  imports LedgerInvariant
begin

text \<open>
  The steps of the ledger.  \<open>ledger_step\<close> has one rule per operation of
  \<^verbatim>\<open>src/crates/qtv-node/src/ledger.rs\<close> that moves native value, locks, deposits or bridged assets; the
  claims say what holds in every state its runs reach.
\<close>

section \<open>Enacting an action keeps the invariant\<close>

lemma ledger_wf_event [simp]: "ledger_wf H (record_side_event e l) \<longleftrightarrow> ledger_wf H l"
  by (simp add: ledger_wf_def bond_kept_def bridge_freeze_def balance_def account_def
      bridge_wf_keeps [of "bridge_bond_address H" True l "record_side_event e l"] cong: option.case_cong)

fun plain_action :: "action \<Rightarrow> bool" where
  "plain_action (Act_Mint _ _) \<longleftrightarrow> False"
| "plain_action (Spend _ _ _) \<longleftrightarrow> False"
| "plain_action (Act_FreezeRecovery _ _ _) \<longleftrightarrow> False"
| "plain_action BridgeUnfreeze \<longleftrightarrow> False"
| "plain_action (Act_BridgeMigration _) \<longleftrightarrow> False"
| "plain_action (AssetRegister _ _ _ _) \<longleftrightarrow> False"
| "plain_action _ \<longleftrightarrow> True"

lemma parameter_keeps:
  assumes "execute_action H S (Parameter key val) now chain l = Some (Inr l')"
  shows "keeps p True True l l'"
  using assms apply_parameter_keeps
  by (auto simp: execute_action_def split: bind_splits sum.splits)

lemma plain_action_keeps:
  assumes "execute_action H S act now chain l = Some (Inr l')" and "plain_action act"
  shows "keeps p True True l l'"
proof (cases act)
  case (Parameter key val)
  with assms parameter_keeps show ?thesis by simp
next
  case (Freeze ts)
  with assms show ?thesis
    by (auto simp: execute_action_def intro!: stop_each_keeps set_frozen_keeps)
next
  case (Unfreeze ts)
  with assms show ?thesis
    by (auto simp: execute_action_def intro!: stop_each_keeps set_frozen_keeps)
next
  case (Blacklist x)
  with assms show ?thesis
    by (auto simp: execute_action_def Let_def intro!: set_frozen_keeps split: option.splits)
next
  case (CommitteeRotate r)
  with assms show ?thesis
    by (auto simp: execute_action_def rotate_committee_def seed_bridge_operator_set_def single_unwatched
        intro!: keeps_write split: option.splits if_splits)
next
  case (OperatorRevoke i)
  with assms show ?thesis
    by (auto simp: execute_action_def seed_bridge_operator_set_def single_unwatched
        intro!: keeps_write split: option.splits prod.splits bool.splits)
qed (use assms in \<open>auto simp: execute_action_def set_guardian_set_def set_bridge_epoch_def
    set_feature_version_def single_unwatched intro!: keeps_write split: option.splits if_splits\<close>)

lemma mint_action_keeps:
  assumes "execute_action H S (Act_Mint to x) now chain l = Some (Inr l')"
  shows "keeps p True True l l'"
  using assms mint_native_keeps by (auto simp: execute_action_def)

lemma migration_wf:
  assumes "migrate_bridge vault l = Inr l'" and "sound l' 0 0 0" and "ledger_wf H l"
  shows "ledger_wf H l'"
proof -
  have "keeps (bridge_bond_address H) False True l l'"
    using assms(1) by (auto simp: migrate_bridge_def Let_def set_bridge_pool_vault_def watched_def
        intro!: keeps_write migrate_each_keeps split: if_splits option.splits)
  then show ?thesis
    by (rule ledger_wf_bridge [OF _ assms(2) _ assms(3)])
      (use migrate_bridge_wf [OF assms(1)] assms(3) in \<open>simp add: ledger_wf_def\<close>)
qed

lemma register_ledger_wf:
  assumes "ledger_wf H l"
  shows "ledger_wf H (register_bridged_asset a cap epoch_cap stark l)"
proof (rule ledger_wf_bridge [OF _ _ _ assms])
  show "keeps (bridge_bond_address H) False True l (register_bridged_asset a cap epoch_cap stark l)"
    by (auto simp: register_bridged_asset_def Let_def record_bridge_asset_id_def set_bridged_asset_def
        watched_def intro!: keeps_write)
  show "sound (register_bridged_asset a cap epoch_cap stark l) 0 0 0"
    using assms by (simp add: ledger_wf_def plain_writes neutral_def Let_def)
  show "bridge_wf (register_bridged_asset a cap epoch_cap stark l)"
    using assms by (simp add: ledger_wf_def register_wf)
qed

lemma execute_action_wf:
  assumes "execute_action H S act now chain l = Some (Inr l')" and "ledger_wf H l"
    and "\<And>x. length (H x) = 32" and "H (ascii ''qtv/gov/grants'') \<noteq> H (ascii ''qtv/bridge/bond'')"
    and "\<And>scope victim zs z. act = Act_FreezeRecovery scope victim zs \<Longrightarrow> z \<in> set zs \<Longrightarrow>
      \<not> is_protected_account H (seizure_from z)"
  shows "ledger_wf H l'"
proof -
  let ?p = "bridge_bond_address H"
  have s: "sound l' 0 0 0"
    using execute_action_sound [OF assms(1)] assms(2) by (simp add: ledger_wf_def)
  note stays = ledger_wf_keeps [OF _ s assms(2)]
  consider "plain_action act" | to x where "act = Act_Mint to x" | f to x where "act = Spend f to x"
    | sc v zs where "act = Act_FreezeRecovery sc v zs" | "act = BridgeUnfreeze"
    | v where "act = Act_BridgeMigration v" | a c e st where "act = AssetRegister a c e st"
    by (cases act) auto
  then show ?thesis
  proof cases
    case 1
    then show ?thesis by (rule stays [OF plain_action_keeps [OF assms(1)]])
  next
    case 2
    then show ?thesis by (intro stays mint_action_keeps) (use assms(1) in simp)
  next
    case 3
    then have "spend H f to x l = Inr l'"
      using assms(1) by (simp add: execute_action_def)
    then have "keeps ?p True True l l'"
      using grants_not_bond [of H, OF assms(3,4)] by (rule spend_keeps)
    then show ?thesis
      by (rule stays)
  next
    case 4
    then have rec: "recover sc v zs l = Inr l'"
      using assms(1) by (simp add: execute_action_def)
    have "keeps ?p True False l l'"
      by (rule recover_keeps [OF rec]) (use 4 assms(5) seizure_spares_pot [of H, OF assms(3)] in blast)
    then show ?thesis
      by (rule ledger_wf_gov [OF _ s _ assms(2)])
        (use recover_wf [OF rec] assms(2) in \<open>simp add: ledger_wf_def\<close>)
  next
    case 5
    with assms(1,2) show ?thesis
      by (auto simp: execute_action_def gov_unfreeze_bridge_def lift_bridge_freeze_wf split: if_splits)
  next
    case 6
    then show ?thesis
      by (intro migration_wf [OF _ s assms(2)]) (use assms(1) in \<open>simp add: execute_action_def\<close>)
  next
    case 7
    with assms(1,2) show ?thesis
      by (auto simp: execute_action_def register_ledger_wf split: if_splits)
  qed
qed

lemma gov_conclude_ledger_wf:
  assumes "gov_conclude i now l = (s, l')" and "ledger_wf H l"
  shows "ledger_wf H l'"
  by (rule ledger_wf_gov [OF gov_conclude_keeps [OF assms(1)] _ _ assms(2)])
    (use assms gov_conclude_sound [OF assms(1)] gov_conclude_wf [OF assms(1)] in \<open>simp_all add: ledger_wf_def\<close>)

lemma protected_free:
  assumes "check_enactment t act ok (is_protected_account H) = Inr u"
    and "act = Act_FreezeRecovery scope victim zs" and "z \<in> set zs"
  shows "\<not> is_protected_account H (seizure_from z)"
  using assms by (auto simp: check_enactment_def split: if_splits)

lemma gov_enactE:
  assumes "gov_enact H S i now chain l = Some (r, l')"
  obtains s l1 where "gov_conclude i now l = (s, l1)" "l' = l1" "r \<noteq> Inr ()"
  | s l1 where "gov_conclude i now l = (s, l1)" "l' = clear_gov_action i l1" "r = Inl Expired"
  | l1 act x l2 where "gov_conclude i now l = (Some Approved, l1)" "r = Inr ()"
      "gov_action i l1 = Some act" "gov_referendum i l1 = Some x" "enactable x now"
      "check_enactment (ref_track x) act (scope_ok H chain act) (is_protected_account H) = Inr ()"
      "execute_action H S act now chain l1 = Some (Inr l2)"
      "l' = record_enactment H i now act (ref_tally x) l2"
proof -
  obtain s l1 where c: "gov_conclude i now l = (s, l1)" by fastforce
  note e = assms [unfolded gov_enact_def c prod.case]
  consider "s \<noteq> Some Approved" | "s = Some Approved" "gov_action i l1 = None"
    | act where "s = Some Approved" "gov_action i l1 = Some act" "gov_referendum i l1 = None"
    | act x where "s = Some Approved" "gov_action i l1 = Some act" "gov_referendum i l1 = Some x"
    by (cases "gov_action i l1"; cases "gov_referendum i l1"; blast)
  then show thesis
  proof cases
    case 1
    with e have "l' = l1 \<and> r \<noteq> Inr ()" by (cases s) auto
    with c that(1) show thesis by simp
  next
    case 2
    with e have "l' = l1 \<and> r \<noteq> Inr ()" by auto
    with c that(1) show thesis by simp
  next
    case 3
    with e have "l' = l1 \<and> r \<noteq> Inr ()" by auto
    with c that(1) show thesis by simp
  next
    case 4
    let ?check = "check_enactment (ref_track x) act (scope_ok H chain act) (is_protected_account H)"
    consider "enactment_expired x now" | "\<not> enactment_expired x now" "\<not> enactable x now"
      | v where "\<not> enactment_expired x now" "enactable x now" "?check = Inl v"
      | "\<not> enactment_expired x now" "enactable x now" "?check = Inr ()"
      by (cases ?check) auto
    then show thesis
    proof cases
      case 1
      with e 4 c that(2) show thesis by simp
    next
      case 2
      with e 4 have "l' = l1 \<and> r \<noteq> Inr ()" by auto
      with c that(1) show thesis by simp
    next
      case 3
      with e 4 have "l' = l1 \<and> r \<noteq> Inr ()" by auto
      with c that(1) show thesis by simp
    next
      case ok: 4
      from e 4 ok obtain out where out: "execute_action H S act now chain l1 = Some out"
        by (cases "execute_action H S act now chain l1") auto
      show thesis
      proof (cases out)
        case (Inl err)
        with e 4 ok out have "l' = l1 \<and> r \<noteq> Inr ()" by auto
        with c that(1) show thesis by simp
      next
        case (Inr l2)
        with e 4 ok out have "r = Inr ()" "l' = record_enactment H i now act (ref_tally x) l2" by auto
        with 4 ok out Inr c that(3) [of l1 act x l2] show thesis by simp
      qed
    qed
  qed
qed

lemma gov_enact_wf:
  assumes "gov_enact H S i now chain l = Some (r, l')" and "ledger_wf H l"
    and "\<And>x. length (H x) = 32" and "H (ascii ''qtv/gov/grants'') \<noteq> H (ascii ''qtv/bridge/bond'')"
  shows "ledger_wf H l'"
proof -
  have leaf: "ledger_wf H (write_leaf k v l1)" if "ledger_wf H l1" and "k = GovAction i \<or> k = GovReceipt i" for k v l1
    by (rule ledger_wf_gov [of H l1])
      (use that in \<open>auto simp: ledger_wf_def neutral_def gov_wf_write intro!: keeps_write\<close>)
  from assms(1) show ?thesis
  proof (cases rule: gov_enactE)
    case (1 s l1)
    with gov_conclude_ledger_wf [OF 1(1) assms(2)] show ?thesis by simp
  next
    case (2 s l1)
    with gov_conclude_ledger_wf [OF 2(1) assms(2)] leaf show ?thesis
      by (simp add: clear_gov_action_def)
  next
    case (3 l1 act x l2)
    have "ledger_wf H l2"
      by (rule execute_action_wf [of H, OF 3(7) gov_conclude_ledger_wf [OF 3(1) assms(2)] assms(3,4)])
        (use protected_free [OF 3(6)] in blast)
    with 3(8) leaf show ?thesis
      by (simp add: record_enactment_def Let_def clear_gov_action_def set_gov_receipt_def)
  qed
qed

section \<open>Guardians\<close>

lemma freeze_each_keeps:
  "freeze_each H bound t xs es l' = (es', l'') \<Longrightarrow> keeps p True True l l' \<Longrightarrow> keeps p True True l l''"
  by (induction xs arbitrary: es l') (auto simp: Let_def set_frozen_keeps split: option.splits)

lemma freeze_each_sound:
  "freeze_each H bound t xs es l = (es', l') \<Longrightarrow> sound l' k m n \<longleftrightarrow> sound l k m n"
  by (induction xs arbitrary: es l) (auto simp: Let_def split: option.splits)

lemma expire_each_keeps:
  "expire_each H now es l' = (es', l'') \<Longrightarrow> keeps p True True l l' \<Longrightarrow> keeps p True True l l''"
  by (induction es arbitrary: es' l') (auto simp: Let_def set_frozen_keeps split: if_splits prod.splits)

lemma expire_each_sound:
  "expire_each H now es l = (es', l') \<Longrightarrow> sound l' k m n \<longleftrightarrow> sound l k m n"
  by (induction es arbitrary: es' l) (auto simp: Let_def split: if_splits prod.splits)

lemma neutral_wf:
  assumes "ledger_wf H l" and "neutral k" and "\<not> watched True True k" and "\<not> is_acct k"
  shows "ledger_wf H (write_leaf k v l)"
  by (rule ledger_wf_keeps [OF keeps_write [OF keeps_refl assms(3,4)] _ assms(1)])
    (use assms in \<open>simp add: ledger_wf_def\<close>)

lemma guardian_freeze_wf:
  assumes "guardian_freeze H bound ts approvers now l = (r, l')" and "ledger_wf H l"
  shows "ledger_wf H l'"
proof -
  obtain es l1 where f: "freeze_each H bound (saturating_add now GUARDIAN_FREEZE_WINDOW_SECONDS) ts
      (guardian_freeze_entries l) l = (es, l1)" by fastforce
  let ?l2 = "set_guardian_freeze_epoch (saturating_add bound 1) (write_guardian_freeze_entries es l1)"
  have "guardian_freeze H bound ts approvers now l \<in> {(False, l), (True, ?l2)}"
    unfolding guardian_freeze_def Let_def f prod.case by simp
  moreover have "ledger_wf H l1"
    by (rule ledger_wf_keeps [OF freeze_each_keeps [OF f keeps_refl] _ assms(2)])
      (use assms(2) freeze_each_sound [OF f] in \<open>simp add: ledger_wf_def\<close>)
  then have "ledger_wf H ?l2"
    by (auto simp: set_guardian_freeze_epoch_def write_guardian_freeze_entries_def neutral_def single_unwatched
        intro!: neutral_wf)
  ultimately show ?thesis
    using assms by auto
qed

lemma guardian_expire_wf:
  assumes "ledger_wf H l"
  shows "ledger_wf H (guardian_expire H now l)"
proof -
  obtain es l1 where e: "expire_each H now (guardian_freeze_entries l) l = (es, l1)" by fastforce
  have "ledger_wf H l1"
    by (rule ledger_wf_keeps [OF expire_each_keeps [OF e keeps_refl] _ assms])
      (use assms expire_each_sound [OF e] in \<open>simp add: ledger_wf_def\<close>)
  then show ?thesis
    using assms
    by (auto simp: guardian_expire_def Let_def e write_guardian_freeze_entries_def neutral_def single_unwatched
        intro!: neutral_wf)
qed

lemma guardian_enact_wf:
  "guardian_enact_bridge_action act n now l = (r, l') \<Longrightarrow> ledger_wf H l \<Longrightarrow> ledger_wf H l'"
  by (auto simp: guardian_enact_bridge_action_def Let_def set_guardian_enact_nonce_def neutral_def single_unwatched
      intro!: neutral_wf split: if_splits)

lemma guardian_apply_due_wf:
  "guardian_apply_due_enact H S now l = Some l' \<Longrightarrow> ledger_wf H l \<Longrightarrow> ledger_wf H l'"
proof -
  assume a: "guardian_apply_due_enact H S now l = Some l'" and wf: "ledger_wf H l"
  have "execute_action H S act now 0 l1 = Some (Inl BadValue)" if "is_anchor_set act" for act l1
    using that by (cases act) (simp_all add: execute_action_def)
  moreover have "ledger_wf H (clear_guardian_pending_enact l)"
    using wf by (auto simp: clear_guardian_pending_enact_def neutral_def single_unwatched intro!: neutral_wf)
  ultimately show ?thesis
    using a wf by (auto simp: guardian_apply_due_enact_def Let_def split: option.splits if_splits sum.splits prod.splits)
qed

lemma issue_asset_wf:
  "issue_asset H issuer h x l = (r, l') \<Longrightarrow> ledger_wf H l \<Longrightarrow> ledger_wf H l'"
  "mint_asset H issuer h x l = (b, l') \<Longrightarrow> ledger_wf H l \<Longrightarrow> ledger_wf H l'"
  by (auto simp: issue_asset_def mint_asset_def credit_asset_def Let_def set_asset_balance_def
      set_asset_supply_def neutral_def watched_def intro!: neutral_wf split: if_splits option.splits)

section \<open>The step relation\<close>

text \<open>
  No key hashes to the address of the bond pot, so no transaction is signed by it: \<open>signer\<close>.  The
  hypothesis of \<open>step_settle\<close> is the room the supply needs for the rewards of one session; \<open>step_env\<close>
  is the block driver, which sets the height, the time and the proposer and clears the events.
\<close>

definition signer :: "hash \<Rightarrow> bytes \<Rightarrow> bool" where
  "signer H a \<longleftrightarrow> state_leaf a \<noteq> state_leaf (bridge_bond_address H)"

inductive ledger_step :: "hash \<Rightarrow> ml_dsa \<Rightarrow> ledger \<Rightarrow> ledger \<Rightarrow> bool" for H S where
  step_env: "store l' = store l \<Longrightarrow> ledger_step H S l l'"
| step_bond: "bond_with_fee H a x fee day l = Some (r, l') \<Longrightarrow> signer H a \<Longrightarrow> ledger_step H S l l'"
| step_claim: "claim_with_fee H a fee day l = Some (r, l') \<Longrightarrow> signer H a \<Longrightarrow> ledger_step H S l l'"
| step_exit: "request_exit_with_fee H a fee day l = Some (r, l') \<Longrightarrow> signer H a \<Longrightarrow> ledger_step H S l l'"
| step_payee: "designate_stake_payee_with_fee H a payee fee l = Some (r, l') \<Longrightarrow> signer H a \<Longrightarrow> ledger_step H S l l'"
| step_withdraw: "withdraw_with_fee H a fee day l = Some (r, l') \<Longrightarrow> signer H a \<Longrightarrow> ledger_step H S l l'"
| step_slash_validator: "slash_validator a l = Some (r, l') \<Longrightarrow> ledger_step H S l l'"
| step_slash_stake: "slash_stake a f l = Some (taken, l') \<Longrightarrow> ledger_step H S l l'"
| step_settle: "settle_session day txs l = Some l' \<Longrightarrow>
    unat (total_supply l) + length (validator_ids l) * 33333333 < 2 ^ 64 \<Longrightarrow> ledger_step H S l l'"
| step_freeze: "bridge_freeze_with_fee H a fee now l = Some (r, l') \<Longrightarrow> signer H a \<Longrightarrow> ledger_step H S l l'"
| step_unfreeze: "bridge_unfreeze_with_fee H a fee now l = Some (r, l') \<Longrightarrow> signer H a \<Longrightarrow> ledger_step H S l l'"
| step_expire: "ledger_step H S l (bridge_expire H now l)"
| step_mint: "bridge_mint dep l = (r, l') \<Longrightarrow> ledger_step H S l l'"
| step_burn: "bridge_burn H c h y dest chain n l = (r, l') \<Longrightarrow> ledger_step H S l l'"
| step_exit_settle: "bridge_settle ack l = (r, l') \<Longrightarrow> ledger_step H S l l'"
| step_exit_slash: "bridge_slash ack l = (r, l') \<Longrightarrow> ledger_step H S l l'"
| step_issue: "issue_asset H issuer h y l = (ro, l') \<Longrightarrow> ledger_step H S l l'"
| step_mint_asset: "mint_asset H issuer h y l = (r, l') \<Longrightarrow> ledger_step H S l l'"
| step_propose: "gov_propose a t act now l = Some (ri, l') \<Longrightarrow> signer H a \<Longrightarrow> ledger_step H S l l'"
| step_vote: "gov_vote a i aye conv x now l = Some (r, l') \<Longrightarrow> signer H a \<Longrightarrow> ledger_step H S l l'"
| step_conclude: "gov_conclude i now l = (st, l') \<Longrightarrow> ledger_step H S l l'"
| step_enact: "gov_enact H S i now chain l = Some (re, l') \<Longrightarrow> ledger_step H S l l'"
| step_release: "gov_release a now l = (x, l') \<Longrightarrow> ledger_step H S l l'"
| step_guardian_freeze: "guardian_freeze H bound ts approvers now l = (r, l') \<Longrightarrow> ledger_step H S l l'"
| step_guardian_expire: "ledger_step H S l (guardian_expire H now l)"
| step_guardian_unfreeze: "guardian_bridge_unfreeze H approvers now l = (r, l') \<Longrightarrow> ledger_step H S l l'"
| step_guardian_enact: "guardian_enact_bridge_action act n now l = (r, l') \<Longrightarrow> ledger_step H S l l'"
| step_guardian_due: "guardian_apply_due_enact H S now l = Some l' \<Longrightarrow> ledger_step H S l l'"

lemma ledger_wf_store:
  assumes "ledger_wf H l" and "store l' = store l"
  shows "ledger_wf H l'"
proof (rule ledger_wf_keeps [OF _ _ assms(1)])
  show "keeps (bridge_bond_address H) True True l l'"
    using assms(2) by (simp add: keeps_def balance_def account_def held_or_def held_def)
  show "sound l' 0 0 0"
    using sound_store [OF assms(2) [symmetric]] assms(1) by (simp add: ledger_wf_def)
qed

lemma wf_sound: "ledger_wf H l \<Longrightarrow> sound l 0 0 0"
  by (simp add: ledger_wf_def)

lemma bond_with_fee_wf: "bond_with_fee H a x fee day l = Some (r, l') \<Longrightarrow> signer H a \<Longrightarrow> ledger_wf H l \<Longrightarrow> ledger_wf H l'"
  by (rule ledger_wf_keeps [OF bond_with_fee_keeps bond_with_fee_sound]) (auto simp: signer_def dest: wf_sound)

lemma claim_with_fee_wf: "claim_with_fee H a fee day l = Some (r, l') \<Longrightarrow> signer H a \<Longrightarrow> ledger_wf H l \<Longrightarrow> ledger_wf H l'"
  by (rule ledger_wf_keeps [OF claim_with_fee_keeps claim_with_fee_sound]) (auto simp: signer_def dest: wf_sound)

lemma request_exit_with_fee_wf: "request_exit_with_fee H a fee day l = Some (r, l') \<Longrightarrow> signer H a \<Longrightarrow> ledger_wf H l \<Longrightarrow> ledger_wf H l'"
  by (rule ledger_wf_keeps [OF request_exit_with_fee_keeps request_exit_with_fee_sound]) (auto simp: signer_def dest: wf_sound)

lemma designate_wf: "designate_stake_payee_with_fee H a payee fee l = Some (r, l') \<Longrightarrow> signer H a \<Longrightarrow> ledger_wf H l \<Longrightarrow> ledger_wf H l'"
  by (rule ledger_wf_keeps [OF designate_keeps designate_stake_payee_sound]) (auto simp: signer_def dest: wf_sound)

lemma withdraw_with_fee_wf: "withdraw_with_fee H a fee day l = Some (r, l') \<Longrightarrow> signer H a \<Longrightarrow> ledger_wf H l \<Longrightarrow> ledger_wf H l'"
  by (rule ledger_wf_keeps [OF withdraw_with_fee_keeps withdraw_with_fee_sound]) (auto simp: signer_def dest: wf_sound)

lemma slash_validator_wf: "slash_validator a l = Some (r, l') \<Longrightarrow> ledger_wf H l \<Longrightarrow> ledger_wf H l'"
  by (rule ledger_wf_keeps [OF slash_validator_keeps slash_validator_sound]) (auto simp: signer_def dest: wf_sound)

lemma slash_stake_wf: "slash_stake a f l = Some (x, l') \<Longrightarrow> ledger_wf H l \<Longrightarrow> ledger_wf H l'"
  by (rule ledger_wf_keeps [OF slash_stake_keeps slash_stake_sound]) (auto simp: signer_def dest: wf_sound)

lemma settle_session_wf:
  assumes "settle_session day txs l = Some l'" and "ledger_wf H l"
    and "unat (total_supply l) + length (validator_ids l) * 33333333 < 2 ^ 64"
  shows "ledger_wf H l'"
  using settle_session_sound [OF assms(1) wf_sound [OF assms(2)] assms(3)]
  by (rule ledger_wf_keeps [OF settle_session_keeps [OF assms(1)] _ assms(2)])

lemma gov_propose_ledger_wf:
  assumes "gov_propose a t act now l = Some (r, l')" and "signer H a" and "ledger_wf H l"
  shows "ledger_wf H l'"
proof (rule ledger_wf_gov [OF _ _ _ assms(3)])
  show "keeps (bridge_bond_address H) True False l l'"
    using assms by (simp add: gov_propose_keeps signer_def)
  show "sound l' 0 0 0" "gov_wf l'"
    using assms gov_propose_sound gov_propose_wf by (auto simp: ledger_wf_def gov_wf_def)
qed

lemma gov_vote_ledger_wf:
  assumes "gov_vote a i aye conv x now l = Some (r, l')" and "signer H a" and "ledger_wf H l"
  shows "ledger_wf H l'"
proof (rule ledger_wf_gov [OF _ _ _ assms(3)])
  show "keeps (bridge_bond_address H) True False l l'"
    using assms by (simp add: gov_vote_keeps signer_def)
  show "sound l' 0 0 0" "gov_wf l'"
    using assms gov_vote_sound gov_vote_wf by (auto simp: ledger_wf_def)
qed

lemma gov_release_ledger_wf:
  assumes "gov_release a now l = (x, l')" and "ledger_wf H l"
  shows "ledger_wf H l'"
proof (rule ledger_wf_gov [OF _ _ _ assms(2)])
  show "keeps (bridge_bond_address H) True False l l'"
    by (rule gov_release_keeps [OF assms(1)])
  show "sound l' 0 0 0" "gov_wf l'"
    using assms gov_release_sound gov_release_wf by (auto simp: ledger_wf_def)
qed

lemma bridge_ops_wf:
  assumes "ledger_wf H l"
  shows "bridge_mint dep l = (r, l') \<Longrightarrow> ledger_wf H l'"
    and "bridge_burn H c h y dest chain n l = (r, l') \<Longrightarrow> ledger_wf H l'"
    and "bridge_settle ack l = (r, l') \<Longrightarrow> ledger_wf H l'"
    and "bridge_slash ack l = (r, l') \<Longrightarrow> ledger_wf H l'"
proof -
  note sound = wf_sound [OF assms]
  have wf: "bridge_wf l" using assms by (simp add: ledger_wf_def)
  show "bridge_mint dep l = (r, l') \<Longrightarrow> ledger_wf H l'"
    using sound wf by (intro ledger_wf_bridge [OF bridge_mint_keeps _ bridge_mint_wf assms])
      (simp_all add: bridge_mint_sound)
  show "bridge_burn H c h y dest chain n l = (r, l') \<Longrightarrow> ledger_wf H l'"
    using sound wf by (intro ledger_wf_bridge [OF bridge_burn_keeps _ bridge_burn_wf assms])
      (simp_all add: bridge_burn_sound)
  show "bridge_settle ack l = (r, l') \<Longrightarrow> ledger_wf H l'"
    using sound wf by (intro ledger_wf_bridge [OF bridge_settle_keeps _ bridge_settle_wf assms])
      (simp_all add: bridge_settle_sound)
  show "bridge_slash ack l = (r, l') \<Longrightarrow> ledger_wf H l'"
    using sound wf by (intro ledger_wf_bridge [OF bridge_slash_keeps _ bridge_slash_wf assms])
      (simp_all add: bridge_slash_sound)
qed

lemma lift_ops_wf:
  assumes "ledger_wf H l"
  shows "ledger_wf H (bridge_expire H now l)"
    and "guardian_bridge_unfreeze H approvers now l = (r, l') \<Longrightarrow> ledger_wf H l'"
  using assms lift_bridge_freeze_wf
  by (auto simp: bridge_expire_def guardian_bridge_unfreeze_def split: option.split if_splits)

lemma ledger_step_wf:
  assumes "ledger_step H S l l'" and "ledger_wf H l"
    and len: "\<And>x. length (H x) = 32" and pots: "H (ascii ''qtv/gov/grants'') \<noteq> H (ascii ''qtv/bridge/bond'')"
  shows "ledger_wf H l'"
proof -
  note wf = assms(2)
  have signer: "signer H a \<Longrightarrow> state_leaf a \<noteq> state_leaf (bridge_bond_address H)" for a
    by (simp add: signer_def)
  from assms(1) show ?thesis
  proof cases
    case step_enact then show ?thesis by (rule gov_enact_wf [of H, OF _ wf len pots])
  next
    case step_freeze then show ?thesis by (rule bridge_freeze_with_fee_wf [OF _ wf signer])
  next
    case step_unfreeze then show ?thesis by (rule bridge_unfreeze_with_fee_wf [OF _ wf signer])
  next
    case step_env then show ?thesis by (rule ledger_wf_store [OF wf])
  next
    case step_bond then show ?thesis by (rule bond_with_fee_wf [OF _ _ wf])
  next
    case step_claim then show ?thesis by (rule claim_with_fee_wf [OF _ _ wf])
  next
    case step_exit then show ?thesis by (rule request_exit_with_fee_wf [OF _ _ wf])
  next
    case step_payee then show ?thesis by (rule designate_wf [OF _ _ wf])
  next
    case step_withdraw then show ?thesis by (rule withdraw_with_fee_wf [OF _ _ wf])
  next
    case step_slash_validator then show ?thesis by (rule slash_validator_wf [OF _ wf])
  next
    case step_slash_stake then show ?thesis by (rule slash_stake_wf [OF _ wf])
  next
    case step_settle then show ?thesis by (rule settle_session_wf [OF _ wf])
  next
    case step_mint then show ?thesis by (rule bridge_ops_wf(1) [OF wf])
  next
    case step_burn then show ?thesis by (rule bridge_ops_wf(2) [OF wf])
  next
    case step_exit_settle then show ?thesis by (rule bridge_ops_wf(3) [OF wf])
  next
    case step_exit_slash then show ?thesis by (rule bridge_ops_wf(4) [OF wf])
  next
    case step_issue then show ?thesis by (rule issue_asset_wf(1) [OF _ wf])
  next
    case step_mint_asset then show ?thesis by (rule issue_asset_wf(2) [OF _ wf])
  next
    case step_propose then show ?thesis by (rule gov_propose_ledger_wf [OF _ _ wf])
  next
    case step_vote then show ?thesis by (rule gov_vote_ledger_wf [OF _ _ wf])
  next
    case step_conclude then show ?thesis by (rule gov_conclude_ledger_wf [OF _ wf])
  next
    case step_release then show ?thesis by (rule gov_release_ledger_wf [OF _ wf])
  next
    case step_guardian_freeze then show ?thesis by (rule guardian_freeze_wf [OF _ wf])
  next
    case step_guardian_unfreeze then show ?thesis by (rule lift_ops_wf(2) [OF wf])
  next
    case step_guardian_enact then show ?thesis by (rule guardian_enact_wf [OF _ wf])
  next
    case step_guardian_due then show ?thesis by (rule guardian_apply_due_wf [OF _ wf])
  qed (use lift_ops_wf(1) [OF wf] guardian_expire_wf [OF wf] in simp_all)
qed

end
