(* ===== verification/LedgerRuns.thy ===== *)
theory LedgerRuns
  imports LedgerSteps
begin

text \<open>
  Runs of the ledger.  The claims say what holds in every state that a run of \<open>ledger_step\<close> reaches:
  native value, stake, locks and bridged assets are conserved, a deposit is minted once and an exit
  is paid once.
\<close>

abbreviation ledger_run :: "hash \<Rightarrow> ml_dsa \<Rightarrow> ledger \<Rightarrow> ledger \<Rightarrow> bool" where
  "ledger_run H S \<equiv> (ledger_step H S)\<^sup>*\<^sup>*"

lemma ledger_run_wf:
  assumes "ledger_run H S l l'" and "ledger_wf H l"
    and "\<And>x. length (H x) = 32" and "H (ascii ''qtv/gov/grants'') \<noteq> H (ascii ''qtv/bridge/bond'')"
  shows "ledger_wf H l'"
  using assms(1,2) by (induction rule: rtranclp_induct) (use ledger_step_wf [of H, OF _ _ assms(3,4)] in blast)+

section \<open>Spent references\<close>

definition remembers :: "ledger \<Rightarrow> ledger \<Rightarrow> bool" where
  "remembers l l' \<longleftrightarrow>
     (\<forall>c r. bridge_reference_seen c r l \<longrightarrow> bridge_reference_seen c r l') \<and>
     (\<forall>e. bridge_exit_settled e l \<longrightarrow> bridge_exit_settled e l')"

lemma remembers_refl [simp, intro]: "remembers l l"
  by (simp add: remembers_def)

lemma remembers_trans: "remembers l l' \<Longrightarrow> remembers l' l'' \<Longrightarrow> remembers l l''"
  by (simp add: remembers_def)

lemma remembers_store: "store l' = store l \<Longrightarrow> remembers l l'"
  by (simp add: remembers_def bridge_reference_seen_def bridge_exit_settled_def marked_def)

lemma remembers_keeps:
  assumes "keeps p True g l l'"
  shows "remembers l l'"
proof -
  have "peek l' (BridgeSeen c r) = peek l (BridgeSeen c r)" "peek l' (BridgeExitSeen r) = peek l (BridgeExitSeen r)" for c r
    using assms by (simp_all add: keeps_def watched_def)
  then show ?thesis
    by (simp add: remembers_def bridge_reference_seen_def bridge_exit_settled_def marked_def)
qed

lemma remembers_write:
  assumes "remembers l l'" and "\<And>c r. k \<noteq> BridgeSeen c r" and "\<And>e. k \<noteq> BridgeExitSeen e"
  shows "remembers l (write_leaf k v l')"
  using assms by (auto simp: remembers_def bridge_reference_seen_def bridge_exit_settled_def marked_def)

lemma remembers_account [intro]: "remembers l l' \<Longrightarrow> remembers l (set_account a x l')"
  unfolding set_account_def
  by (erule remembers_write) (auto simp: state_leaf_def split: sum.splits)

lemma remembers_events [simp]:
  "remembers l (record_side_event e l') \<longleftrightarrow> remembers l l'"
  "remembers l (record_native_event kind dat l') \<longleftrightarrow> remembers l l'"
  by (simp_all add: remembers_def bridge_reference_seen_def bridge_exit_settled_def marked_def)

lemma remembers_lift: "remembers l l' \<Longrightarrow> remembers l (lift_bridge_freeze H now outcome l')"
  by (auto simp: lift_bridge_freeze_def Let_def plain_writes stake_writes
      intro!: remembers_write remembers_account split: option.split freeze_lift.split)

lemma remembers_freeze:
  assumes "bridge_freeze_with_fee H a fee now l = Some (r, l')" and "signer H a"
  shows "remembers l l'"
  using assms remembers_keeps [OF keeps_pay [of H a _ fee l _ "bridge_bond_address H"]]
  by (auto simp: bridge_freeze_with_fee_def Let_def set_bridge_freeze_def signer_def
      intro!: remembers_write remembers_account split: option.splits if_splits bind_splits)

lemma remembers_unfreeze:
  assumes "bridge_unfreeze_with_fee H a fee now l = Some (r, l')" and "signer H a"
  shows "remembers l l'"
  using assms remembers_keeps [OF keeps_pay [of H a fee fee l _ "bridge_bond_address H"]]
  by (auto simp: bridge_unfreeze_with_fee_def Let_def signer_def
      intro!: remembers_lift split: option.splits if_splits bind_splits)

lemma remembers_migrate_each: "remembers l l' \<Longrightarrow> remembers l (migrate_each u v as l')"
  by (induction as arbitrary: l') (auto simp: Let_def set_bridge_vault_custody_def intro!: remembers_write)

lemma remembers_migrate: "migrate_bridge vault l = Inr l' \<Longrightarrow> remembers l l'"
  by (auto simp: migrate_bridge_def Let_def set_bridge_pool_vault_def
      intro!: remembers_write remembers_migrate_each split: if_splits option.splits)

lemma remembers_register: "remembers l (register_bridged_asset a cap epoch_cap stark l)"
  by (auto simp: register_bridged_asset_def Let_def record_bridge_asset_id_def set_bridged_asset_def
      intro!: remembers_write)

lemma execute_action_remembers:
  assumes "execute_action H S act now chain l = Some (Inr l')"
    and "\<And>x. length (H x) = 32" and "H (ascii ''qtv/gov/grants'') \<noteq> H (ascii ''qtv/bridge/bond'')"
    and "\<And>scope victim zs z. act = Act_FreezeRecovery scope victim zs \<Longrightarrow> z \<in> set zs \<Longrightarrow>
      \<not> is_protected_account H (seizure_from z)"
  shows "remembers l l'"
proof -
  let ?p = "bridge_bond_address H"
  consider "plain_action act" | to x where "act = Act_Mint to x" | f to x where "act = Spend f to x"
    | sc v zs where "act = Act_FreezeRecovery sc v zs" | "act = BridgeUnfreeze"
    | v where "act = Act_BridgeMigration v" | a c e st where "act = AssetRegister a c e st"
    by (cases act) auto
  then show ?thesis
  proof cases
    case 1
    then show ?thesis by (rule remembers_keeps [OF plain_action_keeps [OF assms(1)]])
  next
    case 2
    with assms(1) show ?thesis by (blast intro: remembers_keeps mint_action_keeps)
  next
    case 3
    then have "spend H f to x l = Inr l'"
      using assms(1) by (simp add: execute_action_def)
    then have "keeps ?p True True l l'"
      using grants_not_bond [of H, OF assms(2,3)] by (rule spend_keeps)
    then show ?thesis
      by (rule remembers_keeps)
  next
    case 4
    then have rec: "recover sc v zs l = Inr l'"
      using assms(1) by (simp add: execute_action_def)
    have "keeps ?p True False l l'"
      by (rule recover_keeps [OF rec]) (use 4 assms(4) seizure_spares_pot [of H, OF assms(2)] in blast)
    then show ?thesis
      by (rule remembers_keeps)
  next
    case 5
    with assms(1) show ?thesis
      by (auto simp: execute_action_def gov_unfreeze_bridge_def remembers_lift split: if_splits)
  next
    case 6
    with assms(1) show ?thesis
      by (simp add: execute_action_def remembers_migrate)
  next
    case 7
    with assms(1) show ?thesis
      by (auto simp: execute_action_def remembers_register split: if_splits)
  qed
qed

lemma gov_enact_remembers:
  assumes "gov_enact H S i now chain l = Some (r, l')"
    and "\<And>x. length (H x) = 32" and "H (ascii ''qtv/gov/grants'') \<noteq> H (ascii ''qtv/bridge/bond'')"
  shows "remembers l l'"
  using assms(1)
proof (cases rule: gov_enactE)
  case (1 s l1)
  with remembers_keeps [OF gov_conclude_keeps [OF 1(1)]] show ?thesis by simp
next
  case (2 s l1)
  with remembers_keeps [OF gov_conclude_keeps [OF 2(1)]] show ?thesis
    by (auto simp: clear_gov_action_def intro: remembers_write)
next
  case (3 l1 act x l2)
  have "remembers l1 l2"
    by (rule execute_action_remembers [of H, OF 3(7) assms(2,3)]) (use protected_free [OF 3(6)] in blast)
  with 3 remembers_keeps [OF gov_conclude_keeps [OF 3(1)]] show ?thesis
    by (auto simp: record_enactment_def Let_def clear_gov_action_def set_gov_receipt_def
        intro!: remembers_write intro: remembers_trans)
qed

lemma guardian_remembers:
  "guardian_freeze H bound ts approvers now l = (r, l') \<Longrightarrow> remembers l l'"
  "remembers l (guardian_expire H now l)"
  "guardian_enact_bridge_action act n now l = (r, l') \<Longrightarrow> remembers l l'"
  "guardian_apply_due_enact H S now l = Some l' \<Longrightarrow> remembers l l'"
proof -
  obtain es l1 where f: "freeze_each H bound (saturating_add now GUARDIAN_FREEZE_WINDOW_SECONDS) ts
      (guardian_freeze_entries l) l = (es, l1)" by fastforce
  have "guardian_freeze H bound ts approvers now l \<in> {(False, l), (True,
      set_guardian_freeze_epoch (saturating_add bound 1) (write_guardian_freeze_entries es l1))}"
    unfolding guardian_freeze_def Let_def f prod.case by simp
  with remembers_keeps [OF freeze_each_keeps [OF f keeps_refl]]
  show "guardian_freeze H bound ts approvers now l = (r, l') \<Longrightarrow> remembers l l'"
    by (auto simp: set_guardian_freeze_epoch_def write_guardian_freeze_entries_def intro!: remembers_write)
  obtain es' l2 where e: "expire_each H now (guardian_freeze_entries l) l = (es', l2)" by fastforce
  show "remembers l (guardian_expire H now l)"
    using remembers_keeps [OF expire_each_keeps [OF e keeps_refl]]
    by (auto simp: guardian_expire_def Let_def e write_guardian_freeze_entries_def intro!: remembers_write)
  show "guardian_enact_bridge_action act n now l = (r, l') \<Longrightarrow> remembers l l'"
    by (auto simp: guardian_enact_bridge_action_def Let_def set_guardian_enact_nonce_def
        intro!: remembers_write split: if_splits)
  have "execute_action H S act now 0 l1 = Some (Inl BadValue)" if "is_anchor_set act" for act l1
    using that by (cases act) (simp_all add: execute_action_def)
  moreover have "remembers l (clear_guardian_pending_enact l)"
    by (auto simp: clear_guardian_pending_enact_def intro!: remembers_write)
  ultimately show "guardian_apply_due_enact H S now l = Some l' \<Longrightarrow> remembers l l'"
    by (auto simp: guardian_apply_due_enact_def Let_def split: option.splits if_splits sum.splits prod.splits)
qed

lemma bridge_ops_remember:
  "bridge_mint dep l = (r, l') \<Longrightarrow> remembers l l'"
  "bridge_burn H c h y dest chain n l = (r, l') \<Longrightarrow> remembers l l'"
  "bridge_settle ack l = (r, l') \<Longrightarrow> remembers l l'"
  "bridge_slash ack l = (r, l') \<Longrightarrow> remembers l l'"
  by (simp_all add: remembers_def bridge_mint_once(1,2) bridge_burn_once bridge_settle_once(1,2) bridge_slash_once(1,2))

lemma asset_ops_remember:
  "issue_asset H issuer h x l = (ro, l') \<Longrightarrow> remembers l l'"
  "mint_asset H issuer h x l = (r, l') \<Longrightarrow> remembers l l'"
  by (auto simp: issue_asset_def mint_asset_def credit_asset_def Let_def set_asset_balance_def
      set_asset_supply_def intro!: remembers_write split: if_splits option.splits)

lemma ledger_step_remembers:
  assumes "ledger_step H S l l'"
    and len: "\<And>x. length (H x) = 32" and pots: "H (ascii ''qtv/gov/grants'') \<noteq> H (ascii ''qtv/bridge/bond'')"
  shows "remembers l l'"
proof -
  let ?p = "bridge_bond_address H"
  have signer: "signer H a \<Longrightarrow> state_leaf a \<noteq> state_leaf ?p" for a
    by (simp add: signer_def)
  note kept = remembers_keeps [where p = ?p and g = True]
  note kept_gov = remembers_keeps [where p = ?p and g = False]
  from assms(1) show ?thesis
  proof cases
    case step_env then show ?thesis by (rule remembers_store)
  next
    case step_bond then show ?thesis by (intro kept bond_with_fee_keeps signer)
  next
    case step_claim then show ?thesis by (intro kept claim_with_fee_keeps signer)
  next
    case step_exit then show ?thesis by (intro kept request_exit_with_fee_keeps signer)
  next
    case step_payee then show ?thesis by (intro kept designate_keeps signer)
  next
    case step_withdraw then show ?thesis by (intro kept withdraw_with_fee_keeps signer)
  next
    case step_slash_validator then show ?thesis by (intro kept slash_validator_keeps)
  next
    case step_slash_stake then show ?thesis by (intro kept slash_stake_keeps)
  next
    case step_settle then show ?thesis by (intro kept settle_session_keeps)
  next
    case step_freeze then show ?thesis by (rule remembers_freeze)
  next
    case step_unfreeze then show ?thesis by (rule remembers_unfreeze)
  next
    case step_mint then show ?thesis by (rule bridge_ops_remember)
  next
    case step_burn then show ?thesis by (rule bridge_ops_remember)
  next
    case step_exit_settle then show ?thesis by (rule bridge_ops_remember)
  next
    case step_exit_slash then show ?thesis by (rule bridge_ops_remember)
  next
    case step_issue then show ?thesis by (rule asset_ops_remember)
  next
    case step_mint_asset then show ?thesis by (rule asset_ops_remember)
  next
    case step_propose then show ?thesis by (intro kept_gov gov_propose_keeps signer)
  next
    case step_vote then show ?thesis by (intro kept_gov gov_vote_keeps signer)
  next
    case step_conclude then show ?thesis by (intro kept_gov gov_conclude_keeps)
  next
    case step_enact then show ?thesis by (rule gov_enact_remembers [of H, OF _ len pots])
  next
    case step_release then show ?thesis by (intro kept_gov gov_release_keeps)
  next
    case step_guardian_freeze then show ?thesis by (rule guardian_remembers)
  next
    case step_guardian_unfreeze
    then show ?thesis by (auto simp: guardian_bridge_unfreeze_def intro!: remembers_lift split: if_splits)
  next
    case step_guardian_enact then show ?thesis by (rule guardian_remembers)
  next
    case step_guardian_due then show ?thesis by (rule guardian_remembers)
  qed (auto simp: bridge_expire_def guardian_remembers intro!: remembers_lift split: option.split)
qed

lemma ledger_run_remembers:
  assumes "ledger_run H S l l'"
    and "\<And>x. length (H x) = 32" and "H (ascii ''qtv/gov/grants'') \<noteq> H (ascii ''qtv/bridge/bond'')"
  shows "remembers l l'"
  using assms(1) by (induction rule: rtranclp_induct)
    (auto intro: remembers_trans ledger_step_remembers [of H, OF _ assms(2,3)])

section \<open>A ledger with a registered asset\<close>

lemma ledger_new_wf: "ledger_wf H ledger_new"
  by (simp add: ledger_wf_def sound_def balanced_def holdings_def staked_sum_def books_open_def gov_wf_def
      locked_sum_def escrow_def gov_referendum_def bridge_wf_def backed_def holders_def exits_due_def in_custody_def
      bridge_asset_ids_def bridged_asset_def bridged_supply_def bond_kept_def bridge_freeze_def
      total_supply_def total_staked_def gov_total_locked_def held_or_def held_def ledger_new_def)

text \<open>The witnesses below use a hash that pads or cuts its input, and a ledger with one asset and a vault.\<close>

definition pad32 :: hash where
  "pad32 x = take 32 (x @ replicate 32 0)"

lemma pad32_length [simp]: "length (pad32 x) = 32"
  by (simp add: pad32_def)

lemma pad32_pots: "pad32 (ascii ''qtv/gov/grants'') \<noteq> pad32 (ascii ''qtv/bridge/bond'')"
  by code_simp

definition demo_vault :: bytes where "demo_vault = replicate 32 1"
definition demo_asset :: bytes where "demo_asset = replicate 32 2"

definition demo_ledger :: ledger where
  "demo_ledger = set_bridge_exits_enabled True
     (set_bridge_pool_vault demo_vault (register_bridged_asset demo_asset 100 50 False ledger_new))"

definition demo_deposit :: fact where
  "demo_deposit = \<lparr>fact_version = 1, source_chain = 7, fact_dest_chain = 9, route_id = 1,
     fact_direction = Deposit, fact_nonce = 0, source_ref = replicate 32 3, fact_asset_id = demo_asset,
     fact_amount = 30, fact_recipient = replicate 32 4, finality_depth = 1, observed_height = 0,
     expiry_height = 5\<rparr>"

lemma demo_wf: "ledger_wf pad32 demo_ledger"
proof -
  have "ledger_wf pad32 (register_bridged_asset demo_asset 100 50 False ledger_new)" (is "ledger_wf _ ?l")
    by (intro register_ledger_wf ledger_new_wf)
  moreover have "backed a (set_bridge_pool_vault demo_vault ?l)" for a
    by (simp add: backed_def holders_def exits_due_def in_custody_def bridge_readers
        set_bridge_pool_vault_def register_bridged_asset_def record_bridge_asset_id_def set_bridged_asset_def
        bridge_asset_ids_def Let_def fm_sum_upd_eq fm_at_upd holder_value_def exit_value_def held_or_def held_def
        ledger_new_def demo_vault_def KEY_LEN_def write_leaf_def)
  ultimately have "bridge_wf (set_bridge_pool_vault demo_vault ?l)"
    by (simp add: bridge_wf_def ledger_wf_def exits_other set_bridge_pool_vault_def bridge_asset_ids_def
        bridged_asset_def)
  with \<open>ledger_wf pad32 ?l\<close> show ?thesis
    by (simp add: demo_ledger_def ledger_wf_def set_bridge_exits_enabled_def set_bridge_pool_vault_def
        gov_wf_write bridge_wf_write sound_neutral_write neutral_def bond_kept_def bridge_freeze_def balance_write
        cong: option.case_cong)
qed

lemma demo_mints: "\<exists>l'. bridge_mint demo_deposit demo_ledger = (True, l')"
proof -
  have "bridge_mint_would_apply demo_deposit demo_ledger"
    by (simp add: bridge_mint_would_apply_def demo_deposit_def demo_ledger_def demo_vault_def
        register_bridged_asset_def record_bridge_asset_id_def set_bridged_asset_def set_bridge_pool_vault_def
        set_bridge_exits_enabled_def bridge_asset_ids_def bridge_readers bridge_epoch_minted_def bridge_epoch_def
        bridge_reference_seen_def marked_def held_or_def held_def ledger_new_def Let_def KEY_LEN_def
        checked_add_def)
  then show ?thesis
    using bridge_mint_applies [of demo_deposit demo_ledger] by (metis prod.collapse)
qed

section \<open>Claims\<close>



text \<open>
  C26: In every state a run reaches, the balances of each bridged asset add up to its supply, and the
  vault holds at least the supply and every exit that is burnt but not yet settled or slashed; so the
  reserve check of the node never fails.
\<close>

theorem bridged_assets_backed:
  assumes "\<And>x. length (H x) = 32" and "H (ascii ''qtv/gov/grants'') \<noteq> H (ascii ''qtv/bridge/bond'')"
    and "ledger_wf H l" and "ledger_run H S l l'"
  shows "holders a l' = unat (bridged_supply a l') \<and>
    unat (bridged_supply a l') + exits_due a l' \<le> in_custody a l' \<and> bridge_reserves_conserved a l'"
proof -
  have "backed a l'"
    using ledger_run_wf [of H, OF assms(4,3,1,2)] by (simp add: ledger_wf_def bridge_wf_def)
  then show ?thesis
    by (auto simp: backed_def bridge_reserves_conserved_def bridge_reserve_state_def in_custody_def
        word_le_nat_alt unat_eq_0 split: option.splits)
qed

theorem bridged_assets_backed_witness:
  "bridge_reserves_conserved demo_asset (snd (bridge_mint demo_deposit demo_ledger)) \<and>
   fst (bridge_mint demo_deposit demo_ledger)"
proof -
  have run: "ledger_run pad32 S demo_ledger (snd (bridge_mint demo_deposit demo_ledger))" for S
    by (rule r_into_rtranclp, rule step_mint, rule surjective_pairing)
  show ?thesis
    using bridged_assets_backed [of pad32, OF pad32_length pad32_pots demo_wf run] demo_mints by auto
qed

text \<open>
  C27: A deposit is minted at most once.  After a mint for a source reference, whatever happens next,
  no deposit with that source chain and reference is minted again, and the attempt changes nothing.
\<close>

theorem deposit_minted_once:
  assumes "\<And>x. length (H x) = 32" and "H (ascii ''qtv/gov/grants'') \<noteq> H (ascii ''qtv/bridge/bond'')"
    and "bridge_mint f l = (True, l1)" and "ledger_run H S l1 l2"
    and "source_chain g = source_chain f" and "source_ref g = source_ref f"
  shows "bridge_mint g l2 = (False, l2)"
proof -
  have "bridge_reference_seen (source_chain f) (source_ref f) l1"
    by (simp add: bridge_mint_once(1) [OF assms(3)])
  then have seen: "bridge_reference_seen (source_chain g) (source_ref g) l2"
    using ledger_run_remembers [of H, OF assms(4,1,2)] assms(5,6) by (simp add: remembers_def)
  obtain b l3 where r: "bridge_mint g l2 = (b, l3)" by fastforce
  with bridge_mint_once(3) [OF r seen] bridge_mint_False [of g l2 l3] show ?thesis
    by simp
qed

theorem deposit_minted_once_witness:
  "fst (bridge_mint demo_deposit demo_ledger) \<and>
   bridge_mint demo_deposit (bridge_expire pad32 99 (snd (bridge_mint demo_deposit demo_ledger))) =
     (False, bridge_expire pad32 99 (snd (bridge_mint demo_deposit demo_ledger)))"
proof -
  obtain l1 where m: "bridge_mint demo_deposit demo_ledger = (True, l1)"
    using demo_mints by blast
  have run: "ledger_run pad32 S l1 (bridge_expire pad32 99 l1)" for S
    by (rule r_into_rtranclp, rule step_expire)
  show ?thesis
    using m deposit_minted_once [of pad32, OF pad32_length pad32_pots m run refl refl] by simp
qed

text \<open>
  C28: An exit is paid at most once.  After an exit is settled or slashed, whatever happens next, no
  exit with the same burn reference is settled or slashed again.
\<close>

theorem exit_paid_once:
  assumes "\<And>x. length (H x) = 32" and "H (ascii ''qtv/gov/grants'') \<noteq> H (ascii ''qtv/bridge/bond'')"
    and "bridge_settle f l = (True, l1) \<or> bridge_slash f l = (True, l1)" and "ledger_run H S l1 l2"
    and "burn_ref g = burn_ref f"
  shows "bridge_settle g l2 = (False, l2) \<and> bridge_slash g l2 = (False, l2)"
proof -
  have "bridge_exit_settled (burn_ref f) l1"
    using assms(3) by (auto simp: bridge_settle_once(2) bridge_slash_once(2))
  then have gone: "bridge_exit_settled (burn_ref g) l2"
    using ledger_run_remembers [of H, OF assms(4,1,2)] assms(5) by (simp add: remembers_def)
  obtain b l3 where s: "bridge_settle g l2 = (b, l3)" by fastforce
  obtain c l4 where t: "bridge_slash g l2 = (c, l4)" by fastforce
  show ?thesis
    using s t bridge_settle_once(3) [OF s gone] bridge_slash_once(3) [OF t gone]
      bridge_settle_False [of g l2 l3] bridge_slash_False [of g l2 l4] by simp
qed

definition demo_burnt :: ledger where
  "demo_burnt = set_bridge_vault_custody demo_vault demo_asset 10
     (record_outstanding_burn (replicate 32 6) demo_asset 10 (replicate 32 4) [5] demo_ledger)"

definition demo_exit :: exit_fact where
  "demo_exit = \<lparr>exit_version = 1, corridor = 7, exit_dest_chain = 7, exit_asset_id = demo_asset,
     exit_amount = 10, exit_holder = replicate 32 4, exit_destination = [5],
     burn_ref = replicate 32 6, exit_outcome = Settle\<rparr>"

lemma demo_settles: "\<exists>l'. bridge_settle demo_exit demo_burnt = (True, l')"
  by (simp add: bridge_settle_def demo_exit_def demo_burnt_def demo_ledger_def demo_vault_def
      register_bridged_asset_def record_bridge_asset_id_def set_bridged_asset_def set_bridge_pool_vault_def
      set_bridge_exits_enabled_def bridge_asset_ids_def bridge_readers bridge_exit_settled_def
      bridge_exits_enabled_def bridge_is_frozen_def bridge_freeze_def outstanding_burn_matches_def
      record_outstanding_burn_def set_bridge_vault_custody_def marked_def held_or_def held_def ledger_new_def
      Let_def KEY_LEN_def checked_sub_def)

theorem exit_paid_once_witness:
  "fst (bridge_settle demo_exit demo_burnt) \<and>
   \<not> fst (bridge_slash demo_exit (bridge_expire pad32 99 (snd (bridge_settle demo_exit demo_burnt))))"
proof -
  obtain l1 where m: "bridge_settle demo_exit demo_burnt = (True, l1)"
    using demo_settles by blast
  have run: "ledger_run pad32 S l1 (bridge_expire pad32 99 l1)" for S
    by (rule r_into_rtranclp, rule step_expire)
  show ?thesis
    using m exit_paid_once [of pad32, OF pad32_length pad32_pots disjI1 [OF m] run refl] by simp
qed

end
