(* ===== verification/LedgerService.thy ===== *)
theory LedgerService
  imports LedgerRuns
begin

text \<open>
  What the ledger owes its users: the admission checks a node runs before a transaction enters a block
  predict what the transaction does, and a validator that asked to leave is paid.
\<close>

section \<open>Paying never fails\<close>

lemma pay_defined:
  assumes "nonce address l \<noteq> - 1"
  obtains l' where "pay H address debit fee l = Some l'"
proof -
  let ?a = "account address l"
  have "unat (account_nonce ?a) + 1 < 2 ^ 64"
    using assms u64_less [of "account_nonce ?a"] unat_max_word [where 'a = 64]
    by (auto simp: nonce_def word_unat_eq_iff)
  then obtain n where n: "checked_add (account_nonce ?a) 1 = Some n"
    by (auto simp: checked_add_def)
  obtain s where "fee_split_of fee = Some s"
    by (rule fee_split_exact)
  with n show thesis
    by (cases "fee = 0") (auto simp: pay_def Let_def collect_fee_def intro: that)
qed

lemma pay_held:
  assumes "pay H a debit fee l = Some l'" and "\<not> is_acct k" and "k \<noteq> Single Supply"
  shows "held l' k r = held l k r" "marked l' k = marked l k"
  using fee_frame_pay [OF assms(1)] assms(2,3) by (simp_all add: held_frame marked_frame)

lemma pay_stake:
  assumes "pay H a debit fee l = Some l'"
  shows "stake_bond i l' = stake_bond i l" "gov_lock i l' = gov_lock i l" "stake_payee i l' = stake_payee i l"
    "exit_ready i day l' = exit_ready i day l" "ready_bond i day l' = ready_bond i day l"
    "bridge_freeze l' = bridge_freeze l"
  by (simp_all add: stake_bond_def gov_lock_def stake_payee_def exit_ready_def ready_bond_def exit_vote_locked_def
      bridge_freeze_def pay_held [OF assms])

section \<open>Admission\<close>

text \<open>\<open>decided r ok l\<close>: an operation returned \<open>ok\<close>, and without effect unless \<open>ok\<close>.\<close>

definition decided :: "(bool \<times> ledger) option \<Rightarrow> bool \<Rightarrow> ledger \<Rightarrow> bool" where
  "decided r ok l \<longleftrightarrow> (case r of Some (b, l') \<Rightarrow> b = ok \<and> (\<not> ok \<longrightarrow> l' = l) | None \<Rightarrow> False)"

lemma decided_simps [simp]:
  "decided (Some (b, l')) ok l \<longleftrightarrow> b = ok \<and> (\<not> ok \<longrightarrow> l' = l)" "\<not> decided None ok l"
  by (simp_all add: decided_def)

lemma bond_predicted:
  assumes "nonce a l \<noteq> - 1"
  shows "decided (bond_with_fee H a x fee day l) (bond_admissible a x fee l) l"
proof -
  have p: "pay H a debit fee l = None \<longleftrightarrow> False" for debit
    by (rule pay_defined [OF assms, of H debit fee]) simp
  show ?thesis
    by (auto simp: bond_with_fee_def bond_admissible_def Let_def p split: option.split bind_split)
qed

lemma request_exit_predicted:
  assumes "nonce a l \<noteq> - 1"
  shows "decided (request_exit_with_fee H a fee day l) (request_exit_admissible a fee day l) l"
proof -
  obtain l1 where p: "pay H a fee fee l = Some l1"
    using pay_defined [OF assms] .
  have "decided (Some (request_stake_exit a day l1)) True l" if "address_id a = Some i" and "exit_ready i day l" for i
    using that pay_stake [OF p]
    by (auto simp: request_stake_exit_def exit_ready_def request_exit_at_def exit_vote_locked_def
        split: option.splits)
  then show ?thesis
    by (auto simp: request_exit_with_fee_def request_exit_admissible_def p not_less split: option.split)
qed

lemma withdraw_paid:
  assumes "pay H a fee fee l = Some l1" and "address_id a = Some i" and "ready_bond i day l = Some (Some b)"
  obtains l' where "withdraw_stake a day l1 = Some (True, l')" "stake_bond i l' = None"
    "balance (case Option.bind (stake_payee i l) id_bytes_to_address of Some p \<Rightarrow> p | None \<Rightarrow> a) l' =
     saturating_add (balance (case Option.bind (stake_payee i l) id_bytes_to_address of Some p \<Rightarrow> p | None \<Rightarrow> a) l1)
       (bond_amount b)"
proof -
  let ?l2 = "debit_staked (bond_amount b) (clear_stake_bond i l1)"
  have l2: "stake_payee i ?l2 = stake_payee i l" "account p ?l2 = account p l1" "stake_bond i ?l2 = None" for p
    using pay_stake(3) [OF assms(1)]
    by (simp_all add: debit_staked_def clear_stake_bond_def set_total_staked_def set_total_staked_active_def
        stake_payee_def stake_bond_def account_def held_def Let_def)
  obtain l' where "l' = record_side_event (Unbond a (bond_amount b)) (record_unbond_event a (bond_amount b)
      (let p = case Option.bind (stake_payee i l) id_bytes_to_address of Some p \<Rightarrow> p | None \<Rightarrow> a in
       set_account p ((account p l1)\<lparr>account_balance :=
         saturating_add (account_balance (account p l1)) (bond_amount b)\<rparr>) ?l2))"
    by simp
  then show thesis
    using l2 by (intro that [of l'])
      (simp_all add: withdraw_stake_def assms pay_stake(5) [OF assms(1)] Let_def balance_def
        stake_bond_def held_def event_defs set_account_def account_def)
qed

lemma withdraw_predicted:
  assumes "nonce a l \<noteq> - 1" and "withdraw_admissible a fee day l = Some ok"
  shows "decided (withdraw_with_fee H a fee day l) ok l"
proof (cases "address_id a")
  case (Some i)
  obtain l1 where p: "pay H a fee fee l = Some l1"
    using pay_defined [OF assms(1)] .
  from Some assms(2) obtain r where r: "ready_bond i day l = Some r"
    by (auto simp: withdraw_admissible_def split: bind_splits)
  show ?thesis
  proof (cases r)
    case None
    with Some r assms(2) show ?thesis
      by (auto simp: withdraw_admissible_def withdraw_with_fee_def)
  next
    case (Some b)
    obtain l2 where "withdraw_stake a day l1 = Some (True, l2)"
      by (rule withdraw_paid [OF p \<open>address_id a = Some i\<close>]) (use r Some in auto)
    with r Some \<open>address_id a = Some i\<close> assms(2) p show ?thesis
      by (cases "account_balance (account a l) < fee")
        (auto simp: withdraw_admissible_def withdraw_with_fee_def)
  qed
qed (use assms in \<open>auto simp: withdraw_admissible_def withdraw_with_fee_def\<close>)

lemma freeze_predicted:
  assumes "nonce a l \<noteq> - 1"
  shows "decided (bridge_freeze_with_fee H a fee now l) (bridge_freeze_admissible a fee now l) l"
    and "decided (bridge_unfreeze_with_fee H a fee now l) (bridge_unfreeze_admissible a fee l) l"
proof -
  have p: "pay H a debit fee l = None \<longleftrightarrow> False" for debit
    by (rule pay_defined [OF assms, of H debit fee]) simp
  show "decided (bridge_freeze_with_fee H a fee now l) (bridge_freeze_admissible a fee now l) l"
    by (auto simp: bridge_freeze_with_fee_def bridge_freeze_admissible_def Let_def p not_less not_le
        split: option.split bind_split)
  show "decided (bridge_unfreeze_with_fee H a fee now l) (bridge_unfreeze_admissible a fee l) l"
    by (auto simp: bridge_unfreeze_with_fee_def bridge_unfreeze_admissible_def Let_def p not_less not_le
        split: option.split bind_split)
qed

section \<open>Leaving\<close>

lemma exit_requested:
  assumes "address_id a = Some i" and "request_exit_with_fee H a fee day l = Some (True, l1)"
  obtains b where "stake_bond i l1 = Some b" "exit_requested_at b = Some day"
  using assms
  by (auto simp: request_exit_with_fee_def request_stake_exit_def request_exit_at_def set_stake_bond_def
      stake_bond_def held_def split: if_splits bind_splits option.splits prod.splits bool.splits)

abbreviation paid_to :: "bytes \<Rightarrow> bytes \<Rightarrow> ledger \<Rightarrow> bytes" where
  "paid_to i a l \<equiv> (case Option.bind (stake_payee i l) id_bytes_to_address of Some p \<Rightarrow> p | None \<Rightarrow> a)"

section \<open>Claims\<close>

text \<open>
  C29: The admission checks of the mempool predict the ledger.  For an account whose nonce can still
  advance, bonding, asking to leave, withdrawing, freezing and unfreezing the bridge return exactly
  what their admission check said, never panic, and leave the ledger as it was when refused.
\<close>

theorem admission_predicts:
  assumes "nonce a l \<noteq> - 1"
  shows "decided (bond_with_fee H a x fee day l) (bond_admissible a x fee l) l \<and>
    decided (request_exit_with_fee H a fee day l) (request_exit_admissible a fee day l) l \<and>
    (withdraw_admissible a fee day l = Some ok \<longrightarrow> decided (withdraw_with_fee H a fee day l) ok l) \<and>
    decided (bridge_freeze_with_fee H a fee now l) (bridge_freeze_admissible a fee now l) l \<and>
    decided (bridge_unfreeze_with_fee H a fee now l) (bridge_unfreeze_admissible a fee l) l"
  by (simp add: bond_predicted [OF assms] request_exit_predicted [OF assms] withdraw_predicted [OF assms]
      freeze_predicted [OF assms])

definition demo_id :: bytes where "demo_id = replicate 32 9"
definition demo_address :: bytes where "demo_address = the (id_bytes_to_address demo_id)"

lemma demo_address_id: "address_id demo_address = Some demo_id"
proof -
  obtain a where "id_bytes_to_address demo_id = Some a"
    using id_bytes_to_address_total [of demo_id] by (auto simp: demo_id_def)
  then show ?thesis
    using id_bytes_to_address_id [of demo_id a] by (simp add: demo_address_def)
qed

definition demo_funded :: ledger where
  "demo_funded = set_account demo_address (account_default\<lparr>account_balance := 9000000000\<rparr>) ledger_new"

lemma demo_account: "account demo_address demo_funded = account_default\<lparr>account_balance := 9000000000\<rparr>"
  by (simp add: demo_funded_def account_def set_account_def)

theorem admission_predicts_witness:
  "decided (bond_with_fee pad32 demo_address 2000000000 50 3 demo_funded) True demo_funded"
proof -
  have "bond_admissible demo_address 2000000000 50 demo_funded"
    by (simp add: bond_admissible_def demo_address_id account_def checked_add_def bonded_amount_def eligible_def
        staking_consts is_stake_banned_def is_gov_blacklisted_def marked_def stake_bond_def held_def
        demo_funded_def set_account_def ledger_new_def)
  moreover have "nonce demo_address demo_funded \<noteq> - 1"
    by (simp add: nonce_def demo_account account_default_def)
  ultimately show ?thesis
    using admission_predicts [of demo_address demo_funded pad32 2000000000 50 3] by simp
qed

text \<open>
  C30: A validator that asked to leave is paid.  Once an exit is requested, on every later day on
  which the unbonding window has run and the bond still stands, a withdrawal by an account that can
  pay its fee succeeds: it ends the bond and credits its whole amount to the designated payee, or to
  the account itself.
\<close>

theorem exit_leads_to_withdrawal:
  assumes "address_id a = Some i" and "request_exit_with_fee H a fee day l = Some (True, l1)"
    and "stake_bond i l2 = stake_bond i l1" and "unat day + unat UNBONDING_DAYS \<le> unat day2"
    and "fee2 \<le> balance a l2" and "nonce a l2 \<noteq> - 1"
  shows "\<exists>b lp l3. stake_bond i l1 = Some b \<and> pay H a fee2 fee2 l2 = Some lp \<and>
    withdraw_with_fee H a fee2 day2 l2 = Some (True, l3) \<and> stake_bond i l3 = None \<and>
    balance (paid_to i a l2) l3 = saturating_add (balance (paid_to i a l2) lp) (bond_amount b)"
proof -
  obtain b where b: "stake_bond i l1 = Some b" "exit_requested_at b = Some day"
    using exit_requested [OF assms(1,2)] .
  have "unat day + unat UNBONDING_DAYS < 2 ^ 64"
    using assms(4) u64_less [of day2] by linarith
  then have "can_withdraw b day2 = Some True"
    using assms(4) b(2) by (simp add: can_withdraw_def checked_add_def word_le_nat_alt unat_word_ariths)
  then have ready: "ready_bond i day2 l2 = Some (Some b)"
    using assms(3) b(1) by (simp add: ready_bond_def)
  obtain lp where p: "pay H a fee2 fee2 l2 = Some lp"
    using pay_defined [OF assms(6)] .
  obtain l3 where "withdraw_stake a day2 lp = Some (True, l3)" "stake_bond i l3 = None"
      "balance (paid_to i a l2) l3 = saturating_add (balance (paid_to i a l2) lp) (bond_amount b)"
    by (rule withdraw_paid [OF p assms(1) ready])
  with p ready assms(1,5) b(1) show ?thesis
    by (simp add: withdraw_with_fee_def balance_def)
qed

definition demo_bonded :: ledger where
  "demo_bonded = set_stake_bond demo_id \<lparr>bond_amount = 2000000000, bonded_at_day = 0, exit_requested_at = None,
     active_amount = 2000000000, raised_at_height = 0\<rparr> demo_funded"

lemma demo_exit_request:
  "\<exists>l'. request_exit_with_fee pad32 demo_address 0 100 demo_bonded = Some (True, l') \<and> nonce demo_address l' = 1"
  by (simp add: request_exit_with_fee_def demo_address_id exit_ready_def exit_vote_locked_def
      can_request_exit_def staking_consts saturating_sub_def stake_bond_def gov_lock_def held_def nonce_def
      account_def pay_def collect_fee_def checked_add_def request_stake_exit_def request_exit_at_def account_default_def
      demo_bonded_def demo_funded_def set_account_def set_stake_bond_def ledger_new_def Let_def)

theorem exit_leads_to_withdrawal_witness:
  "\<exists>l1 l3. request_exit_with_fee pad32 demo_address 0 100 demo_bonded = Some (True, l1) \<and>
     withdraw_with_fee pad32 demo_address 0 121 l1 = Some (True, l3)"
proof -
  obtain l1 where r: "request_exit_with_fee pad32 demo_address 0 100 demo_bonded = Some (True, l1)"
    and "nonce demo_address l1 = 1"
    using demo_exit_request by blast
  with exit_leads_to_withdrawal [OF demo_address_id r refl, of 121 0] show ?thesis
    by (auto simp: staking_consts)
qed

end
