(* ===== verification/LedgerEnact.thy ===== *)
theory LedgerEnact
  imports LedgerRuns
begin

text \<open>
  Enactment.  An action is carried out only for an approved referendum, inside its enactment window and
  within the constitution, and at most once in the life of the ledger: no operation brings the action
  of a decided referendum back.
\<close>

section \<open>Operations that leave the pending actions alone\<close>

definition same_agenda :: "ledger \<Rightarrow> ledger \<Rightarrow> bool" where
  "same_agenda l l' \<longleftrightarrow>
     (\<forall>n. peek l' (GovAction n) = peek l (GovAction n)) \<and> peek l' (Single GovNext) = peek l (Single GovNext)"

lemma same_agenda_refl [simp, intro]: "same_agenda l l"
  by (simp add: same_agenda_def)

lemma same_agenda_trans: "same_agenda l l' \<Longrightarrow> same_agenda l' l'' \<Longrightarrow> same_agenda l l''"
  by (simp add: same_agenda_def)

lemma same_agenda_keeps: "keeps p b True l l' \<Longrightarrow> same_agenda l l'"
  by (simp add: same_agenda_def keeps_def watched_def)

lemma same_agenda_write:
  "same_agenda l l' \<Longrightarrow> (\<And>n. k \<noteq> GovAction n) \<Longrightarrow> k \<noteq> Single GovNext \<Longrightarrow> same_agenda l (write_leaf k v l')"
  by (auto simp: same_agenda_def)

lemma same_agenda_account [intro]: "same_agenda l l' \<Longrightarrow> same_agenda l (set_account a x l')"
  unfolding set_account_def by (erule same_agenda_write) (auto simp: state_leaf_def split: sum.splits)

lemma same_agenda_events [simp]:
  "same_agenda l (record_side_event e l') \<longleftrightarrow> same_agenda l l'"
  "same_agenda l (record_native_event kind dat l') \<longleftrightarrow> same_agenda l l'"
  by (simp_all add: same_agenda_def)

lemma seize_lock_agenda: "seize_lock i still t l = (t', l') \<Longrightarrow> same_agenda l l'"
  by (auto simp: seize_lock_def Let_def gov_writes intro!: same_agenda_write split: option.splits if_splits)

lemma seize_frozen_agenda: "seize_frozen i a x rest t l = (t', l') \<Longrightarrow> same_agenda l l'"
  by (auto simp: seize_frozen_def Let_def split: if_splits prod.splits
      intro: same_agenda_keeps [OF seize_bond_keeps]
        same_agenda_trans [OF same_agenda_keeps [OF seize_bond_keeps] seize_lock_agenda])

lemma seize_agenda:
  assumes "seize victim scope z (x, l) = (y, l')"
  shows "same_agenda l l'"
  using assms
  by (auto simp: seize_def Let_def split: prod.splits if_splits option.splits
      intro!: same_agenda_account intro: same_agenda_trans [OF same_agenda_account [OF same_agenda_refl] seize_frozen_agenda])

lemma seize_all_agenda:
  assumes "seize_all victim scope zs (x, l) = (y, l')"
  shows "same_agenda l l'"
  using assms
proof (induction zs arbitrary: x l)
  case (Cons z zs)
  obtain r1 l1 where z: "seize victim scope z (x, l) = (r1, l1)"
    by fastforce
  with Cons show ?case
    using same_agenda_trans [OF seize_agenda [OF z]] by simp
qed simp

lemma recover_agenda: "recover scope victim zs l = Inr l' \<Longrightarrow> same_agenda l l'"
  by (auto simp: recover_def Let_def guardian_freeze_forget_def write_guardian_freeze_entries_def
      split: option.splits prod.splits intro!: same_agenda_write same_agenda_account elim!: seize_all_agenda)

lemma lift_agenda: "same_agenda l l' \<Longrightarrow> same_agenda l (lift_bridge_freeze H now outcome l')"
  by (auto simp: lift_bridge_freeze_def Let_def plain_writes stake_writes
      intro!: same_agenda_write same_agenda_account split: option.split freeze_lift.split)

lemma migrate_each_agenda: "same_agenda l l' \<Longrightarrow> same_agenda l (migrate_each u v as l')"
  by (induction as arbitrary: l') (simp_all add: Let_def set_bridge_vault_custody_def same_agenda_write)

lemma bridge_admin_agenda:
  "same_agenda l (register_bridged_asset a cap epoch_cap stark l)"
  "migrate_bridge vault l = Inr l' \<Longrightarrow> same_agenda l l'"
  by (auto simp: register_bridged_asset_def Let_def record_bridge_asset_id_def set_bridged_asset_def
      migrate_bridge_def set_bridge_pool_vault_def
      intro!: same_agenda_write migrate_each_agenda split: if_splits option.splits)

lemma spend_agenda: "spend H f to x l = Inr l' \<Longrightarrow> same_agenda l l'"
proof -
  assume s: "spend H f to x l = Inr l'"
  have "same_agenda l (set_stake_treasury y l)" for y
    by (auto simp: set_stake_treasury_def intro!: same_agenda_write)
  with s show ?thesis
    by (auto simp: spend_def Let_def intro!: same_agenda_account split: option.splits if_splits)
qed

lemma execute_action_agenda:
  assumes "execute_action H S act now chain l = Some (Inr l')"
  shows "same_agenda l l'"
proof -
  consider "plain_action act" | to x where "act = Act_Mint to x" | f to x where "act = Spend f to x"
    | sc v zs where "act = Act_FreezeRecovery sc v zs" | "act = BridgeUnfreeze"
    | v where "act = Act_BridgeMigration v" | a c e st where "act = AssetRegister a c e st"
    by (cases act) auto
  then show ?thesis
  proof cases
    case 1
    then show ?thesis by (rule same_agenda_keeps [OF plain_action_keeps [OF assms]])
  next
    case 2
    with assms show ?thesis by (blast intro: same_agenda_keeps mint_action_keeps)
  next
    case 3
    with assms show ?thesis by (simp add: execute_action_def spend_agenda)
  next
    case 4
    with assms show ?thesis by (simp add: execute_action_def recover_agenda)
  next
    case 5
    with assms show ?thesis
      by (auto simp: execute_action_def gov_unfreeze_bridge_def lift_agenda split: if_splits)
  next
    case 6
    with assms show ?thesis by (simp add: execute_action_def bridge_admin_agenda)
  next
    case 7
    with assms show ?thesis by (auto simp: execute_action_def bridge_admin_agenda split: if_splits)
  qed
qed

section \<open>The agenda over runs\<close>

text \<open>\<open>onward l l'\<close>: numbers only grow, and an action that was not pending is pending only under a new number.\<close>

definition onward :: "ledger \<Rightarrow> ledger \<Rightarrow> bool" where
  "onward l l' \<longleftrightarrow> gov_next_id l \<le> gov_next_id l' \<and>
     (\<forall>n. gov_action n l' \<noteq> None \<longrightarrow> gov_action n l \<noteq> None \<or> gov_next_id l \<le> n \<and> n < gov_next_id l')"

lemma onward_trans: "onward l l' \<Longrightarrow> onward l' l'' \<Longrightarrow> onward l l''"
  unfolding onward_def by (meson order.strict_trans2 order.trans)

lemma onward_agenda: "same_agenda l l' \<Longrightarrow> onward l l'"
  by (simp add: onward_def same_agenda_def gov_action_def gov_next_id_def held_def held_or_def)

lemma onward_clear: "onward l l' \<Longrightarrow> onward l (clear_gov_action i l')"
  by (auto simp: onward_def clear_gov_action_def gov_action_def gov_next_id_def held_def held_or_def)

lemma gov_propose_onward: "gov_propose a t act now l = Some (r, l') \<Longrightarrow> onward l l'"
  by (auto simp: gov_propose_def Let_def gov_writes onward_def gov_action_def gov_next_id_def held_def held_or_def
      set_account_def checked_add_Some_iff word_le_nat_alt word_less_nat_alt
      split: if_splits option.splits bind_splits)

lemma gov_vote_agenda: "gov_vote a i aye conv stake now l = Some (r, l') \<Longrightarrow> same_agenda l l'"
  by (auto simp: gov_vote_def Let_def gov_writes intro!: same_agenda_write same_agenda_account
      split: if_splits option.splits bind_splits)

lemma gov_conclude_agenda: "gov_conclude i now l = (s, l') \<Longrightarrow> same_agenda l l'"
  by (auto simp: gov_conclude_def Let_def gov_writes stake_writes intro!: same_agenda_write same_agenda_account
      split: if_splits option.splits prod.splits)

lemma gov_release_agenda: "gov_release a now l = (x, l') \<Longrightarrow> same_agenda l l'"
  by (auto simp: gov_release_def Let_def gov_writes intro!: same_agenda_write same_agenda_account
      split: if_splits option.splits)

lemma gov_enact_onward:
  assumes "gov_enact H S i now chain l = Some (r, l')"
  shows "onward l l'"
  using assms
proof (cases rule: gov_enactE)
  case (1 s l1)
  then show ?thesis by (simp add: onward_agenda gov_conclude_agenda)
next
  case (2 s l1)
  then show ?thesis by (auto intro: onward_clear onward_agenda gov_conclude_agenda)
next
  case (3 l1 act x l2)
  have "same_agenda l l2"
    using same_agenda_trans [OF gov_conclude_agenda [OF 3(1)] execute_action_agenda [OF 3(7)]] .
  then have "same_agenda l (set_gov_receipt i y l2)" for y
    by (auto simp: set_gov_receipt_def intro!: same_agenda_write)
  with 3(8) show ?thesis
    by (auto simp: record_enactment_def Let_def onward_def gov_action_def gov_next_id_def clear_gov_action_def
        same_agenda_def held_def held_or_def)
qed

lemma guardian_agenda:
  "guardian_freeze H bound ts approvers now l = (r, l') \<Longrightarrow> same_agenda l l'"
  "same_agenda l (guardian_expire H now l)"
  "guardian_enact_bridge_action act n now l = (r, l') \<Longrightarrow> same_agenda l l'"
  "guardian_apply_due_enact H S now l = Some l' \<Longrightarrow> same_agenda l l'"
proof -
  obtain es l1 where f: "freeze_each H bound (saturating_add now GUARDIAN_FREEZE_WINDOW_SECONDS) ts
      (guardian_freeze_entries l) l = (es, l1)" by fastforce
  have "guardian_freeze H bound ts approvers now l \<in> {(False, l), (True,
      set_guardian_freeze_epoch (saturating_add bound 1) (write_guardian_freeze_entries es l1))}"
    unfolding guardian_freeze_def Let_def f prod.case by simp
  with same_agenda_keeps [OF freeze_each_keeps [OF f keeps_refl]]
  show "guardian_freeze H bound ts approvers now l = (r, l') \<Longrightarrow> same_agenda l l'"
    by (auto simp: set_guardian_freeze_epoch_def write_guardian_freeze_entries_def intro!: same_agenda_write)
  obtain es' l2 where e: "expire_each H now (guardian_freeze_entries l) l = (es', l2)" by fastforce
  show "same_agenda l (guardian_expire H now l)"
    using same_agenda_keeps [OF expire_each_keeps [OF e keeps_refl]]
    by (auto simp: guardian_expire_def Let_def e write_guardian_freeze_entries_def intro!: same_agenda_write)
  show "guardian_enact_bridge_action act n now l = (r, l') \<Longrightarrow> same_agenda l l'"
    by (auto simp: guardian_enact_bridge_action_def Let_def set_guardian_enact_nonce_def
        intro!: same_agenda_write split: if_splits)
  have "execute_action H S act now 0 l1 = Some (Inl BadValue)" if "is_anchor_set act" for act l1
    using that by (cases act) (simp_all add: execute_action_def)
  moreover have "same_agenda l (clear_guardian_pending_enact l)"
    by (auto simp: clear_guardian_pending_enact_def intro!: same_agenda_write)
  ultimately show "guardian_apply_due_enact H S now l = Some l' \<Longrightarrow> same_agenda l l'"
    by (auto simp: guardian_apply_due_enact_def Let_def split: option.splits if_splits sum.splits prod.splits)
qed

lemma freeze_agenda:
  assumes "signer H a"
  shows "bridge_freeze_with_fee H a fee now l = Some (r, l') \<Longrightarrow> same_agenda l l'"
    and "bridge_unfreeze_with_fee H a fee now l = Some (r, l') \<Longrightarrow> same_agenda l l'"
  using assms same_agenda_keeps [OF keeps_pay [of H a _ fee l _ "bridge_bond_address H"]]
  by (auto simp: bridge_freeze_with_fee_def bridge_unfreeze_with_fee_def Let_def set_bridge_freeze_def signer_def
      intro!: same_agenda_write same_agenda_account lift_agenda split: option.splits if_splits bind_splits)

lemma asset_ops_agenda:
  "issue_asset H issuer h x l = (ro, l') \<Longrightarrow> same_agenda l l'"
  "mint_asset H issuer h x l = (r, l') \<Longrightarrow> same_agenda l l'"
  by (auto simp: issue_asset_def mint_asset_def credit_asset_def Let_def set_asset_balance_def
      set_asset_supply_def intro!: same_agenda_write split: if_splits option.splits)

lemma ledger_step_onward:
  assumes "ledger_step H S l l'"
  shows "onward l l'"
proof -
  let ?p = "bridge_bond_address H"
  have signer: "signer H a \<Longrightarrow> state_leaf a \<noteq> state_leaf ?p" for a
    by (simp add: signer_def)
  note kept = onward_agenda [OF same_agenda_keeps [where p = ?p and b = False]]
  from assms show ?thesis
  proof cases
    case step_env then show ?thesis by (simp add: onward_def gov_action_def gov_next_id_def held_def held_or_def)
  next
    case step_bond then show ?thesis by (intro kept bond_with_fee_keeps signer)
  next
    case step_claim then show ?thesis by (intro kept claim_with_fee_keeps signer)
  next
    case step_exit then show ?thesis by (intro kept request_exit_with_fee_keeps signer)
  next
    case step_payee then show ?thesis by (intro kept designate_keeps signer)
  next
    case step_withdraw then show ?thesis by (intro kept withdraw_with_fee_keeps signer)
  next
    case step_slash_validator then show ?thesis by (intro kept slash_validator_keeps)
  next
    case step_slash_stake then show ?thesis by (intro kept slash_stake_keeps)
  next
    case step_settle then show ?thesis by (intro kept settle_session_keeps)
  next
    case step_freeze then show ?thesis by (intro onward_agenda freeze_agenda)
  next
    case step_unfreeze then show ?thesis by (intro onward_agenda freeze_agenda)
  next
    case step_mint then show ?thesis by (intro kept bridge_mint_keeps)
  next
    case step_burn then show ?thesis by (intro kept bridge_burn_keeps)
  next
    case step_exit_settle then show ?thesis by (intro kept bridge_settle_keeps)
  next
    case step_exit_slash then show ?thesis by (intro kept bridge_slash_keeps)
  next
    case step_issue then show ?thesis by (intro onward_agenda asset_ops_agenda)
  next
    case step_mint_asset then show ?thesis by (intro onward_agenda asset_ops_agenda)
  next
    case step_propose then show ?thesis by (intro gov_propose_onward)
  next
    case step_vote then show ?thesis by (intro onward_agenda gov_vote_agenda)
  next
    case step_conclude then show ?thesis by (intro onward_agenda gov_conclude_agenda)
  next
    case step_enact then show ?thesis by (rule gov_enact_onward)
  next
    case step_release then show ?thesis by (intro onward_agenda gov_release_agenda)
  next
    case step_guardian_freeze then show ?thesis by (intro onward_agenda guardian_agenda)
  next
    case step_guardian_unfreeze
    then show ?thesis
      by (auto simp: guardian_bridge_unfreeze_def intro!: onward_agenda lift_agenda split: if_splits)
  next
    case step_guardian_enact then show ?thesis by (intro onward_agenda guardian_agenda)
  next
    case step_guardian_due then show ?thesis by (intro onward_agenda guardian_agenda)
  qed (auto simp: bridge_expire_def guardian_agenda(2) intro!: onward_agenda lift_agenda split: option.split)
qed

lemma ledger_run_onward: "ledger_run H S l l' \<Longrightarrow> onward l l'"
  by (induction rule: rtranclp_induct)
    (auto intro: onward_trans ledger_step_onward simp: onward_agenda)

section \<open>Claims\<close>

definition fresh_numbers :: "ledger \<Rightarrow> bool" where
  "fresh_numbers l \<longleftrightarrow> (\<forall>n. gov_next_id l \<le> n \<longrightarrow> gov_action n l = None)"

lemma fresh_numbers_run: "ledger_run H S l l' \<Longrightarrow> fresh_numbers l \<Longrightarrow> fresh_numbers l'"
  using ledger_run_onward [of H S l l'] unfolding onward_def fresh_numbers_def
  by (meson linorder_not_le order.trans)

text \<open>
  C31: An action is carried out only for a referendum that has been approved, inside its enactment
  window and after the constitutional check of its track, scope and protected accounts; and in
  whatever state the ledger is later, enacting the same referendum again does not succeed.
\<close>

theorem enacted_lawfully_once:
  assumes "fresh_numbers l" and "gov_enact H S i now chain l = Some (Inr (), l1)"
  shows "(\<exists>lc act r l2. gov_conclude i now l = (Some Approved, lc) \<and> gov_action i lc = Some act \<and>
      gov_referendum i lc = Some r \<and> enactable r now \<and>
      check_enactment (ref_track r) act (scope_ok H chain act) (is_protected_account H) = Inr () \<and>
      execute_action H S act now chain lc = Some (Inr l2)) \<and>
    (\<forall>l2 now2 chain2. ledger_run H S l1 l2 \<longrightarrow> (\<nexists>l3. gov_enact H S i now2 chain2 l2 = Some (Inr (), l3)))"
  using assms(2)
proof (cases rule: gov_enactE)
  case (3 lc act r l2)
  have "gov_action i l \<noteq> None"
    using 3(3) gov_conclude_agenda [OF 3(1)] by (simp add: gov_action_def same_agenda_def held_def)
  then have "i < gov_next_id l"
    using assms(1) by (auto simp: fresh_numbers_def not_le [symmetric])
  moreover have "gov_next_id l \<le> gov_next_id l1"
    using gov_enact_onward [OF assms(2)] by (simp add: onward_def)
  ultimately have i: "i < gov_next_id l1"
    by simp
  have gone: "gov_action i l1 = None"
    using 3(8) by (simp add: record_enactment_def Let_def gov_action_def clear_gov_action_def held_def)
  have "gov_action i l4 = None" if "ledger_run H S l1 l4" for l4
    using ledger_run_onward [OF that] i gone by (force simp: onward_def)
  then have "\<nexists>l3. gov_enact H S i now2 chain2 l4 = Some (Inr (), l3)" if "ledger_run H S l1 l4" for l4 now2 chain2
    using that by (force elim!: gov_enactE dest: gov_conclude_agenda simp: gov_action_def same_agenda_def held_def)
  with 3 show ?thesis by blast
qed simp_all

definition demo_referendum :: referendum where
  "demo_referendum = (open_referendum 0 (action_track EpochAdvance) [] 0 0)\<lparr>ref_status := Approved\<rparr>"

definition demo_agenda :: ledger where
  "demo_agenda = set_gov_next_id 1 (set_gov_action 0 EpochAdvance (set_gov_referendum 0 demo_referendum ledger_new))"

lemma demo_window: "enactable demo_referendum 2000000" "\<not> enactment_expired demo_referendum 2000000"
  by (simp_all add: enactable_def enactment_expired_def enactment_opens_def decides_at_def demo_referendum_def
      open_referendum_def action_track_def period_seconds_def enactment_delay_def gov_consts saturating_add_def checked_add_def)

lemma demo_enacts: "\<exists>l'. gov_enact H S 0 2000000 7 demo_agenda = Some (Inr (), l')"
proof -
  have r: "gov_referendum 0 demo_agenda = Some demo_referendum" "gov_action 0 demo_agenda = Some EpochAdvance"
    "bridge_epoch demo_agenda = 0"
    by (simp_all add: gov_referendum_def gov_action_def bridge_epoch_def demo_agenda_def gov_writes held_def
        held_or_def ledger_new_def)
  then have "gov_conclude 0 2000000 demo_agenda = (Some Approved, demo_agenda)"
    by (simp add: gov_conclude_def demo_referendum_def)
  with r demo_window show ?thesis
    by (simp add: gov_enact_def check_enactment_def execute_action_def checked_add_def)
      (simp add: demo_referendum_def open_referendum_def)
qed

theorem enacted_lawfully_once_witness:
  "\<forall>S. \<exists>l1. gov_enact pad32 S 0 2000000 7 demo_agenda = Some (Inr (), l1) \<and>
     (\<nexists>l3. gov_enact pad32 S 0 3000000 7 l1 = Some (Inr (), l3))"
proof
  fix S
  have fresh: "fresh_numbers demo_agenda"
    by (auto simp: fresh_numbers_def demo_agenda_def gov_next_id_def gov_action_def gov_writes held_def
        held_or_def ledger_new_def)
  obtain l1 where e: "gov_enact pad32 S 0 2000000 7 demo_agenda = Some (Inr (), l1)"
    using demo_enacts by blast
  with enacted_lawfully_once [OF fresh e, THEN conjunct2, THEN spec, THEN spec, THEN spec, THEN mp,
      OF rtranclp.rtrancl_refl]
  show "\<exists>l1. gov_enact pad32 S 0 2000000 7 demo_agenda = Some (Inr (), l1) \<and>
      (\<nexists>l3. gov_enact pad32 S 0 3000000 7 l1 = Some (Inr (), l3))"
    by blast
qed


end
