(* ===== verification/LedgerTypes.thy ===== *)
theory LedgerTypes
  imports LedgerState
begin

text \<open>
  Which value a leaf may hold.  The readers of \<^verbatim>\<open>src/crates/qtv-node/src/ledger.rs\<close> decode the bytes of a
  leaf as the one type its tag stands for and panic on anything else; a leaf the source clears by
  writing the empty byte string may also be \<open>Cleared\<close>.  \<open>store_typed\<close> says that every leaf holds a value
  of its type, so that no reader of the model meets a value its source would panic on.
\<close>

definition clearable :: "(value \<Rightarrow> 'a option) \<Rightarrow> value \<Rightarrow> bool" where
  "clearable r v \<longleftrightarrow> v = Cleared \<or> r v \<noteq> None"

fun as_mark :: "value \<Rightarrow> unit option" where
  "as_mark VMark = Some ()"
| "as_mark _ = None"

fun as_bool :: "value \<Rightarrow> bool option" where
  "as_bool (VBool x) = Some x"
| "as_bool _ = None"

fun singleton_typed :: "singleton \<Rightarrow> value \<Rightarrow> bool" where
  "singleton_typed StakePrice v \<longleftrightarrow> as_u128 v \<noteq> None"
| "singleton_typed GovLocked v \<longleftrightarrow> as_u128 v \<noteq> None"
| "singleton_typed BridgeExitMax v \<longleftrightarrow> as_u128 v \<noteq> None"
| "singleton_typed BridgePayoutcap v \<longleftrightarrow> as_u128 v \<noteq> None"
| "singleton_typed BridgeDestchain v \<longleftrightarrow> as_u32 v \<noteq> None"
| "singleton_typed StakeMeter v \<longleftrightarrow> as_meter v \<noteq> None"
| "singleton_typed StakeValidators v \<longleftrightarrow> as_ids v \<noteq> None"
| "singleton_typed BridgeAssetList v \<longleftrightarrow> as_ids v \<noteq> None"
| "singleton_typed BridgeOperators v \<longleftrightarrow> as_operators v \<noteq> None"
| "singleton_typed GovGuardian v \<longleftrightarrow> as_guardians v \<noteq> None"
| "singleton_typed GovGuardianFreezeTargets v \<longleftrightarrow> as_entries v \<noteq> None"
| "singleton_typed GuardianPendingEnact v \<longleftrightarrow> clearable as_bytes v"
| "singleton_typed BridgeEra v \<longleftrightarrow> as_bytes v \<noteq> None"
| "singleton_typed ChainGenesisHash v \<longleftrightarrow> as_bytes v \<noteq> None"
| "singleton_typed BridgeLastFreezer v \<longleftrightarrow> as_bytes v \<noteq> None"
| "singleton_typed BridgeVault v \<longleftrightarrow> as_bytes v \<noteq> None"
| "singleton_typed BridgeGateway v \<longleftrightarrow> as_bytes v \<noteq> None"
| "singleton_typed BridgeExits v \<longleftrightarrow> as_bool v \<noteq> None"
| "singleton_typed BridgeFederated v \<longleftrightarrow> as_bool v \<noteq> None"
| "singleton_typed BridgeFreeze v \<longleftrightarrow> clearable as_freeze v"
| "singleton_typed _ v \<longleftrightarrow> as_u64 v \<noteq> None"

fun leaf_typed :: "leaf \<Rightarrow> value \<Rightarrow> bool" where
  "leaf_typed (Acct _) v \<longleftrightarrow> as_account v \<noteq> None"
| "leaf_typed (AcctUnparsed _) v \<longleftrightarrow> as_account v \<noteq> None"
| "leaf_typed (Single s) v \<longleftrightarrow> singleton_typed s v"
| "leaf_typed (StakePayee _) v \<longleftrightarrow> as_bytes v \<noteq> None"
| "leaf_typed (StakeBond _) v \<longleftrightarrow> clearable as_bond v"
| "leaf_typed (StakeRewards _) v \<longleftrightarrow> clearable as_book v"
| "leaf_typed (BridgeAsset _) v \<longleftrightarrow> as_asset v \<noteq> None"
| "leaf_typed (BridgeBalance _ _) v \<longleftrightarrow> as_u128 v \<noteq> None"
| "leaf_typed (AssetBalance _ _) v \<longleftrightarrow> as_u128 v \<noteq> None"
| "leaf_typed (AssetMintCeiling _) v \<longleftrightarrow> as_u128 v \<noteq> None"
| "leaf_typed (AssetSupply _) v \<longleftrightarrow> as_u128 v \<noteq> None"
| "leaf_typed (BridgeSeen _ _) v \<longleftrightarrow> as_mark v \<noteq> None"
| "leaf_typed (FeatureGate _) v \<longleftrightarrow> as_u64 v \<noteq> None"
| "leaf_typed (VaultCustody _ _) v \<longleftrightarrow> as_u128 v \<noteq> None"
| "leaf_typed (GovMintPeriod _) v \<longleftrightarrow> as_u128 v \<noteq> None"
| "leaf_typed (BridgeEpochMint _ _) v \<longleftrightarrow> as_u128 v \<noteq> None"
| "leaf_typed (BridgeExitSeen _) v \<longleftrightarrow> as_mark v \<noteq> None"
| "leaf_typed (BridgeOutstanding _) v \<longleftrightarrow> as_burn v \<noteq> None"
| "leaf_typed (BridgeEpochPay _ _) v \<longleftrightarrow> as_u128 v \<noteq> None"
| "leaf_typed (BridgeEpochPayGlobal _) v \<longleftrightarrow> as_u128 v \<noteq> None"
| "leaf_typed (StakeBanned _) v \<longleftrightarrow> as_mark v \<noteq> None"
| "leaf_typed (StakeAttest _) v \<longleftrightarrow> as_bytes v \<noteq> None"
| "leaf_typed (GovBlacklist _) v \<longleftrightarrow> as_mark v \<noteq> None"
| "leaf_typed (GovFreeze _) v \<longleftrightarrow> clearable as_mark v"
| "leaf_typed (GovStoppedAsset _) v \<longleftrightarrow> clearable as_mark v"
| "leaf_typed (GovReceipt _) v \<longleftrightarrow> as_receipt v \<noteq> None"
| "leaf_typed (GovRef _) v \<longleftrightarrow> as_referendum v \<noteq> None"
| "leaf_typed (GovAction _) v \<longleftrightarrow> clearable as_action v"
| "leaf_typed (GovDeposit _) v \<longleftrightarrow> as_u64 v \<noteq> None"
| "leaf_typed (GovElectorate _) v \<longleftrightarrow> as_u64 v \<noteq> None"
| "leaf_typed (GovBallot _ _) v \<longleftrightarrow> as_ballot v \<noteq> None"
| "leaf_typed (GovLock _) v \<longleftrightarrow> clearable as_lock v"
| "leaf_typed (VmCode _) v \<longleftrightarrow> as_bytes v \<noteq> None"
| "leaf_typed (VmStore _) v \<longleftrightarrow> as_bytes v \<noteq> None"
| "leaf_typed (VmContextVersion _) v \<longleftrightarrow> as_u64 v \<noteq> None"
| "leaf_typed (VmSlot _ _) v \<longleftrightarrow> as_u64 v \<noteq> None"

lemma leaf_typed_account [simp]: "leaf_typed (state_leaf a) (VAccount x)"
  by (simp add: state_leaf_def split: sum.split)

lemma clearable_simps [simp]: "clearable r Cleared" "clearable r v \<longleftrightarrow> v = Cleared \<or> r v \<noteq> None"
  by (simp_all add: clearable_def)

definition store_typed :: "ledger \<Rightarrow> bool" where
  "store_typed l \<longleftrightarrow> (\<forall>k v. peek l k = Some v \<longrightarrow> leaf_typed k v)"

lemma store_typed_new [simp]: "store_typed ledger_new"
  by (simp add: store_typed_def ledger_new_def)

end
