(* ===== verification/LedgerAtomic.thy ===== *)
theory LedgerAtomic
  imports LedgerSteps LedgerTypes
begin

text \<open>
  Atomic application, \<open>apply_atomic\<close> of \<^verbatim>\<open>src/crates/qtv-node/src/ledger.rs\<close>: a closure runs on the ledger
  with a fresh journal, and unless it returns true the journal is played back.  A closure is a
  function that returns None when it panics, together with the ledger it leaves behind.  The journal
  implements \<open>snapshot_atomic\<close>, which keeps a copy of the ledger and returns to it.
\<close>

section \<open>The journal\<close>

definition put_back :: "leaf \<times> value option \<Rightarrow> (leaf, value) fmap \<Rightarrow> (leaf, value) fmap" where
  "put_back e m = (case snd e of Some v \<Rightarrow> fmupd (fst e) v m | None \<Rightarrow> fmdrop (fst e) m)"

definition undo :: "(leaf \<times> value option) list \<Rightarrow> (leaf, value) fmap \<Rightarrow> (leaf, value) fmap" where
  "undo unwound m = fold put_back (rev unwound) m"

definition over_ceiling :: "ledger \<Rightarrow> bool" where
  "over_ceiling l \<longleftrightarrow> (case fresh_leaf_ceiling l of Some c \<Rightarrow> c < block_fresh_leaves l | None \<Rightarrow> False)"

definition apply_atomic :: "(ledger \<Rightarrow> bool option \<times> ledger) \<Rightarrow> ledger \<Rightarrow> bool \<times> ledger" where
  "apply_atomic f l =
     (let events_mark = length (block_events l);
          side_mark = length (side_events l);
          leaves_mark = block_fresh_leaves l;
          restore = journal l;
          (outcome, l) = f (l\<lparr>journal := Some []\<rparr>);
          unwound = (case journal l of Some j \<Rightarrow> j | None \<Rightarrow> []);
          l = l\<lparr>journal := restore\<rparr>
      in if outcome = Some True \<and> \<not> (restore = None \<and> over_ceiling l)
         then (True, l\<lparr>journal := map_option (\<lambda>outer. outer @ unwound) (journal l)\<rparr>)
         else (False, l\<lparr>store := undo unwound (store l), block_events := take events_mark (block_events l),
                        side_events := take side_mark (side_events l), block_fresh_leaves := leaves_mark\<rparr>))"

definition snapshot_atomic :: "(ledger \<Rightarrow> bool option \<times> ledger) \<Rightarrow> ledger \<Rightarrow> bool \<times> ledger" where
  "snapshot_atomic f l =
     (let (outcome, l') = f (l\<lparr>journal := Some []\<rparr>) in
      if outcome = Some True \<and> \<not> (journal l = None \<and> over_ceiling l')
      then (True, l'\<lparr>journal := map_option (\<lambda>outer. outer @ the (journal l')) (journal l)\<rparr>)
      else (False, l))"

definition push_event :: "block_event \<Rightarrow> ledger \<Rightarrow> ledger" where
  "push_event e l = l\<lparr>block_events := block_events l @ [e]\<rparr>"

text \<open>
  \<open>edits l l'\<close>: \<open>l'\<close> comes from \<open>l\<close> by writing values of the right type, erasing leaves and recording
  events.
\<close>

inductive edits :: "ledger \<Rightarrow> ledger \<Rightarrow> bool" where
  edits_refl [simp, intro]: "edits l l"
| edits_write: "edits l l' \<Longrightarrow> leaf_typed k v \<Longrightarrow> edits l (write_leaf k v l')"
| edits_erase: "edits l l' \<Longrightarrow> edits l (snd (erase_leaf k l'))"
| edits_side: "edits l l' \<Longrightarrow> edits l (record_side_event e l')"
| edits_event: "edits l l' \<Longrightarrow> edits l (push_event e l')"

lemma edits_native: "edits l l' \<Longrightarrow> edits l (record_native_event kind dat l')"
  using edits_event [of l l' "native_event kind dat"] by (simp add: push_event_def record_native_event_def)

lemma edits_trans: "edits l l' \<Longrightarrow> edits l' l'' \<Longrightarrow> edits l l''"
  by (rotate_tac, induction rule: edits.induct) (auto intro: edits.intros)

lemma edits_typed: "edits l l' \<Longrightarrow> store_typed l \<Longrightarrow> store_typed l'"
  by (induction rule: edits.induct) (auto simp: store_typed_def push_event_def)

lemma put_back_write: "put_back (k, fmlookup m k) (fmupd k v m) = m" "put_back (k, fmlookup m k) (fmdrop k m) = m"
  by (rule fmap_ext; auto simp: put_back_def split: option.splits)+

lemma undo_snoc: "undo (j @ [e]) m = undo j (put_back e m)"
  by (simp add: undo_def)

lemma edits_undo:
  assumes "edits l l'" and "journal l = Some []"
  shows "\<exists>j. journal l' = Some j \<and> undo j (store l') = store l"
  using assms
proof (induction rule: edits.induct)
  case (edits_write l l' k v)
  then show ?case by (auto simp: write_leaf_def undo_snoc put_back_write)
next
  case (edits_erase l l' k)
  then show ?case by (auto simp: erase_leaf_def undo_snoc put_back_write)
qed (auto simp: undo_def record_side_event_def push_event_def)

lemma edits_frame:
  assumes "edits l l'"
  shows "take (length (block_events l)) (block_events l') = block_events l"
    and "take (length (side_events l)) (side_events l') = side_events l"
    and "current_tx l' = current_tx l" "round_proposer l' = round_proposer l"
    "execution_height l' = execution_height l" "execution_time_set l' = execution_time_set l"
    "heights_per_epoch l' = heights_per_epoch l" "fresh_leaf_ceiling l' = fresh_leaf_ceiling l"
proof -
  have "\<exists>es. block_events l' = block_events l @ es" "\<exists>es. side_events l' = side_events l @ es"
    using assms by (induction rule: edits.induct;
      auto simp: write_leaf_def erase_leaf_def record_side_event_def push_event_def)+
  then show "take (length (block_events l)) (block_events l') = block_events l"
    "take (length (side_events l)) (side_events l') = side_events l"
    by auto
qed (use assms in \<open>induction rule: edits.induct;
    simp add: write_leaf_def erase_leaf_def record_side_event_def push_event_def\<close>)+

text \<open>The journal plays back to the ledger before the closure, whatever the closure did.\<close>

lemma atomic_is_snapshot:
  assumes "edits (l\<lparr>journal := Some []\<rparr>) (snd (f (l\<lparr>journal := Some []\<rparr>)))"
  shows "apply_atomic f l = snapshot_atomic f l"
proof -
  obtain r l' where f: "f (l\<lparr>journal := Some []\<rparr>) = (r, l')" by fastforce
  have e: "edits (l\<lparr>journal := Some []\<rparr>) l'"
    using assms f by simp
  obtain j where j: "journal l' = Some j" "undo j (store l') = store l"
    using edits_undo [OF e] by auto
  show ?thesis
    using edits_frame [OF e] j f
    by (simp add: apply_atomic_def snapshot_atomic_def over_ceiling_def Let_def cong: option.case_cong)
qed

lemma edits_rebase:
  assumes "edits (l\<lparr>journal := Some []\<rparr>) l'"
  shows "edits l (l'\<lparr>journal := map_option (\<lambda>outer. outer @ the (journal l')) (journal l)\<rparr>)"
  using assms
proof (induction "l\<lparr>journal := Some []\<rparr>" l' rule: edits.induct)
  case edits_refl
  have "l\<lparr>journal := map_option (\<lambda>outer. outer @ the (journal (l\<lparr>journal := Some []\<rparr>))) (journal l)\<rparr> = l"
    by (cases l; cases "journal l") simp_all
  then show ?case by (simp add: edits.edits_refl)
next
  case (edits_write l' k v)
  let ?l = "l'\<lparr>journal := map_option (\<lambda>outer. outer @ the (journal l')) (journal l)\<rparr>"
  from edits_write obtain j where "journal l' = Some j"
    using edits_undo [of "l\<lparr>journal := Some []\<rparr>" l'] by auto
  then have "(write_leaf k v l')\<lparr>journal := map_option (\<lambda>outer. outer @ the (journal (write_leaf k v l'))) (journal l)\<rparr>
      = write_leaf k v ?l"
    by (cases "journal l") (simp_all add: write_leaf_def)
  with edits_write show ?case by (simp add: edits.edits_write)
next
  case (edits_erase l' k)
  let ?l = "l'\<lparr>journal := map_option (\<lambda>outer. outer @ the (journal l')) (journal l)\<rparr>"
  from edits_erase obtain j where "journal l' = Some j"
    using edits_undo [of "l\<lparr>journal := Some []\<rparr>" l'] by auto
  then have "(snd (erase_leaf k l'))\<lparr>journal := map_option (\<lambda>outer. outer @ the (journal (snd (erase_leaf k l')))) (journal l)\<rparr>
      = snd (erase_leaf k ?l)"
    by (cases "journal l") (simp_all add: erase_leaf_def)
  with edits_erase show ?case by (simp add: edits.edits_erase)
next
  case (edits_side l' e)
  then show ?case
    using edits.edits_side [of l "l'\<lparr>journal := map_option (\<lambda>outer. outer @ the (journal l')) (journal l)\<rparr>" e]
    by (cases l') (simp add: record_side_event_def)
next
  case (edits_event l' e)
  then show ?case
    using edits.edits_event [of l "l'\<lparr>journal := map_option (\<lambda>outer. outer @ the (journal l')) (journal l)\<rparr>" e]
    by (cases l') (simp add: push_event_def)
qed

lemma edits_atomic:
  assumes "edits (l\<lparr>journal := Some []\<rparr>) (snd (f (l\<lparr>journal := Some []\<rparr>)))"
  shows "edits l (snd (apply_atomic f l))"
  using edits_rebase [OF assms]
  by (auto simp: atomic_is_snapshot [of l f, OF assms] snapshot_atomic_def split: prod.split)

section \<open>The operations of the ledger only edit\<close>

lemma edits_account: "edits l l' \<Longrightarrow> edits l (set_account a x l')"
  by (simp add: set_account_def edits_write)

lemma edits_supply:
  "edits l l' \<Longrightarrow> edits l (set_total_supply x l')" "edits l l' \<Longrightarrow> edits l (credit_account a x l')"
  "edits l l' \<Longrightarrow> edits l (debit_supply x l')" "edits l l' \<Longrightarrow> edits l (credit_supply x l')"
  by (simp_all add: set_total_supply_def credit_account_def debit_supply_def credit_supply_def edits_write
      edits_account Let_def)

lemma edits_staked:
  "edits l l' \<Longrightarrow> edits l (credit_staked x l')" "edits l l' \<Longrightarrow> edits l (debit_staked x l')"
  "edits l l' \<Longrightarrow> edits l (credit_if a x l')"
  by (simp_all add: credit_staked_def debit_staked_def credit_if_def Let_def stake_writes edits_write edits_account)

lemmas edits_intros = edits_write edits_account edits_supply edits_staked edits_side edits_native

lemma edits_fee: "collect_fee H fee l = Some l' \<Longrightarrow> edits l l'"
  by (auto simp: collect_fee_def apply_fee_split_def Let_def intro!: edits_intros
      split: if_splits bind_splits option.splits)

lemma edits_pay: "pay H a debit fee l = Some l' \<Longrightarrow> edits l l'"
  by (auto simp: pay_def Let_def split: bind_splits
      intro: edits_trans [OF edits_account [OF edits_refl] edits_fee])

lemma bond_with_fee_edits: "bond_with_fee H a x fee day l = Some (r, l') \<Longrightarrow> edits l l'"
  by (auto simp: bond_with_fee_def Let_def stake_writes event_defs intro!: edits_intros
      elim!: edits_pay split: option.splits if_splits bind_splits)

lemma claim_reward_edits: "claim_reward a day l = Some (r, l') \<Longrightarrow> edits l l'"
  by (auto simp: claim_reward_def Let_def stake_writes intro!: edits_intros
      split: option.splits if_splits bind_splits prod.splits)

lemma claim_with_fee_edits: "claim_with_fee H a fee day l = Some (r, l') \<Longrightarrow> edits l l'"
  by (auto simp: claim_with_fee_def Let_def split: if_splits bind_splits prod.splits
      elim!: edits_trans [OF edits_pay claim_reward_edits])

lemma slash_edits:
  "slash_validator a l = Some (r, l') \<Longrightarrow> edits l l'" "slash_stake a f l = Some (x, l') \<Longrightarrow> edits l l'"
  by (auto simp: slash_validator_def slash_stake_def Let_def stake_writes event_defs intro!: edits_intros
      split: option.splits if_splits bind_splits)

lemma request_stake_exit_edits: "request_stake_exit a day l = (r, l') \<Longrightarrow> edits l l'"
  by (auto simp: request_stake_exit_def Let_def stake_writes intro!: edits_intros
      split: option.splits if_splits prod.splits bool.splits)

lemma request_exit_with_fee_edits: "request_exit_with_fee H a fee day l = Some (r, l') \<Longrightarrow> edits l l'"
  by (auto simp: request_exit_with_fee_def split: option.splits if_splits bind_splits
      intro: edits_trans [OF edits_pay request_stake_exit_edits])

lemma designate_edits: "designate_stake_payee_with_fee H a payee fee l = Some (r, l') \<Longrightarrow> edits l l'"
  by (auto simp: designate_stake_payee_with_fee_def split: option.splits if_splits bind_splits
      intro!: edits_write elim!: edits_pay)

lemma withdraw_stake_edits: "withdraw_stake a day l = Some (r, l') \<Longrightarrow> edits l l'"
  by (auto simp: withdraw_stake_def Let_def stake_writes event_defs intro!: edits_intros
      split: option.splits if_splits bind_splits)

lemma withdraw_with_fee_edits: "withdraw_with_fee H a fee day l = Some (r, l') \<Longrightarrow> edits l l'"
  by (auto simp: withdraw_with_fee_def split: option.splits if_splits bind_splits
      intro: edits_trans [OF edits_pay withdraw_stake_edits])

lemma accrue_edits: "accrue_reward_by_id i day l = Some (x, l') \<Longrightarrow> edits l l'"
  by (auto simp: accrue_reward_by_id_def grant_reward_def Let_def stake_writes event_defs intro!: edits_intros
      split: option.splits if_splits bind_splits prod.splits)

lemma accrue_each_edits: "accrue_each is day l = Some l' \<Longrightarrow> edits l l'"
  by (induction "is" arbitrary: l) (auto split: bind_splits intro: edits_trans [OF accrue_edits])

lemma settle_session_edits: "settle_session day txs l = Some l' \<Longrightarrow> edits l l'"
  by (auto simp: settle_session_def record_session_def Let_def set_session_meter_def
      split: if_splits bind_splits prod.splits intro: edits_write
      dest!: accrue_each_edits elim!: edits_trans [rotated])

lemma bridge_edits:
  "bridge_mint f l = (r, l') \<Longrightarrow> edits l l'" "bridge_burn H c h x d ch n l = (r, l') \<Longrightarrow> edits l l'"
  "bridge_settle g l = (r, l') \<Longrightarrow> edits l l'" "bridge_slash g l = (r, l') \<Longrightarrow> edits l l'"
  by (cases r; auto elim!: bridge_mintE bridge_burnE bridge_settleE bridge_slashE simp: bridge_setters
      intro!: edits_intros edits_erase
      dest: bridge_mint_False bridge_burn_False bridge_settle_False bridge_slash_False)+

lemma lift_edits: "edits l l' \<Longrightarrow> edits l (lift_bridge_freeze H now outcome l')"
  by (auto simp: lift_bridge_freeze_def Let_def plain_writes stake_writes intro!: edits_intros
      split: option.split freeze_lift.split)

lemma bridge_freeze_edits:
  "bridge_freeze_with_fee H a fee now l = Some (r, l') \<Longrightarrow> edits l l'"
  "bridge_unfreeze_with_fee H a fee now l = Some (r, l') \<Longrightarrow> edits l l'"
  by (auto simp: bridge_freeze_with_fee_def bridge_unfreeze_with_fee_def Let_def set_bridge_freeze_def
      intro!: edits_intros lift_edits elim!: edits_pay split: option.splits if_splits bind_splits)

lemma asset_edits:
  "issue_asset H issuer h x l = (ro, l') \<Longrightarrow> edits l l'" "mint_asset H issuer h x l = (r, l') \<Longrightarrow> edits l l'"
  by (auto simp: issue_asset_def mint_asset_def credit_asset_def Let_def set_asset_balance_def
      set_asset_supply_def intro!: edits_write split: if_splits option.splits)

lemma gov_propose_edits: "gov_propose a t act now l = Some (r, l') \<Longrightarrow> edits l l'"
  by (auto simp: gov_propose_def Let_def gov_writes intro!: edits_intros
      split: if_splits option.splits bind_splits)

lemma gov_vote_edits: "gov_vote a i aye conv stake now l = Some (r, l') \<Longrightarrow> edits l l'"
  by (auto simp: gov_vote_def Let_def gov_writes intro!: edits_intros
      split: if_splits option.splits bind_splits)

lemma gov_conclude_edits: "gov_conclude i now l = (s, l') \<Longrightarrow> edits l l'"
  by (auto simp: gov_conclude_def Let_def gov_writes stake_writes intro!: edits_intros
      split: if_splits option.splits prod.splits)

lemma gov_release_edits: "gov_release a now l = (x, l') \<Longrightarrow> edits l l'"
  by (auto simp: gov_release_def Let_def gov_writes intro!: edits_intros split: if_splits option.splits)

lemma stop_edits:
  "edits l l' \<Longrightarrow> edits l (set_frozen H i l')" "edits l l' \<Longrightarrow> edits l (clear_frozen H i l')"
  "edits l l' \<Longrightarrow> edits l (set_gov_blacklisted H i l')" "edits l l' \<Longrightarrow> edits l (guardian_freeze_forget ts l')"
  by (auto simp: set_frozen_def clear_frozen_def set_gov_blacklisted_def record_stopped_def
      forget_stopped_def guardian_freeze_forget_def write_guardian_freeze_entries_def Let_def intro!: edits_write)

lemma stop_each_edits:
  assumes "\<And>i l l'. edits l l' \<Longrightarrow> edits l (change i l')"
  shows "edits l (stop_each change event ts l)"
proof -
  let ?f = "\<lambda>x l. case id_from_slice x of
      None \<Rightarrow> l
    | Some i \<Rightarrow> let l = change i l in
        (case id_bytes_to_address i of Some addr \<Rightarrow> record_side_event (event addr) l | None \<Rightarrow> l)"
  have "edits l l' \<Longrightarrow> edits l (fold ?f ts l')" for l'
    by (induction ts arbitrary: l') (simp_all add: Let_def assms edits_side split: option.split)
  then show ?thesis
    by (auto simp: stop_each_def intro!: stop_edits)
qed

lemma seize_bond_edits: "seize_bond i a rest t l = (t', l') \<Longrightarrow> edits l l'"
  by (auto simp: seize_bond_def Let_def stake_writes intro!: edits_intros split: option.splits if_splits)

lemma seize_lock_edits: "seize_lock i still t l = (t', l') \<Longrightarrow> edits l l'"
  by (auto simp: seize_lock_def Let_def gov_writes intro!: edits_write split: option.splits if_splits)

lemma seize_frozen_edits: "seize_frozen i a x rest t l = (t', l') \<Longrightarrow> edits l l'"
  by (auto simp: seize_frozen_def Let_def split: if_splits prod.splits
      intro: seize_bond_edits edits_trans [OF seize_bond_edits seize_lock_edits])

lemma seize_edits: "seize victim scope z (x, l) = (y, l') \<Longrightarrow> edits l l'"
  by (auto simp: seize_def Let_def split: prod.splits if_splits option.splits
      intro!: edits_side edits_account intro: edits_trans [OF edits_account [OF edits_refl] seize_frozen_edits])

lemma seize_all_edits: "seize_all victim scope zs (x, l) = (y, l') \<Longrightarrow> edits l l'"
proof (induction zs arbitrary: x l)
  case (Cons z zs)
  obtain r1 l1 where z: "seize victim scope z (x, l) = (r1, l1)"
    by fastforce
  with Cons show ?case
    using edits_trans [OF seize_edits [OF z]] by simp
qed simp

lemma recover_edits: "recover scope victim zs l = Inr l' \<Longrightarrow> edits l l'"
  by (auto simp: recover_def Let_def split: option.splits prod.splits
      intro!: stop_edits edits_side edits_account elim!: seize_all_edits)

lemma spend_edits: "spend H f to x l = Inr l' \<Longrightarrow> edits l l'"
  by (auto simp: spend_def Let_def set_stake_treasury_def intro!: edits_intros split: option.splits if_splits)

lemma mint_native_edits: "mint_native to x now l = Inr l' \<Longrightarrow> edits l l'"
  by (auto simp: mint_native_def Let_def gov_writes set_total_supply_def event_defs intro!: edits_intros
      split: option.splits)

lemma apply_parameter_edits: "apply_parameter key val now l = Some (Inr l') \<Longrightarrow> edits l l'"
  by (auto simp: apply_parameter_def Let_def gov_writes set_stake_price_def set_stake_mainnet_start_def
      set_session_meter_def set_bridge_gateway_def set_bridge_exits_enabled_def set_bridge_payout_cap_def
      intro!: edits_write split: if_splits option.splits bind_splits)

lemma migrate_each_edits: "edits l l' \<Longrightarrow> edits l (migrate_each u v as l')"
  by (induction as arbitrary: l') (simp_all add: Let_def set_bridge_vault_custody_def edits_write)

lemma migrate_edits: "migrate_bridge vault l = Inr l' \<Longrightarrow> edits l l'"
  by (auto simp: migrate_bridge_def Let_def set_bridge_pool_vault_def
      intro!: edits_side edits_write migrate_each_edits split: if_splits option.splits)

lemma register_edits: "edits l (register_bridged_asset a cap epoch_cap stark l)"
  by (auto simp: register_bridged_asset_def Let_def record_bridge_asset_id_def set_bridged_asset_def
      intro!: edits_write)

lemma seed_operators_edits: "edits l (seed_bridge_operator_set ops l)"
  by (auto simp: seed_bridge_operator_set_def intro!: edits_write)

lemma execute_action_edits:
  assumes "execute_action H S act now chain l = Some (Inr l')"
  shows "edits l l'"
proof (cases act)
  case (Parameter key val)
  with assms show ?thesis
    by (auto simp: execute_action_def intro!: edits_side intro: apply_parameter_edits
        split: bind_splits sum.splits)
next
  case (Act_Mint to x)
  with assms show ?thesis by (simp add: execute_action_def mint_native_edits)
next
  case (Spend f to x)
  with assms show ?thesis by (simp add: execute_action_def spend_edits)
next
  case (Act_FreezeRecovery sc v zs)
  with assms show ?thesis by (simp add: execute_action_def recover_edits)
next
  case (Act_BridgeMigration v)
  with assms show ?thesis by (simp add: execute_action_def migrate_edits)
next
  case (Freeze ts)
  with assms show ?thesis by (auto simp: execute_action_def intro!: stop_each_edits stop_edits)
next
  case (Unfreeze ts)
  with assms show ?thesis by (auto simp: execute_action_def intro!: stop_each_edits stop_edits)
next
  case (Blacklist x)
  with assms show ?thesis
    by (auto simp: execute_action_def Let_def intro!: edits_side stop_edits split: option.splits)
next
  case BridgeUnfreeze
  with assms show ?thesis
    by (auto simp: execute_action_def gov_unfreeze_bridge_def intro!: edits_side lift_edits split: if_splits)
next
  case (CommitteeRotate r)
  with assms show ?thesis
    by (auto simp: execute_action_def rotate_committee_def intro!: edits_side seed_operators_edits
        split: option.splits if_splits)
next
  case (OperatorRevoke i)
  with assms show ?thesis
    by (auto simp: execute_action_def intro!: edits_side seed_operators_edits
        split: option.splits prod.splits bool.splits)
qed (use assms in \<open>auto simp: execute_action_def set_guardian_set_def set_bridge_epoch_def set_feature_version_def
    intro!: edits_side edits_write register_edits split: option.splits if_splits\<close>)

lemma gov_enact_edits:
  assumes "gov_enact H S i now chain l = Some (r, l')"
  shows "edits l l'"
  using assms
proof (cases rule: gov_enactE)
  case (1 s l1)
  then show ?thesis by (simp add: gov_conclude_edits)
next
  case (2 s l1)
  then show ?thesis by (auto simp: clear_gov_action_def intro: edits_write gov_conclude_edits)
next
  case (3 l1 act x l2)
  have "edits l l2"
    using edits_trans [OF gov_conclude_edits [OF 3(1)] execute_action_edits [OF 3(7)]] .
  with 3(8) show ?thesis
    by (auto simp: record_enactment_def Let_def set_gov_receipt_def clear_gov_action_def intro!: edits_side edits_write)
qed

lemma freeze_each_edits:
  "freeze_each H bound t xs es l' = (es', l'') \<Longrightarrow> edits l l' \<Longrightarrow> edits l l''"
  by (induction xs arbitrary: es l') (auto simp: Let_def stop_edits edits_side split: option.splits)

lemma expire_each_edits:
  "expire_each H now es l' = (es', l'') \<Longrightarrow> edits l l' \<Longrightarrow> edits l l''"
  by (induction es arbitrary: es' l') (auto simp: Let_def stop_edits split: if_splits prod.splits)

lemma guardian_edits:
  "guardian_freeze H bound ts approvers now l = (r, l') \<Longrightarrow> edits l l'"
  "edits l (guardian_expire H now l)"
  "guardian_bridge_unfreeze H approvers now l = (r, l') \<Longrightarrow> edits l l'"
  "guardian_enact_bridge_action act n now l = (r, l') \<Longrightarrow> edits l l'"
  "guardian_apply_due_enact H S now l = Some l' \<Longrightarrow> edits l l'"
  "edits l (bridge_expire H now l)"
proof -
  obtain es l1 where f: "freeze_each H bound (saturating_add now GUARDIAN_FREEZE_WINDOW_SECONDS) ts
      (guardian_freeze_entries l) l = (es, l1)" by fastforce
  have "guardian_freeze H bound ts approvers now l \<in> {(False, l), (True,
      set_guardian_freeze_epoch (saturating_add bound 1) (write_guardian_freeze_entries es l1))}"
    unfolding guardian_freeze_def Let_def f prod.case by simp
  with freeze_each_edits [OF f edits_refl]
  show "guardian_freeze H bound ts approvers now l = (r, l') \<Longrightarrow> edits l l'"
    by (auto simp: set_guardian_freeze_epoch_def write_guardian_freeze_entries_def intro!: edits_write)
  obtain es' l2 where e: "expire_each H now (guardian_freeze_entries l) l = (es', l2)" by fastforce
  show "edits l (guardian_expire H now l)"
    using expire_each_edits [OF e edits_refl]
    by (auto simp: guardian_expire_def Let_def e write_guardian_freeze_entries_def intro!: edits_write)
  show "guardian_bridge_unfreeze H approvers now l = (r, l') \<Longrightarrow> edits l l'"
    by (auto simp: guardian_bridge_unfreeze_def intro!: lift_edits split: if_splits)
  show "guardian_enact_bridge_action act n now l = (r, l') \<Longrightarrow> edits l l'"
    by (auto simp: guardian_enact_bridge_action_def Let_def set_guardian_enact_nonce_def
        intro!: edits_write split: if_splits)
  have "execute_action H S act now 0 l1 = Some (Inl BadValue)" if "is_anchor_set act" for act l1
    using that by (cases act) (simp_all add: execute_action_def)
  moreover have "edits l (clear_guardian_pending_enact l)"
    by (auto simp: clear_guardian_pending_enact_def intro!: edits_write)
  ultimately show "guardian_apply_due_enact H S now l = Some l' \<Longrightarrow> edits l l'"
    by (auto simp: guardian_apply_due_enact_def Let_def split: option.splits if_splits sum.splits prod.splits)
  show "edits l (bridge_expire H now l)"
    by (auto simp: bridge_expire_def intro!: lift_edits split: option.split)
qed

end
