(* ===== verification/Tx.thy ===== *)
theory Tx
  imports Idfmt Bridge
begin

text \<open>
  Transactions, \<^verbatim>\<open>src/crates/qtv-tx/src/lib.rs\<close>: the call, the body, the signed wrapper, their
  encodings, the digest a signature covers and its verification; the reader of a wrapper from the
  network, \<^verbatim>\<open>decode_wrapper\<close> of \<^verbatim>\<open>src/crates/qtv-devnet/src/wire.rs\<close>; the address of a key
  (\<^verbatim>\<open>src/crates/qtv-account/src/lib.rs\<close>), the fee schedule (\<^verbatim>\<open>src/crates/qtv-node/src/fee.rs\<close>) and
  the upgrade table (\<^verbatim>\<open>src/crates/qtv-node/src/upgrades.rs\<close>).  The two signature schemes and the
  hash are parameters.  The reader and the encoder are inverse to each other, and the bytes under a
  signature determine the transaction.
\<close>

section \<open>Calls, bodies and wrappers\<close>

definition SCHEME_LATTICE :: u8 where "SCHEME_LATTICE = 1"
definition SCHEME_HASH :: u8 where "SCHEME_HASH = 2"
definition DOMAIN_TX :: bytes where "DOMAIN_TX = ascii ''quantova.transaction.v1''"
definition LOCAL_CHAIN_ID :: u64 where "LOCAL_CHAIN_ID = 13749533161254861464"
definition TESTNET_CHAIN_ID :: u64 where "TESTNET_CHAIN_ID = 49882562325403262"
definition MAINNET_CHAIN_ID :: u64 where "MAINNET_CHAIN_ID = 5296651311193914109"
definition KIND_TRANSFER :: u8 where "KIND_TRANSFER = 0"
definition KIND_CALL :: u8 where "KIND_CALL = 1"

record tx_call =
  call_target :: bytes
  call_args :: bytes

record tx_body =
  tx_sender :: bytes
  tx_nonce :: u64
  tx_meter_limit :: u64
  tx_fee :: u128
  tx_value :: u64
  tx_chain_id :: u64
  tx_call_of :: tx_call
  tx_in_asset :: "bytes option"
  tx_valid_until :: u64
  tx_kind :: u8

record wrapper =
  tx_body_of :: tx_body
  tx_scheme :: u8
  tx_signature :: bytes

abbreviation tx_target :: "wrapper \<Rightarrow> bytes" where
  "tx_target w \<equiv> call_target (tx_call_of (tx_body_of w))"

abbreviation tx_args :: "wrapper \<Rightarrow> bytes" where
  "tx_args w \<equiv> call_args (tx_call_of (tx_body_of w))"

definition with_context :: "bytes \<Rightarrow> u64 \<Rightarrow> u64 \<Rightarrow> u128 \<Rightarrow> tx_call \<Rightarrow> u64 \<Rightarrow> u64 \<Rightarrow> tx_body" where
  "with_context sender nonce meter_limit fee c v chain_id =
     \<lparr>tx_sender = sender, tx_nonce = nonce, tx_meter_limit = meter_limit, tx_fee = fee, tx_value = v,
      tx_chain_id = chain_id, tx_call_of = c, tx_in_asset = None, tx_valid_until = 0,
      tx_kind = KIND_TRANSFER\<rparr>"

definition is_call :: "tx_body \<Rightarrow> bool" where
  "is_call b \<longleftrightarrow> tx_kind b = KIND_CALL"

definition put_address :: "bytes \<Rightarrow> encoder \<Rightarrow> encoder" where
  "put_address address =
     (case parse_address address of Inr payload \<Rightarrow> put_bytes payload | Inl _ \<Rightarrow> put_bytes address)"

definition encode_call :: "tx_call \<Rightarrow> encoder \<Rightarrow> encoder" where
  "encode_call c = puts [put_address (call_target c), put_bytes (call_args c)]"

definition encode_body :: "tx_body \<Rightarrow> encoder \<Rightarrow> encoder" where
  "encode_body b = puts
     [put_address (tx_sender b), put_u64 (tx_nonce b), put_u64 (tx_meter_limit b), put_u128 (tx_fee b),
      encode_call (tx_call_of b), put_u64 (tx_value b), put_u64 (tx_chain_id b),
      put_bytes (case tx_in_asset b of Some a \<Rightarrow> a | None \<Rightarrow> []), put_u64 (tx_valid_until b),
      put_u8 (tx_kind b)]"

definition encode_wrapper :: "wrapper \<Rightarrow> encoder \<Rightarrow> encoder" where
  "encode_wrapper w = puts [encode_body (tx_body_of w), put_u8 (tx_scheme w), put_bytes (tx_signature w)]"

definition tx_id :: "(bytes \<Rightarrow> bytes) \<Rightarrow> wrapper \<Rightarrow> bytes option" where
  "tx_id H w = (case render_tx (H (to_bytes encode_wrapper w)) of Some (Inr t) \<Rightarrow> Some t | _ \<Rightarrow> None)"

definition body_preimage :: "tx_body \<Rightarrow> bytes \<Rightarrow> bytes" where
  "body_preimage b genesis = genesis @ to_bytes encode_body b"

definition body_digest :: "(bytes \<Rightarrow> bytes) \<Rightarrow> tx_body \<Rightarrow> bytes \<Rightarrow> bytes" where
  "body_digest H b genesis = H (body_preimage b genesis)"

definition addresses_parse :: "tx_body \<Rightarrow> bool" where
  "addresses_parse b \<longleftrightarrow>
     (case parse_address (tx_sender b) of Inr _ \<Rightarrow> True | Inl _ \<Rightarrow> False) \<and>
     (case parse_address (call_target (tx_call_of b)) of Inr _ \<Rightarrow> True | Inl _ \<Rightarrow> False)"

definition scheme_supported :: "u8 \<Rightarrow> bool" where
  "scheme_supported s \<longleftrightarrow> s = SCHEME_LATTICE \<or> s = SCHEME_HASH"

text \<open>
  The schemes of the external crypto crate.  \<open>lattice\<close> is ML-DSA with its strict verification,
  \<open>stateless\<close> is SLH-DSA; both have the shape of \<open>ml_dsa\<close>.  \<open>degenerate\<close> is
  \<^verbatim>\<open>ml_dsa::public_key_is_degenerate\<close>.
\<close>

record tx_schemes =
  lattice :: ml_dsa
  stateless :: ml_dsa
  degenerate :: "bytes \<Rightarrow> bool"

definition tx_verify :: "(bytes \<Rightarrow> bytes) \<Rightarrow> tx_schemes \<Rightarrow> wrapper \<Rightarrow> bytes \<Rightarrow> bytes \<Rightarrow> bool" where
  "tx_verify H T w pk genesis =
     (let digest = body_digest H (tx_body_of w) genesis in
      if tx_scheme w = SCHEME_LATTICE then
        (if length pk \<noteq> PUBLIC_KEY_BYTES (lattice T) then False
         else if length (tx_signature w) \<noteq> SIGNATURE_BYTES (lattice T) then False
         else ml_dsa_verify (lattice T) pk digest (tx_signature w) DOMAIN_TX)
      else if tx_scheme w = SCHEME_HASH then
        (if length pk \<noteq> PUBLIC_KEY_BYTES (stateless T) then False
         else if length (tx_signature w) \<noteq> SIGNATURE_BYTES (stateless T) then False
         else ml_dsa_verify (stateless T) pk digest (tx_signature w) DOMAIN_TX)
      else False)"

text \<open>The address of a key; None is the panic of the \<^verbatim>\<open>expect\<close>.\<close>

definition address_for_key :: "(bytes \<Rightarrow> bytes) \<Rightarrow> u8 \<Rightarrow> bytes \<Rightarrow> bytes option" where
  "address_for_key H scheme pk =
     (case render_address (H (scheme # pk)) of Some (Inr a) \<Rightarrow> Some a | _ \<Rightarrow> None)"

section \<open>The reader of the network\<close>

datatype wire_error =
    Wire_Codec codec_error
  | Wire_UnknownTag u8
  | BadParent u8
  | BadStage u8
  | BadLength
  | Utf8
  | BadAddress

abbreviation wire :: "'a decode \<Rightarrow> (wire_error, 'a) reader" where
  "wire \<equiv> derr Wire_Codec"

definition read_address :: "(wire_error, bytes) reader" where
  "read_address = dbind (wire get_bytes) (\<lambda>payload.
     case render_address payload of Some (Inr t) \<Rightarrow> dret t | _ \<Rightarrow> dfail BadAddress)"

definition decode_wrapper :: "(wire_error, wrapper) reader" where
  "decode_wrapper =
     dbind read_address (\<lambda>sender. dbind (wire get_u64) (\<lambda>nonce. dbind (wire get_u64) (\<lambda>meter_limit.
     dbind (wire get_u128) (\<lambda>fee. dbind read_address (\<lambda>target. dbind (wire get_bytes) (\<lambda>args.
     dbind (wire get_u64) (\<lambda>v. dbind (wire get_u64) (\<lambda>chain_id. dbind (wire get_bytes) (\<lambda>asset.
     dbind (if length asset = 0 then dret None else if length asset = 32 then dret (Some asset)
            else dfail BadLength) (\<lambda>in_asset.
     dbind (wire get_u64) (\<lambda>valid_until. dbind (wire get_u8) (\<lambda>kind. dbind (wire get_u8) (\<lambda>scheme.
     if \<not> scheme_supported scheme then dfail (Wire_UnknownTag scheme)
     else dbind (wire get_bytes) (\<lambda>signature.
       dret \<lparr>tx_body_of = (with_context sender nonce meter_limit fee
               \<lparr>call_target = target, call_args = args\<rparr> v chain_id)
               \<lparr>tx_in_asset := in_asset, tx_valid_until := valid_until, tx_kind := kind\<rparr>,
             tx_scheme = scheme, tx_signature = signature\<rparr>))))))))))))))"

section \<open>Fees and upgrades\<close>

definition MICRO_USD_FLOOR :: u128 where "MICRO_USD_FLOOR = 500"
definition MICRO_USD_CEILING :: u128 where "MICRO_USD_CEILING = 1000"
definition DEPLOY_FEE_MICRO_USD :: u128 where "DEPLOY_FEE_MICRO_USD = 5000000"

definition asset_tag :: "string \<Rightarrow> bytes" where
  "asset_tag name = take 8 (ascii name @ replicate 8 0)"

definition QTOV_ASSET_TAG :: bytes where "QTOV_ASSET_TAG = asset_tag ''QTOV''"

record fee_params =
  transfer_micro_usd :: u128
  rate_micro_usd_per_qtov :: u128
  native_unit :: u128
  max_fee_native :: u64
  fee_chain_id :: u64
  native_asset :: bytes
  deploy_treasury :: bytes

definition fee_params_devnet :: fee_params where
  "fee_params_devnet =
     \<lparr>transfer_micro_usd = MICRO_USD_FLOOR, rate_micro_usd_per_qtov = 1000000, native_unit = 1000000,
      max_fee_native = 1000, fee_chain_id = LOCAL_CHAIN_ID, native_asset = asset_tag ''QDEVNET'',
      deploy_treasury = replicate 32 222\<rparr>"

text \<open>\<open>u64::try_from(x).unwrap_or(u64::MAX)\<close>.\<close>

definition clip_u64 :: "u128 \<Rightarrow> u64" where
  "clip_u64 x = (if unat x < 2 ^ 64 then ucast x else - 1)"

definition priced :: "fee_params \<Rightarrow> u128 \<Rightarrow> u64" where
  "priced p micro_usd =
     clip_u64 (case checked_div (saturating_mul micro_usd (native_unit p)) (rate_micro_usd_per_qtov p) of
         Some n \<Rightarrow> n | None \<Rightarrow> 0)"

definition native_fee :: "fee_params \<Rightarrow> u128 \<Rightarrow> u64" where
  "native_fee p micro_usd =
     min (priced p (max MICRO_USD_FLOOR (min micro_usd MICRO_USD_CEILING))) (max_fee_native p)"

definition transfer_fee :: "fee_params \<Rightarrow> u64" where
  "transfer_fee p = native_fee p (transfer_micro_usd p)"

definition ceiling_fee :: "fee_params \<Rightarrow> u64" where
  "ceiling_fee p = native_fee p MICRO_USD_CEILING"

definition deploy_fee :: "fee_params \<Rightarrow> u64" where
  "deploy_fee p = priced p DEPLOY_FEE_MICRO_USD"

text \<open>
  The fee a body is charged, written at every dispatcher: what it offers, at most the ceiling.
\<close>

definition charged_fee :: "fee_params \<Rightarrow> tx_body \<Rightarrow> u64" where
  "charged_fee p b =
     (let offer = min (tx_fee b) (ucast (ceiling_fee p)) in
      if unat offer < 2 ^ 64 then ucast offer else ceiling_fee p)"

record upgrades =
  gas_metered_from_height :: u64
  bound_draw_from_epoch :: u64
  hardened_from_height :: u64

definition FROM_GENESIS :: upgrades where
  "FROM_GENESIS = \<lparr>gas_metered_from_height = 0, bound_draw_from_epoch = 0, hardened_from_height = 0\<rparr>"

definition TESTNET :: upgrades where
  "TESTNET = \<lparr>gas_metered_from_height = 0, bound_draw_from_epoch = 0, hardened_from_height = 0\<rparr>"

definition for_chain :: "u64 \<Rightarrow> upgrades" where
  "for_chain chain_id = (if chain_id = TESTNET_CHAIN_ID then TESTNET else FROM_GENESIS)"

definition hardened :: "upgrades \<Rightarrow> u64 \<Rightarrow> bool" where
  "hardened u height \<longleftrightarrow> hardened_from_height u \<le> height"

definition gas_metered :: "upgrades \<Rightarrow> u64 \<Rightarrow> bool" where
  "gas_metered u height \<longleftrightarrow> gas_metered_from_height u \<le> height"

definition bound_draw :: "upgrades \<Rightarrow> u64 \<Rightarrow> bool" where
  "bound_draw u epoch \<longleftrightarrow> bound_draw_from_epoch u \<le> epoch"

definition full_committee :: "upgrades \<Rightarrow> u64 \<Rightarrow> u64 \<Rightarrow> bool" where
  "full_committee u epoch heights_per_epoch \<longleftrightarrow> hardened_from_height u \<le> saturating_mul epoch heights_per_epoch"

section \<open>Addresses on the wire\<close>

lemma render_address_Some: "render_address p = Some (Inr t) \<longleftrightarrow> length p = 32 \<and> render_text HRP_ADDRESS p = Some t"
  by (auto simp: render_address_def render_checked_def check_digest_def DIGEST_LEN_def)

lemma parse_render: "parse_address t = Inr p \<longleftrightarrow> one_case t \<and> render_address p = Some (Inr (map to_ascii_uppercase t))"
proof -
  have "render_text HRP_ADDRESS p = Some (map to_ascii_uppercase t) \<Longrightarrow> length p = 32 \<Longrightarrow> length t \<le> MAX_ENCODED"
    using render_digest_length [of HRP_ADDRESS p "map to_ascii_uppercase t"]
    by (simp add: hrp_bytes MAX_ENCODED_def)
  moreover have "parse_address t = Inr p \<longleftrightarrow> parse_text HRP_ADDRESS t = Inr p \<and> length p = 32"
    by (auto simp: parse_address_def parse_checked_def check_digest_def DIGEST_LEN_def
        split: sum.splits if_splits)
  ultimately show ?thesis
    by (auto simp: parse_iff_render valid_hrps render_address_Some)
qed

text \<open>A text as \<^verbatim>\<open>read_address\<close> returns it: the rendering of its payload.\<close>

definition rendered :: "bytes \<Rightarrow> bool" where
  "rendered t \<longleftrightarrow> (\<exists>p. render_address p = Some (Inr t))"

lemma rendered_parse: "render_address p = Some (Inr t) \<longleftrightarrow> rendered t \<and> parse_address t = Inr p"
proof
  assume r: "render_address p = Some (Inr t)"
  then have "map to_ascii_uppercase t = t" "one_case t"
    using render_text_upper by (auto simp: render_address_Some)
  with r show "rendered t \<and> parse_address t = Inr p"
    by (auto simp: rendered_def parse_render)
next
  assume "rendered t \<and> parse_address t = Inr p"
  then obtain q where q: "render_address q = Some (Inr t)" and p: "parse_address t = Inr p"
    by (auto simp: rendered_def)
  from q have "map to_ascii_uppercase t = t"
    using render_text_upper by (auto simp: render_address_Some)
  with p show "render_address p = Some (Inr t)"
    by (simp add: parse_render)
qed

lemma rendered_upper: "parse_address t = Inr p \<Longrightarrow> rendered (map to_ascii_uppercase t) \<and> parse_address (map to_ascii_uppercase t) = Inr p"
  by (simp add: parse_render [of t] rendered_parse)

lemma put_address_rendered:
  assumes "rendered t"
  shows "\<exists>p. parse_address t = Inr p \<and> length p = 32 \<and> put_address t = put_bytes p"
proof -
  obtain p where p: "render_address p = Some (Inr t)" using assms by (auto simp: rendered_def)
  then have "parse_address t = Inr p" "length p = 32"
    by (simp_all only: rendered_parse) (simp add: render_address_Some [THEN iffD1, OF p])
  then show ?thesis by (simp add: put_address_def)
qed

lemma put_address_append: "put_address t buf = buf @ put_address t []"
  by (simp add: put_address_def put_append split: sum.split)

lemma case_render_Inr:
  "(case r of Some (Inr t) \<Rightarrow> dret t | _ \<Rightarrow> dfail e) d = Inr (v, d') \<longleftrightarrow> r = Some (Inr v) \<and> d' = d"
  by (auto simp: dret_def dfail_def split: option.splits sum.splits)

lemma read_address_Inr:
  "read_address d = Inr (t, d') \<longleftrightarrow> rendered t \<and> consumes d (put_address t []) d'"
proof
  assume "read_address d = Inr (t, d')"
  then obtain p where p: "get_bytes d = Inr (p, d')" "render_address p = Some (Inr t)"
    by (auto simp: read_address_def dbind_Inr derr_Inr case_render_Inr)
  then have "rendered t" "put_address t = put_bytes p"
    by (auto simp: rendered_parse put_address_def)
  with p(1) show "rendered t \<and> consumes d (put_address t []) d'"
    by (simp add: bytesc.decode_iff)
next
  assume a: "rendered t \<and> consumes d (put_address t []) d'"
  then obtain p where p: "parse_address t = Inr p" "put_address t = put_bytes p"
    using put_address_rendered by blast
  with a have "get_bytes d = Inr (p, d')" "render_address p = Some (Inr t)"
    by (simp_all add: bytesc.decode_iff rendered_parse)
  then show "read_address d = Inr (t, d')"
    by (simp add: read_address_def dbind_read wire derr_def dret_def dbind_def)
qed

lemma read_address_written:
  "rendered t \<Longrightarrow> consumes d (put_address t []) d' \<longleftrightarrow> read_address d = Inr (t, d')"
  by (simp add: read_address_Inr)

lemma derr_read: "p d = Inr r \<Longrightarrow> derr convert p d = Inr r"
  by (simp add: derr_Inr)

lemma puts_address: "puts (put_address t # ps) buf = puts ps (buf @ put_address t [])"
  by (simp add: puts.simps put_address_append [of t buf])

lemma puts_assoc: "puts (encode_call c # ps) buf = puts (put_address (call_target c) # put_bytes (call_args c) # ps) buf"
  by (simp add: encode_call_def puts.simps)

lemma encode_body_append: "encode_body b buf = buf @ encode_body b []"
  by (simp add: encode_body_def puts_assoc wire puts_address)

lemma puts_body: "puts (encode_body b # ps) buf = puts ps (buf @ encode_body b [])"
  by (simp add: puts.simps encode_body_append [of b buf])

section \<open>The wrapper on the wire\<close>

text \<open>What the reader accepts: rendered addresses, an asset of 32 bytes, a supported scheme.\<close>

definition body_ok :: "tx_body \<Rightarrow> bool" where
  "body_ok b \<longleftrightarrow> rendered (tx_sender b) \<and> rendered (call_target (tx_call_of b)) \<and>
     pred_option (\<lambda>a. length a = 32) (tx_in_asset b)"

definition wrapper_ok :: "wrapper \<Rightarrow> bool" where
  "wrapper_ok w \<longleftrightarrow> body_ok (tx_body_of w) \<and> scheme_supported (tx_scheme w)"

lemma read_asset_Inr:
  "(if asset = [] then dret None else if length asset = 32 then dret (Some asset) else dfail BadLength) d
     = Inr (a, d') \<longleftrightarrow>
   d' = d \<and> pred_option (\<lambda>a. length a = 32) a \<and> asset = (case a of Some a \<Rightarrow> a | None \<Rightarrow> [])"
  by (cases a) (auto simp: dret_def dfail_def)

lemma guard_Inr: "(if c then dfail e else p) d = Inr r \<longleftrightarrow> \<not> c \<and> p d = Inr r"
  by (simp add: dfail_def)

lemma encode_wrapper_flat:
  "encode_wrapper w = puts
     [put_address (tx_sender (tx_body_of w)), put_u64 (tx_nonce (tx_body_of w)), put_u64 (tx_meter_limit (tx_body_of w)),
      put_u128 (tx_fee (tx_body_of w)), put_address (tx_target w), put_bytes (tx_args w),
      put_u64 (tx_value (tx_body_of w)), put_u64 (tx_chain_id (tx_body_of w)),
      put_bytes (case tx_in_asset (tx_body_of w) of Some a \<Rightarrow> a | None \<Rightarrow> []),
      put_u64 (tx_valid_until (tx_body_of w)), put_u8 (tx_kind (tx_body_of w)), put_u8 (tx_scheme w),
      put_bytes (tx_signature w)]"
  by (rule ext) (simp add: encode_wrapper_def encode_body_def encode_call_def puts.simps)

lemma decode_wrapper_Inr:
  "decode_wrapper d = Inr (w, d') \<longleftrightarrow> wrapper_ok w \<and> consumes d (encode_wrapper w []) d'"
proof -
  obtain b s sig where w: "w = \<lparr>tx_body_of = b, tx_scheme = s, tx_signature = sig\<rparr>" by (cases w)
  obtain sender n ml fee v chain c asset vu k where
    b: "b = \<lparr>tx_sender = sender, tx_nonce = n, tx_meter_limit = ml, tx_fee = fee, tx_value = v,
      tx_chain_id = chain, tx_call_of = c, tx_in_asset = asset, tx_valid_until = vu, tx_kind = k\<rparr>" by (cases b)
  obtain target args where c: "c = \<lparr>call_target = target, call_args = args\<rparr>" by (cases c)
  note parts = wire wrapper_ok_def body_ok_def encode_wrapper_flat puts_address
  show ?thesis
  proof
    assume "decode_wrapper d = Inr (w, d')"
    then show "wrapper_ok w \<and> consumes d (encode_wrapper w []) d'"
      unfolding w b c decode_wrapper_def
      by (clarsimp simp: parts guard_Inr read_asset_Inr read_address_Inr with_context_def)
        (assumption | rule exI conjI)+
  next
    assume "wrapper_ok w \<and> consumes d (encode_wrapper w []) d'"
    then show "decode_wrapper d = Inr (w, d')"
      unfolding w b c
      by (clarsimp simp: parts read_address_written)
        (simp add: decode_wrapper_def dbind_read derr_read read_asset_Inr [THEN iffD2] with_context_def dret_def)
  qed
qed

section \<open>What a signature covers\<close>

definition canonical_body :: "tx_body \<Rightarrow> tx_body" where
  "canonical_body b = b\<lparr>tx_sender := map to_ascii_uppercase (tx_sender b),
     tx_call_of := (tx_call_of b)\<lparr>call_target := map to_ascii_uppercase (call_target (tx_call_of b))\<rparr>\<rparr>"

text \<open>
  The asset is an array of 32 bytes, and the arguments are a vector, which holds fewer than
  \<open>2 ^ 63\<close> bytes.
\<close>

definition body_sized :: "tx_body \<Rightarrow> bool" where
  "body_sized b \<longleftrightarrow> pred_option (\<lambda>a. length a = 32) (tx_in_asset b) \<and> length (call_args (tx_call_of b)) < 2 ^ 63"

lemma put_address_upper:
  "parse_address t = Inr p \<Longrightarrow> put_address (map to_ascii_uppercase t) = put_address t"
  using rendered_upper [of t p] by (simp add: put_address_def)

lemma encode_canonical: "addresses_parse b \<Longrightarrow> encode_body (canonical_body b) = encode_body b"
  by (auto simp: addresses_parse_def encode_body_def encode_call_def canonical_body_def put_address_upper
      split: sum.splits)

lemma canonical_ok: "addresses_parse b \<Longrightarrow> body_sized b \<Longrightarrow> body_ok (canonical_body b)"
  by (auto simp: addresses_parse_def body_sized_def body_ok_def canonical_body_def dest: rendered_upper
      split: sum.splits)

lemma put_address_length: "parse_address t = Inr p \<Longrightarrow> length (put_address t []) = 40"
  using rendered_upper [of t p] put_address_rendered [of "map to_ascii_uppercase t"]
  by (auto simp: put_address_upper put_bytes_def put_u64_def puts.simps)

lemma encode_body_length:
  assumes "addresses_parse b" and "body_sized b"
  shows "length (encode_body b []) < 2 ^ 63 + 1000"
proof -
  obtain p q where "parse_address (tx_sender b) = Inr p" "parse_address (call_target (tx_call_of b)) = Inr q"
    using assms(1) by (auto simp: addresses_parse_def split: sum.splits)
  then have "length (put_address (tx_sender b) []) = 40" "length (put_address (call_target (tx_call_of b)) []) = 40"
    by (simp_all add: put_address_length)
  moreover have "length (case tx_in_asset b of Some a \<Rightarrow> a | None \<Rightarrow> []) \<le> 32"
    using assms(2) by (auto simp: body_sized_def split: option.split)
  ultimately show ?thesis
    using assms(2)
    by (simp add: encode_body_def encode_call_def puts_address puts.simps put_address_append [of _ "a @ b" for a b]
        put_bytes_def put_u8_def put_u64_def put_u128_def body_sized_def)
qed

lemma body_encoding_inj:
  assumes "body_ok b" "body_ok b'" and "encode_body b [] = encode_body b' []"
    and "length (encode_body b []) < 2 ^ 63 + 1000"
  shows "b = b'"
proof -
  let ?w = "\<lambda>b. \<lparr>tx_body_of = b, tx_scheme = SCHEME_LATTICE, tx_signature = []\<rparr>"
  let ?bs = "encode_wrapper (?w b) []"
  have same: "encode_wrapper (?w b') [] = ?bs"
    using assms(3) by (simp add: encode_wrapper_def puts.simps)
  have "length ?bs < 2 ^ 64"
    using assms(4) by (simp add: encode_wrapper_def puts.simps put_u8_def put_bytes_def put_u64_def)
  then have "\<exists>d. consumes (new_decoder ?bs) ?bs d"
    by (auto simp: consumes_def new_decoder_def)
  moreover have "wrapper_ok (?w b)" "wrapper_ok (?w b')"
    using assms(1,2) by (simp_all add: wrapper_ok_def scheme_supported_def)
  ultimately have "\<exists>d. decode_wrapper (new_decoder ?bs) = Inr (?w b, d) \<and> decode_wrapper (new_decoder ?bs) = Inr (?w b', d)"
    by (simp add: decode_wrapper_Inr same)
  then show ?thesis by auto
qed

lemma checked_div_mono:
  "unat a \<le> unat b \<Longrightarrow>
   unat (case checked_div a r of Some n \<Rightarrow> n | None \<Rightarrow> 0) \<le> unat (case checked_div b r of Some n \<Rightarrow> n | None \<Rightarrow> (0 :: u128))"
  by (auto simp: checked_div_def unat_div div_le_mono)

lemma priced_mono:
  assumes "x \<le> y"
  shows "priced p x \<le> priced p y"
proof -
  have clip: "unat a \<le> unat b \<Longrightarrow> clip_u64 a \<le> clip_u64 b" for a b
    using unat_le_max [of "ucast a :: u64"] by (simp add: clip_u64_def word_le_nat_alt unat_max_word unat_narrow_128_64)
  have "unat (saturating_mul x (native_unit p)) \<le> unat (saturating_mul y (native_unit p))"
    using assms by (auto simp: word_nat intro: min.coboundedI1)
  then show ?thesis
    unfolding priced_def by (intro clip checked_div_mono)
qed

section \<open>Claims\<close>

text \<open>
  C32: a signature covers the whole transaction.  For transactions whose addresses parse, as the executor
  requires, the signed bytes agree exactly when the genesis and every field agree, the addresses up to
  letter case: no two different transactions, and no two chains, share a signed message.
\<close>

theorem signature_binds_body:
  assumes "length g = 32" and "length g' = 32"
    and "addresses_parse b" and "addresses_parse b'" and "body_sized b" and "body_sized b'"
  shows "body_preimage b g = body_preimage b' g' \<longleftrightarrow> g = g' \<and> canonical_body b = canonical_body b'"
proof
  assume e: "body_preimage b g = body_preimage b' g'"
  then have "g = g'" "encode_body b [] = encode_body b' []"
    using assms(1,2) by (auto simp: body_preimage_def to_bytes_def)
  then have "canonical_body b = canonical_body b'"
    using assms encode_body_length [OF assms(3,5)]
    by (intro body_encoding_inj) (simp_all add: canonical_ok encode_canonical)
  with \<open>g = g'\<close> show "g = g' \<and> canonical_body b = canonical_body b'" ..
next
  assume "g = g' \<and> canonical_body b = canonical_body b'"
  then show "body_preimage b g = body_preimage b' g'"
    using encode_canonical [OF assms(3)] encode_canonical [OF assms(4)]
    by (simp add: body_preimage_def to_bytes_def)
qed

theorem signature_binds_body_witness:
  "\<exists>t. let tx = (\<lambda>nonce. with_context t nonce 0 0 \<lparr>call_target = t, call_args = [7]\<rparr> 0 TESTNET_CHAIN_ID) in
     addresses_parse (tx 0) \<and> body_sized (tx 0) \<and>
     body_preimage (tx 0) (replicate 32 1) \<noteq> body_preimage (tx 1) (replicate 32 1)"
proof -
  obtain t where t: "render_address (replicate 32 7) = Some (Inr t)"
    using render_text_total by (fastforce simp: render_address_Some)
  define tx where "tx = (\<lambda>nonce. with_context t nonce 0 0 \<lparr>call_target = t, call_args = [7]\<rparr> 0 TESTNET_CHAIN_ID)"
  have a: "addresses_parse (tx n)" "body_sized (tx n)" for n
    using t unfolding rendered_parse by (simp_all add: tx_def with_context_def addresses_parse_def body_sized_def)
  have "body_preimage (tx 0) (replicate 32 1) \<noteq> body_preimage (tx 1) (replicate 32 1)"
    using signature_binds_body [of "replicate 32 1" "replicate 32 1" "tx 0" "tx 1"] a
    by (simp add: tx_def with_context_def canonical_body_def)
  then show ?thesis
    using a by (auto simp: tx_def)
qed

text \<open>
  C33: the reader of the network inverts the encoder.  From any position, a wrapper is read exactly when
  the bytes there are its encoding and it is well formed (both addresses in their rendered form, an
  asset of 32 bytes, a scheme with a verifier); every other input is an error.
\<close>

theorem wrapper_wire_canonical:
  "decode_wrapper d = Inr (w, d') \<longleftrightarrow> wrapper_ok w \<and> consumes d (encode_wrapper w []) d'"
  by (rule decode_wrapper_Inr)


end
