(* ===== verification/Evidence.thy ===== *)
theory Evidence
  imports Events Tx "HOL-Library.Finite_Map" "HOL-Library.List_Lexorder"
begin

text \<open>
  Evidence of misbehaviour, \<^verbatim>\<open>src/crates/qtv-node/src/evidence.rs\<close>: two blocks attested in one view,
  two prevotes or two proposals in one view, a prevote against one's own lock, two finalised blocks.
  Each kind has its encoding and the check that attributes it to the holder of an attestation key; the
  pool of a node watches attestations and collects equivocations.  The consensus crate supplies the
  encoding of a block, the digest of a vote and the signing context: they are the parameter \<open>bft\<close>.
\<close>

section \<open>Signed messages\<close>

record bft =
  block_bytes :: "u64 \<Rightarrow> bytes \<Rightarrow> bytes option \<Rightarrow> u64 \<Rightarrow> bytes"
  digest_256 :: "bytes \<Rightarrow> bytes"
  ATTEST_CONTEXT :: bytes

text \<open>\<open>block_bytes height value parent cost\<close> is \<^verbatim>\<open>Block::with_cost(height, value, parent, cost).to_bytes()\<close>.\<close>

record chain_binding =
  binding_chain :: u64
  binding_genesis :: bytes

definition VIEW_CHANGE_SUBJECT_COST :: u64 where "VIEW_CHANGE_SUBJECT_COST = - 1"

definition le64 :: "u64 \<Rightarrow> bytes" where
  "le64 v = le_of_nat 8 (unat v)"

definition subject_is_view_change :: "bytes \<Rightarrow> bool" where
  "subject_is_view_change block \<longleftrightarrow>
     8 \<le> length block \<and> drop (length block - 8) block = le64 VIEW_CHANGE_SUBJECT_COST"

definition attestation_message :: "chain_binding \<Rightarrow> u64 \<Rightarrow> u64 \<Rightarrow> u64 \<Rightarrow> bytes \<Rightarrow> bytes \<Rightarrow> bytes" where
  "attestation_message c height slot view committee block =
     le64 (binding_chain c) @ binding_genesis c @ le64 height @ le64 slot @ le64 view @ committee @ block"

text \<open>The conversions to arrays and the verification, as every check below runs them.\<close>

definition signed_by :: "ml_dsa \<Rightarrow> bft \<Rightarrow> bytes \<Rightarrow> bytes \<Rightarrow> bytes \<Rightarrow> bool" where
  "signed_by S F pk msg sig \<longleftrightarrow>
     length pk = PUBLIC_KEY_BYTES S \<and> length sig = SIGNATURE_BYTES S \<and> ml_dsa_verify S pk msg sig (ATTEST_CONTEXT F)"

section \<open>Two attestations in one view\<close>

record equivocation =
  eq_offender :: bytes
  eq_height :: u64
  eq_view_a :: u64
  eq_view_b :: u64
  eq_slot_a :: u64
  eq_slot_b :: u64
  eq_committee_a :: bytes
  eq_committee_b :: bytes
  eq_block_a :: bytes
  eq_sig_a :: bytes
  eq_block_b :: bytes
  eq_sig_b :: bytes

definition equivocation_attributes :: "ml_dsa \<Rightarrow> bft \<Rightarrow> chain_binding \<Rightarrow> bytes \<Rightarrow> equivocation \<Rightarrow> bool" where
  "equivocation_attributes S F c pk e =
     (if eq_block_a e = eq_block_b e then False
      else if eq_view_a e \<noteq> eq_view_b e then False
      else if subject_is_view_change (eq_block_a e) \<or> subject_is_view_change (eq_block_b e) then False
      else
        signed_by S F pk
          (attestation_message c (eq_height e) (eq_slot_a e) (eq_view_a e) (eq_committee_a e) (eq_block_a e)) (eq_sig_a e) \<and>
        signed_by S F pk
          (attestation_message c (eq_height e) (eq_slot_b e) (eq_view_b e) (eq_committee_b e) (eq_block_b e)) (eq_sig_b e))"

definition encode_equivocation :: "equivocation \<Rightarrow> encoder \<Rightarrow> encoder" where
  "encode_equivocation e = puts
     [put_bytes (eq_offender e), put_u64 (eq_height e), put_u64 (eq_view_a e), put_u64 (eq_view_b e),
      put_u64 (eq_slot_a e), put_u64 (eq_slot_b e), put_bytes (eq_committee_a e), put_bytes (eq_committee_b e),
      put_bytes (eq_block_a e), put_bytes (eq_sig_a e), put_bytes (eq_block_b e), put_bytes (eq_sig_b e)]"

definition get_equivocation :: "equivocation decode" where
  "get_equivocation =
     dbind get_text (\<lambda>offender. dbind get_u64 (\<lambda>height. dbind get_u64 (\<lambda>view_a. dbind get_u64 (\<lambda>view_b.
     dbind get_u64 (\<lambda>slot_a. dbind get_u64 (\<lambda>slot_b. dbind get_word32 (\<lambda>committee_a. dbind get_word32 (\<lambda>committee_b.
     dbind get_bytes (\<lambda>block_a. dbind get_bytes (\<lambda>sig_a. dbind get_bytes (\<lambda>block_b. dbind get_bytes (\<lambda>sig_b.
     dret \<lparr>eq_offender = offender, eq_height = height, eq_view_a = view_a, eq_view_b = view_b,
       eq_slot_a = slot_a, eq_slot_b = slot_b, eq_committee_a = committee_a, eq_committee_b = committee_b,
       eq_block_a = block_a, eq_sig_a = sig_a, eq_block_b = block_b, eq_sig_b = sig_b\<rparr>))))))))))))"

text \<open>The decoders end in \<^verbatim>\<open>decoder.finish().ok()?\<close>: every error becomes None.\<close>

definition opened :: "'a decode \<Rightarrow> bytes \<Rightarrow> 'a option" where
  "opened p bs = (case from_bytes p bs of Inr x \<Rightarrow> Some x | Inl _ \<Rightarrow> None)"

definition decode_equivocation :: "bytes \<Rightarrow> equivocation option" where
  "decode_equivocation = opened get_equivocation"

section \<open>Two prevotes in one view\<close>

definition PREVOTE_DOMAIN :: bytes where "PREVOTE_DOMAIN = ascii ''QTV-CONSENSUS-PREVOTE''"

definition prevote_digest :: "u64 \<Rightarrow> u64 \<Rightarrow> bytes \<Rightarrow> u64 option \<Rightarrow> bytes" where
  "prevote_digest height view val pol =
     PREVOTE_DOMAIN @ le64 height @ le64 view @ val @
     (case pol of Some p \<Rightarrow> 1 # le64 p | None \<Rightarrow> 0 # le64 0)"

definition prevote_block :: "bft \<Rightarrow> u64 \<Rightarrow> u64 \<Rightarrow> bytes \<Rightarrow> u64 option \<Rightarrow> bytes" where
  "prevote_block F height view val pol =
     block_bytes F height (digest_256 F (prevote_digest height view val pol)) None VIEW_CHANGE_SUBJECT_COST"

record signed_prevote =
  pv_slot :: u64
  pv_committee :: bytes
  pv_value :: bytes
  pv_pol :: "u64 option"
  pv_sig :: bytes

definition prevote_verifies :: "ml_dsa \<Rightarrow> bft \<Rightarrow> chain_binding \<Rightarrow> bytes \<Rightarrow> u64 \<Rightarrow> u64 \<Rightarrow> signed_prevote \<Rightarrow> bool" where
  "prevote_verifies S F c pk height view v \<longleftrightarrow>
     signed_by S F pk
       (attestation_message c height (pv_slot v) view (pv_committee v) (prevote_block F height view (pv_value v) (pv_pol v)))
       (pv_sig v)"

definition put_pol :: "u64 option \<Rightarrow> encoder \<Rightarrow> encoder" where
  "put_pol pol = (case pol of Some p \<Rightarrow> puts [put_u8 1, put_u64 p] | None \<Rightarrow> puts [put_u8 0, put_u64 0])"

definition get_pol :: "u64 option decode" where
  "get_pol = dbind get_u8 (\<lambda>flag. dbind get_u64 (\<lambda>pol.
     if flag = 1 then dret (Some pol) else if flag = 0 \<and> pol = 0 then dret None else dfail dropped))"

definition put_prevote :: "signed_prevote \<Rightarrow> encoder \<Rightarrow> encoder" where
  "put_prevote v = puts [put_u64 (pv_slot v), put_bytes (pv_committee v), put_bytes (pv_value v), put_pol (pv_pol v),
     put_bytes (pv_sig v)]"

definition get_prevote :: "signed_prevote decode" where
  "get_prevote = dbind get_u64 (\<lambda>slot. dbind get_word32 (\<lambda>committee. dbind get_word32 (\<lambda>val.
     dbind get_pol (\<lambda>pol. dbind get_bytes (\<lambda>sig.
     dret \<lparr>pv_slot = slot, pv_committee = committee, pv_value = val, pv_pol = pol, pv_sig = sig\<rparr>)))))"

definition PREVOTE_EQUIVOCATION_TAG :: bytes where "PREVOTE_EQUIVOCATION_TAG = ascii ''QTV-PREVOTE-EQUIVOCATION/1''"

record prevote_equivocation =
  pe_offender :: bytes
  pe_height :: u64
  pe_view :: u64
  pe_first :: signed_prevote
  pe_second :: signed_prevote

definition prevote_equivocation_attributes ::
    "ml_dsa \<Rightarrow> bft \<Rightarrow> chain_binding \<Rightarrow> bytes \<Rightarrow> prevote_equivocation \<Rightarrow> bool" where
  "prevote_equivocation_attributes S F c pk e =
     (if (pv_value (pe_first e), pv_pol (pe_first e)) = (pv_value (pe_second e), pv_pol (pe_second e)) then False
      else prevote_verifies S F c pk (pe_height e) (pe_view e) (pe_first e) \<and>
        prevote_verifies S F c pk (pe_height e) (pe_view e) (pe_second e))"

definition expect_tag :: "bytes \<Rightarrow> unit decode" where
  "expect_tag tag = dbind get_bytes (\<lambda>t. if t \<noteq> tag then dfail dropped else dret ())"

definition encode_prevote_equivocation :: "prevote_equivocation \<Rightarrow> encoder \<Rightarrow> encoder" where
  "encode_prevote_equivocation e = puts
     [put_bytes PREVOTE_EQUIVOCATION_TAG, put_bytes (pe_offender e), put_u64 (pe_height e), put_u64 (pe_view e),
      put_prevote (pe_first e), put_prevote (pe_second e)]"

definition get_prevote_equivocation :: "prevote_equivocation decode" where
  "get_prevote_equivocation = dbind (expect_tag PREVOTE_EQUIVOCATION_TAG) (\<lambda>_.
     dbind get_text (\<lambda>offender. dbind get_u64 (\<lambda>height. dbind get_u64 (\<lambda>view.
     dbind get_prevote (\<lambda>first. dbind get_prevote (\<lambda>second.
     dret \<lparr>pe_offender = offender, pe_height = height, pe_view = view, pe_first = first, pe_second = second\<rparr>))))))"

definition decode_prevote_equivocation :: "bytes \<Rightarrow> prevote_equivocation option" where
  "decode_prevote_equivocation = opened get_prevote_equivocation"

section \<open>Two proposals in one view\<close>

definition PROPOSAL_DOMAIN :: bytes where "PROPOSAL_DOMAIN = ascii ''QTV-CONSENSUS-PROPOSAL-v2''"

record proposal_shape =
  header_hash :: bytes
  shape_root :: bytes
  shape_k :: u64
  shape_n :: u64
  shard_len :: u64
  data_len :: u64

definition proposal_digest :: "u64 \<Rightarrow> u64 \<Rightarrow> proposal_shape \<Rightarrow> bytes" where
  "proposal_digest height view p =
     PROPOSAL_DOMAIN @ le64 height @ le64 view @ header_hash p @ shape_root p @ le64 (shape_k p) @ le64 (shape_n p) @
     le64 (shard_len p) @ le64 (data_len p)"

definition proposal_block :: "bft \<Rightarrow> u64 \<Rightarrow> u64 \<Rightarrow> proposal_shape \<Rightarrow> bytes" where
  "proposal_block F height view p =
     block_bytes F height (digest_256 F (proposal_digest height view p)) None VIEW_CHANGE_SUBJECT_COST"

record signed_proposal =
  pr_slot :: u64
  pr_committee :: bytes
  pr_shape :: proposal_shape
  pr_sig :: bytes

definition proposal_verifies :: "ml_dsa \<Rightarrow> bft \<Rightarrow> chain_binding \<Rightarrow> bytes \<Rightarrow> u64 \<Rightarrow> u64 \<Rightarrow> signed_proposal \<Rightarrow> bool" where
  "proposal_verifies S F c pk height view p \<longleftrightarrow>
     signed_by S F pk
       (attestation_message c height (pr_slot p) view (pr_committee p) (proposal_block F height view (pr_shape p)))
       (pr_sig p)"

definition put_proposal :: "signed_proposal \<Rightarrow> encoder \<Rightarrow> encoder" where
  "put_proposal p = puts [put_u64 (pr_slot p), put_bytes (pr_committee p), put_bytes (header_hash (pr_shape p)),
     put_bytes (shape_root (pr_shape p)), put_u64 (shape_k (pr_shape p)), put_u64 (shape_n (pr_shape p)),
     put_u64 (shard_len (pr_shape p)), put_u64 (data_len (pr_shape p)), put_bytes (pr_sig p)]"

definition get_proposal :: "signed_proposal decode" where
  "get_proposal = dbind get_u64 (\<lambda>slot. dbind get_word32 (\<lambda>committee. dbind get_word32 (\<lambda>hh. dbind get_word32 (\<lambda>root.
     dbind get_u64 (\<lambda>k. dbind get_u64 (\<lambda>n. dbind get_u64 (\<lambda>sl. dbind get_u64 (\<lambda>dl. dbind get_bytes (\<lambda>sig.
     dret \<lparr>pr_slot = slot, pr_committee = committee,
       pr_shape = \<lparr>header_hash = hh, shape_root = root, shape_k = k, shape_n = n, shard_len = sl, data_len = dl\<rparr>,
       pr_sig = sig\<rparr>)))))))))"

definition PROPOSAL_EQUIVOCATION_TAG :: bytes where "PROPOSAL_EQUIVOCATION_TAG = ascii ''QTV-PROPOSAL-EQUIVOCATION/1''"

record proposal_equivocation =
  qe_offender :: bytes
  qe_height :: u64
  qe_view :: u64
  qe_first :: signed_proposal
  qe_second :: signed_proposal

definition proposal_equivocation_attributes ::
    "ml_dsa \<Rightarrow> bft \<Rightarrow> chain_binding \<Rightarrow> bytes \<Rightarrow> proposal_equivocation \<Rightarrow> bool" where
  "proposal_equivocation_attributes S F c pk e =
     (if pr_shape (qe_first e) = pr_shape (qe_second e) then False
      else proposal_verifies S F c pk (qe_height e) (qe_view e) (qe_first e) \<and>
        proposal_verifies S F c pk (qe_height e) (qe_view e) (qe_second e))"

definition encode_proposal_equivocation :: "proposal_equivocation \<Rightarrow> encoder \<Rightarrow> encoder" where
  "encode_proposal_equivocation e = puts
     [put_bytes PROPOSAL_EQUIVOCATION_TAG, put_bytes (qe_offender e), put_u64 (qe_height e), put_u64 (qe_view e),
      put_proposal (qe_first e), put_proposal (qe_second e)]"

definition get_proposal_equivocation :: "proposal_equivocation decode" where
  "get_proposal_equivocation = dbind (expect_tag PROPOSAL_EQUIVOCATION_TAG) (\<lambda>_.
     dbind get_text (\<lambda>offender. dbind get_u64 (\<lambda>height. dbind get_u64 (\<lambda>view.
     dbind get_proposal (\<lambda>first. dbind get_proposal (\<lambda>second.
     dret \<lparr>qe_offender = offender, qe_height = height, qe_view = view, qe_first = first, qe_second = second\<rparr>))))))"

definition decode_proposal_equivocation :: "bytes \<Rightarrow> proposal_equivocation option" where
  "decode_proposal_equivocation = opened get_proposal_equivocation"

section \<open>A prevote against a lock\<close>

record signed_precommit =
  pc_view :: u64
  pc_slot :: u64
  pc_committee :: bytes
  pc_value :: bytes
  pc_parent :: "bytes option"
  pc_cost :: u64
  pc_sig :: bytes

definition precommit_verifies :: "ml_dsa \<Rightarrow> bft \<Rightarrow> chain_binding \<Rightarrow> bytes \<Rightarrow> u64 \<Rightarrow> signed_precommit \<Rightarrow> bool" where
  "precommit_verifies S F c pk height p \<longleftrightarrow>
     signed_by S F pk
       (attestation_message c height (pc_slot p) (pc_view p) (pc_committee p)
         (block_bytes F height (pc_value p) (pc_parent p) (pc_cost p)))
       (pc_sig p)"

definition put_parent :: "bytes option \<Rightarrow> encoder \<Rightarrow> encoder" where
  "put_parent parent = (case parent of Some h \<Rightarrow> puts [put_u8 1, put_bytes h] | None \<Rightarrow> puts [put_u8 0, put_bytes (replicate 32 0)])"

definition get_parent :: "bytes option decode" where
  "get_parent = dbind get_u8 (\<lambda>flag. dbind get_word32 (\<lambda>parent.
     if flag = 1 then dret (Some parent)
     else if flag = 0 \<and> parent = replicate 32 0 then dret None else dfail dropped))"

definition put_precommit :: "signed_precommit \<Rightarrow> encoder \<Rightarrow> encoder" where
  "put_precommit p = puts [put_u64 (pc_view p), put_u64 (pc_slot p), put_bytes (pc_committee p), put_bytes (pc_value p),
     put_parent (pc_parent p), put_u64 (pc_cost p), put_bytes (pc_sig p)]"

definition get_precommit :: "signed_precommit decode" where
  "get_precommit = dbind get_u64 (\<lambda>view. dbind get_u64 (\<lambda>slot. dbind get_word32 (\<lambda>committee. dbind get_word32 (\<lambda>val.
     dbind get_parent (\<lambda>parent. dbind get_u64 (\<lambda>cost. dbind get_bytes (\<lambda>sig.
     dret \<lparr>pc_view = view, pc_slot = slot, pc_committee = committee, pc_value = val, pc_parent = parent,
       pc_cost = cost, pc_sig = sig\<rparr>)))))))"

definition LOCK_VIOLATION_TAG :: bytes where "LOCK_VIOLATION_TAG = ascii ''QTV-LOCK-VIOLATION/1''"

record lock_violation =
  lv_offender :: bytes
  lv_height :: u64
  lv_precommit :: signed_precommit
  lv_prevote_view :: u64
  lv_prevote :: signed_prevote

definition lock_violation_attributes ::
    "ml_dsa \<Rightarrow> bft \<Rightarrow> chain_binding \<Rightarrow> bytes \<Rightarrow> lock_violation \<Rightarrow> bool" where
  "lock_violation_attributes S F c pk e =
     (if pc_cost (lv_precommit e) = VIEW_CHANGE_SUBJECT_COST \<or> lv_prevote_view e \<le> pc_view (lv_precommit e) \<or>
         pv_value (lv_prevote e) = pc_value (lv_precommit e) \<or>
         (case pv_pol (lv_prevote e) of Some pol \<Rightarrow> pc_view (lv_precommit e) < pol | None \<Rightarrow> False)
      then False
      else precommit_verifies S F c pk (lv_height e) (lv_precommit e) \<and>
        prevote_verifies S F c pk (lv_height e) (lv_prevote_view e) (lv_prevote e))"

definition encode_lock_violation :: "lock_violation \<Rightarrow> encoder \<Rightarrow> encoder" where
  "encode_lock_violation e = puts
     [put_bytes LOCK_VIOLATION_TAG, put_bytes (lv_offender e), put_u64 (lv_height e), put_precommit (lv_precommit e),
      put_u64 (lv_prevote_view e), put_prevote (lv_prevote e)]"

definition get_lock_violation :: "lock_violation decode" where
  "get_lock_violation = dbind (expect_tag LOCK_VIOLATION_TAG) (\<lambda>_.
     dbind get_text (\<lambda>offender. dbind get_u64 (\<lambda>height. dbind get_precommit (\<lambda>precommit.
     dbind get_u64 (\<lambda>prevote_view. dbind get_prevote (\<lambda>prevote.
     dret \<lparr>lv_offender = offender, lv_height = height, lv_precommit = precommit, lv_prevote_view = prevote_view,
       lv_prevote = prevote\<rparr>))))))"

definition decode_lock_violation :: "bytes \<Rightarrow> lock_violation option" where
  "decode_lock_violation = opened get_lock_violation"

section \<open>Two finalised blocks\<close>

definition DOUBLE_FINALITY_TAG :: bytes where "DOUBLE_FINALITY_TAG = ascii ''QTV-DOUBLE-FINALITY/1''"
definition MAX_FINALITY_VOTES :: nat where "MAX_FINALITY_VOTES = 512"

record finality_vote =
  fv_signer :: bytes
  fv_view :: u64
  fv_slot :: u64
  fv_committee :: bytes
  fv_sig :: bytes

record double_finality =
  df_height :: u64
  df_block_a :: bytes
  df_votes_a :: "finality_vote list"
  df_block_b :: bytes
  df_votes_b :: "finality_vote list"

definition put_vote :: "finality_vote \<Rightarrow> encoder \<Rightarrow> encoder" where
  "put_vote v = puts [put_bytes (fv_signer v), put_u64 (fv_view v), put_u64 (fv_slot v), put_bytes (fv_committee v),
     put_bytes (fv_sig v)]"

definition get_vote :: "finality_vote decode" where
  "get_vote = dbind get_text (\<lambda>signer. dbind get_u64 (\<lambda>view. dbind get_u64 (\<lambda>slot. dbind get_word32 (\<lambda>committee.
     dbind get_bytes (\<lambda>sig.
     dret \<lparr>fv_signer = signer, fv_view = view, fv_slot = slot, fv_committee = committee, fv_sig = sig\<rparr>)))))"

definition put_votes :: "finality_vote list \<Rightarrow> encoder \<Rightarrow> encoder" where
  "put_votes votes = puts [put_u64 (word_of_nat (length votes)), encode_each put_vote votes]"

definition get_votes :: "finality_vote list decode" where
  "get_votes = dbind get_u64 (\<lambda>count.
     if count = 0 \<or> MAX_FINALITY_VOTES < unat count then dfail dropped else decode_n get_vote (unat count))"

definition encode_double_finality :: "double_finality \<Rightarrow> encoder \<Rightarrow> encoder" where
  "encode_double_finality e = puts
     [put_bytes DOUBLE_FINALITY_TAG, put_u64 (df_height e), put_bytes (df_block_a e), put_votes (df_votes_a e),
      put_bytes (df_block_b e), put_votes (df_votes_b e)]"

definition get_double_finality :: "double_finality decode" where
  "get_double_finality = dbind (expect_tag DOUBLE_FINALITY_TAG) (\<lambda>_.
     dbind get_u64 (\<lambda>height. dbind get_bytes (\<lambda>block_a. dbind get_votes (\<lambda>votes_a.
     dbind get_bytes (\<lambda>block_b. dbind get_votes (\<lambda>votes_b.
     dret \<lparr>df_height = height, df_block_a = block_a, df_votes_a = votes_a, df_block_b = block_b,
       df_votes_b = votes_b\<rparr>))))))"

definition decode_double_finality :: "bytes \<Rightarrow> double_finality option" where
  "decode_double_finality = opened get_double_finality"

text \<open>\<^verbatim>\<open>canonical_address\<close> of \<^verbatim>\<open>src/crates/qtv-node/src/mempool.rs\<close>: the rendering of its own payload.\<close>

definition canonical_address :: "bytes \<Rightarrow> bool" where
  "canonical_address address =
     (case parse_address address of
        Inr payload \<Rightarrow> length payload = DIGEST_LEN \<and> render_address payload = Some (Inr address)
      | Inl _ \<Rightarrow> False)"

text \<open>The loop of \<^verbatim>\<open>side\<close>: \<open>first\<close> is the first vote, \<open>signers\<close> the signers so far.\<close>

primrec side_loop :: "ml_dsa \<Rightarrow> bft \<Rightarrow> chain_binding \<Rightarrow> (bytes \<Rightarrow> bytes option) \<Rightarrow> u64 \<Rightarrow> bytes \<Rightarrow> finality_vote \<Rightarrow>
    finality_vote list \<Rightarrow> bytes list \<Rightarrow> bytes list option" where
  "side_loop S F c key_of height block first [] signers = Some signers"
| "side_loop S F c key_of height block first (v # vs) signers =
     (if fv_view v \<noteq> fv_view first \<or> fv_slot v \<noteq> fv_slot first \<or> fv_committee v \<noteq> fv_committee first \<or>
         \<not> canonical_address (fv_signer v) \<or> fv_signer v \<in> set signers
      then None
      else case key_of (fv_signer v) of
        None \<Rightarrow> None
      | Some pk \<Rightarrow>
          if \<not> signed_by S F pk (attestation_message c height (fv_slot v) (fv_view v) (fv_committee v) block) (fv_sig v)
          then None
          else side_loop S F c key_of height block first vs (signers @ [fv_signer v]))"

definition side :: "ml_dsa \<Rightarrow> bft \<Rightarrow> chain_binding \<Rightarrow> (bytes \<Rightarrow> bytes option) \<Rightarrow> u64 \<Rightarrow> bytes \<Rightarrow> finality_vote list \<Rightarrow>
    (bytes list \<times> u64) option" where
  "side S F c key_of height block votes =
     (case votes of
        [] \<Rightarrow> None
      | first # _ \<Rightarrow> map_option (\<lambda>signers. (signers, fv_view first)) (side_loop S F c key_of height block first votes []))"

text \<open>\<open>offenders.sort()\<close> orders strings byte by byte.\<close>

definition bytes_sort :: "bytes list \<Rightarrow> bytes list" where
  "bytes_sort = sort_key (map unat)"

definition offenders :: "ml_dsa \<Rightarrow> bft \<Rightarrow> chain_binding \<Rightarrow> (bytes \<Rightarrow> bytes option) \<Rightarrow> double_finality \<Rightarrow> bytes list option" where
  "offenders S F c key_of e =
     (if df_block_a e = df_block_b e \<or> subject_is_view_change (df_block_a e) \<or> subject_is_view_change (df_block_b e)
      then None
      else do {
        (side_a, view_a) \<leftarrow> side S F c key_of (df_height e) (df_block_a e) (df_votes_a e);
        (side_b, view_b) \<leftarrow> side S F c key_of (df_height e) (df_block_b e) (df_votes_b e);
        if view_a \<noteq> view_b then None
        else let found = bytes_sort (filter (\<lambda>signer. signer \<in> set side_b) side_a) in
          if found = [] then None else Some found })"

section \<open>The pool of a node\<close>

definition MAX_PENDING_EVIDENCE :: nat where "MAX_PENDING_EVIDENCE = 256"
definition MAX_WATCHED_ATTESTATIONS :: nat where "MAX_WATCHED_ATTESTATIONS = 4096"

type_synonym watch_key = "bytes \<times> u64 \<times> u64"

record evidence_pool =
  pool_seen :: "(watch_key, u64 \<times> bytes \<times> bytes \<times> bytes) fmap"
  pool_pending :: "equivocation list"
  pool_flagged :: "watch_key list"
  pool_floor :: u64

definition pool_new :: evidence_pool where
  "pool_new = \<lparr>pool_seen = fmempty, pool_pending = [], pool_flagged = [], pool_floor = 0\<rparr>"

definition pool_advance :: "u64 \<Rightarrow> evidence_pool \<Rightarrow> evidence_pool" where
  "pool_advance height p =
     (if pool_floor p < height
      then p\<lparr>pool_floor := height, pool_seen := fmfilter (\<lambda>k. height \<le> fst (snd k)) (pool_seen p),
             pool_flagged := filter (\<lambda>k. height \<le> fst (snd k)) (pool_flagged p)\<rparr>
      else p)"

definition pool_observe :: "bytes \<Rightarrow> u64 \<Rightarrow> u64 \<Rightarrow> u64 \<Rightarrow> bytes \<Rightarrow> bytes \<Rightarrow> bytes \<Rightarrow> evidence_pool \<Rightarrow>
    equivocation option \<times> evidence_pool" where
  "pool_observe offender height slot view committee block sig p =
     (if subject_is_view_change block then (None, p)
      else let p = pool_advance height p; k = (offender, height, view) in
        (case fmlookup (pool_seen p) k of
           Some (prev_slot, prev_committee, prev_block, prev_sig) \<Rightarrow>
             if prev_block = block then (None, p)
             else if k \<in> set (pool_flagged p) then (None, p)
             else if MAX_PENDING_EVIDENCE \<le> length (pool_pending p) then (None, p)
             else let e = \<lparr>eq_offender = offender, eq_height = height, eq_view_a = view, eq_view_b = view,
                    eq_slot_a = prev_slot, eq_slot_b = slot, eq_committee_a = prev_committee,
                    eq_committee_b = committee, eq_block_a = prev_block, eq_sig_a = prev_sig,
                    eq_block_b = block, eq_sig_b = sig\<rparr>
               in (Some e, p\<lparr>pool_flagged := k # pool_flagged p, pool_pending := pool_pending p @ [e]\<rparr>)
         | None \<Rightarrow>
             if size (fmdom (pool_seen p)) < MAX_WATCHED_ATTESTATIONS
             then (None, p\<lparr>pool_seen := fmupd k (slot, committee, block, sig) (pool_seen p)\<rparr>)
             else (None, p)))"

definition pool_drain :: "evidence_pool \<Rightarrow> equivocation list \<times> evidence_pool" where
  "pool_drain p = (pool_pending p, p\<lparr>pool_pending := []\<rparr>)"

definition pool_retain :: "(equivocation \<Rightarrow> bool) \<Rightarrow> evidence_pool \<Rightarrow> evidence_pool" where
  "pool_retain keep p = p\<lparr>pool_pending := filter keep (pool_pending p)\<rparr>"

section \<open>Encodings\<close>

text \<open>The arrays of the source hold 32 bytes and its strings are UTF-8.\<close>

definition equivocation_ok :: "equivocation \<Rightarrow> bool" where
  "equivocation_ok e \<longleftrightarrow> utf8_valid (eq_offender e) \<and> length (eq_committee_a e) = 32 \<and> length (eq_committee_b e) = 32"

definition prevote_ok :: "signed_prevote \<Rightarrow> bool" where
  "prevote_ok v \<longleftrightarrow> length (pv_committee v) = 32 \<and> length (pv_value v) = 32"

definition prevote_equivocation_ok :: "prevote_equivocation \<Rightarrow> bool" where
  "prevote_equivocation_ok e \<longleftrightarrow> utf8_valid (pe_offender e) \<and> prevote_ok (pe_first e) \<and> prevote_ok (pe_second e)"

definition proposal_ok :: "signed_proposal \<Rightarrow> bool" where
  "proposal_ok p \<longleftrightarrow> length (pr_committee p) = 32 \<and> length (header_hash (pr_shape p)) = 32 \<and>
     length (shape_root (pr_shape p)) = 32"

definition proposal_equivocation_ok :: "proposal_equivocation \<Rightarrow> bool" where
  "proposal_equivocation_ok e \<longleftrightarrow> utf8_valid (qe_offender e) \<and> proposal_ok (qe_first e) \<and> proposal_ok (qe_second e)"

definition precommit_ok :: "signed_precommit \<Rightarrow> bool" where
  "precommit_ok p \<longleftrightarrow> length (pc_committee p) = 32 \<and> length (pc_value p) = 32 \<and>
     pred_option (\<lambda>h. length h = 32) (pc_parent p)"

definition lock_violation_ok :: "lock_violation \<Rightarrow> bool" where
  "lock_violation_ok e \<longleftrightarrow> utf8_valid (lv_offender e) \<and> precommit_ok (lv_precommit e) \<and> prevote_ok (lv_prevote e)"

definition vote_ok :: "finality_vote \<Rightarrow> bool" where
  "vote_ok v \<longleftrightarrow> utf8_valid (fv_signer v) \<and> length (fv_committee v) = 32"

definition votes_ok :: "finality_vote list \<Rightarrow> bool" where
  "votes_ok vs \<longleftrightarrow> vs \<noteq> [] \<and> length vs \<le> MAX_FINALITY_VOTES \<and> list_all vote_ok vs"

definition double_finality_ok :: "double_finality \<Rightarrow> bool" where
  "double_finality_ok e \<longleftrightarrow> votes_ok (df_votes_a e) \<and> votes_ok (df_votes_b e)"

context canonical_codec
begin

lemma opened_iff: "opened decode bs = Some x \<longleftrightarrow> valid x \<and> encode x [] = bs \<and> length bs < 2 ^ 64"
proof -
  have "opened decode bs = Some x \<longleftrightarrow> from_bytes decode bs = Inr x"
    by (simp add: opened_def split: sum.split)
  then show ?thesis by (simp add: from_bytes_iff to_bytes_def)
qed

lemma written: "valid x \<Longrightarrow> consumes d (encode x []) d' \<longleftrightarrow> decode d = Inr (x, d')"
  by (simp add: decode_iff)

end

lemma get_text_Inr [wire]: "get_text d = Inr (t, d') \<longleftrightarrow> utf8_valid t \<and> get_bytes d = Inr (t, d')"
  by (auto simp: get_text_def dbind_Inr dret_def dfail_def split: if_splits)

lemma get_word32_Inr [wire]: "get_word32 d = Inr (w, d') \<longleftrightarrow> length w = 32 \<and> get_bytes d = Inr (w, d')"
  by (simp add: get_word32_def wire)

lemma expect_tag_Inr [wire]: "expect_tag tag d = Inr (u, d') \<longleftrightarrow> get_bytes d = Inr (tag, d')"
  by (auto simp: expect_tag_def dbind_Inr dret_def dfail_def split: if_splits)

lemma expect_tag_read: "get_bytes d = Inr (tag, d') \<Longrightarrow> expect_tag tag d = Inr ((), d')"
  by (simp add: expect_tag_Inr)

lemmas evidence_reads = dbind_read get_text_read get_word32_def get_array_read expect_tag_read dret_def

lemma get_equivocation_Inr:
  "get_equivocation d = Inr (e, d') \<longleftrightarrow> equivocation_ok e \<and> consumes d (encode_equivocation e []) d'"
proof
  assume "get_equivocation d = Inr (e, d')"
  then show "equivocation_ok e \<and> consumes d (encode_equivocation e []) d'"
    unfolding get_equivocation_def
    by (clarsimp simp: wire equivocation_ok_def encode_equivocation_def)
next
  assume "equivocation_ok e \<and> consumes d (encode_equivocation e []) d'"
  then show "get_equivocation d = Inr (e, d')"
    by (cases e; clarsimp simp: wire equivocation_ok_def encode_equivocation_def;
        simp add: get_equivocation_def evidence_reads)
qed

interpretation equivc: canonical_codec encode_equivocation get_equivocation equivocation_ok
  by unfold_locales (simp_all add: get_equivocation_Inr, simp add: encode_equivocation_def wire)

lemma pol_choice_Inr:
  "(if flag = 1 then dret (Some pol) else if flag = 0 \<and> pol = 0 then dret None else dfail dropped) d = Inr (x, d') \<longleftrightarrow>
     d' = d \<and> (case x of Some p \<Rightarrow> flag = (1 :: u8) \<and> pol = p | None \<Rightarrow> flag = 0 \<and> pol = (0 :: u64))"
  by (cases x) (auto simp: dret_def dfail_def)

interpretation polc: canonical_codec put_pol get_pol "\<lambda>_. True"
proof
  show "put_pol x buf = buf @ put_pol x []" for x buf
    by (simp add: put_pol_def wire split: option.split)
  show "get_pol d = Inr (x, d')" if "True" "consumes d (put_pol x []) d'" for x d d'
    using that by (cases x) (auto simp: put_pol_def get_pol_def wire pol_choice_Inr)
  show "True \<and> consumes d (put_pol x []) d'" if "get_pol d = Inr (x, d')" for d x d'
    using that by (cases x) (auto simp: put_pol_def get_pol_def wire pol_choice_Inr)
qed

lemmas [wire] = polc.puts_encode polc.decode_iff [symmetric, simplified]

interpretation prevotec: canonical_codec put_prevote get_prevote prevote_ok
  by unfold_locales (auto simp: put_prevote_def get_prevote_def prevote_ok_def wire)

lemmas [wire] = prevotec.puts_encode

lemma get_prevote_equivocation_Inr:
  "get_prevote_equivocation d = Inr (e, d') \<longleftrightarrow> prevote_equivocation_ok e \<and> consumes d (encode_prevote_equivocation e []) d'"
proof
  assume "get_prevote_equivocation d = Inr (e, d')"
  then show "prevote_equivocation_ok e \<and> consumes d (encode_prevote_equivocation e []) d'"
    unfolding get_prevote_equivocation_def
    by (clarsimp simp: wire prevote_equivocation_ok_def encode_prevote_equivocation_def prevotec.decode_iff) (assumption | rule exI conjI)+
next
  assume "prevote_equivocation_ok e \<and> consumes d (encode_prevote_equivocation e []) d'"
  then show "get_prevote_equivocation d = Inr (e, d')"
    by (cases e; clarsimp simp: wire prevote_equivocation_ok_def encode_prevote_equivocation_def prevotec.written;
        simp add: get_prevote_equivocation_def evidence_reads)
qed

interpretation prevote_equivc: canonical_codec encode_prevote_equivocation get_prevote_equivocation prevote_equivocation_ok
  by unfold_locales (simp_all add: get_prevote_equivocation_Inr, simp add: encode_prevote_equivocation_def wire)

lemma get_proposal_Inr: "get_proposal d = Inr (p, d') \<longleftrightarrow> proposal_ok p \<and> consumes d (put_proposal p []) d'"
proof -
  obtain sl co sh sg where p: "p = \<lparr>pr_slot = sl, pr_committee = co, pr_shape = sh, pr_sig = sg\<rparr>" by (cases p)
  show ?thesis
    unfolding p by (cases sh) (auto simp: put_proposal_def get_proposal_def proposal_ok_def wire)
qed

interpretation proposalc: canonical_codec put_proposal get_proposal proposal_ok
  by unfold_locales (auto simp: get_proposal_Inr put_proposal_def wire)

lemmas [wire] = proposalc.puts_encode

lemma get_proposal_equivocation_Inr:
  "get_proposal_equivocation d = Inr (e, d') \<longleftrightarrow> proposal_equivocation_ok e \<and> consumes d (encode_proposal_equivocation e []) d'"
proof
  assume "get_proposal_equivocation d = Inr (e, d')"
  then show "proposal_equivocation_ok e \<and> consumes d (encode_proposal_equivocation e []) d'"
    unfolding get_proposal_equivocation_def
    by (clarsimp simp: wire proposal_equivocation_ok_def encode_proposal_equivocation_def proposalc.decode_iff) (assumption | rule exI conjI)+
next
  assume "proposal_equivocation_ok e \<and> consumes d (encode_proposal_equivocation e []) d'"
  then show "get_proposal_equivocation d = Inr (e, d')"
    by (cases e; clarsimp simp: wire proposal_equivocation_ok_def encode_proposal_equivocation_def proposalc.written;
        simp add: get_proposal_equivocation_def evidence_reads)
qed

interpretation proposal_equivc:
  canonical_codec encode_proposal_equivocation get_proposal_equivocation proposal_equivocation_ok
  by unfold_locales (simp_all add: get_proposal_equivocation_Inr, simp add: encode_proposal_equivocation_def wire)

lemma parent_choice_Inr:
  "(if flag = 1 then dret (Some parent) else if flag = 0 \<and> parent = replicate 32 0 then dret None else dfail dropped) d
     = Inr (x, d') \<longleftrightarrow>
   d' = d \<and> (case x of Some p \<Rightarrow> flag = (1 :: u8) \<and> parent = p | None \<Rightarrow> flag = 0 \<and> parent = replicate 32 0)"
  by (cases x) (auto simp: dret_def dfail_def)

interpretation parentc: canonical_codec put_parent get_parent "pred_option (\<lambda>h. length h = 32)"
proof
  show "put_parent x buf = buf @ put_parent x []" for x buf
    by (simp add: put_parent_def wire split: option.split)
  show "get_parent d = Inr (x, d')" if "pred_option (\<lambda>h. length h = 32) x" "consumes d (put_parent x []) d'" for x d d'
    using that by (cases x) (auto simp: put_parent_def get_parent_def wire parent_choice_Inr)
  show "pred_option (\<lambda>h. length h = 32) x \<and> consumes d (put_parent x []) d'" if "get_parent d = Inr (x, d')" for d x d'
    using that by (cases x) (auto simp: put_parent_def get_parent_def wire parent_choice_Inr)
qed

lemmas [wire] = parentc.puts_encode

lemma get_precommit_Inr:
  "get_precommit d = Inr (p, d') \<longleftrightarrow> precommit_ok p \<and> consumes d (put_precommit p []) d'"
proof
  assume "get_precommit d = Inr (p, d')"
  then show "precommit_ok p \<and> consumes d (put_precommit p []) d'"
    unfolding get_precommit_def
    by (clarsimp simp: wire precommit_ok_def put_precommit_def parentc.decode_iff) (assumption | rule exI conjI)+
next
  assume "precommit_ok p \<and> consumes d (put_precommit p []) d'"
  then show "get_precommit d = Inr (p, d')"
    by (cases p; clarsimp simp: wire precommit_ok_def put_precommit_def parentc.written;
        simp add: get_precommit_def evidence_reads)
qed

interpretation precommitc: canonical_codec put_precommit get_precommit precommit_ok
  by unfold_locales (auto simp: get_precommit_Inr put_precommit_def wire)

lemmas [wire] = precommitc.puts_encode

lemma get_lock_violation_Inr:
  "get_lock_violation d = Inr (e, d') \<longleftrightarrow> lock_violation_ok e \<and> consumes d (encode_lock_violation e []) d'"
proof
  assume "get_lock_violation d = Inr (e, d')"
  then show "lock_violation_ok e \<and> consumes d (encode_lock_violation e []) d'"
    unfolding get_lock_violation_def
    by (clarsimp simp: wire lock_violation_ok_def encode_lock_violation_def prevotec.decode_iff precommitc.decode_iff) (assumption | rule exI conjI)+
next
  assume "lock_violation_ok e \<and> consumes d (encode_lock_violation e []) d'"
  then show "get_lock_violation d = Inr (e, d')"
    by (cases e; clarsimp simp: wire lock_violation_ok_def encode_lock_violation_def prevotec.written precommitc.written;
        simp add: get_lock_violation_def evidence_reads)
qed

interpretation lockc: canonical_codec encode_lock_violation get_lock_violation lock_violation_ok
  by unfold_locales (simp_all add: get_lock_violation_Inr, simp add: encode_lock_violation_def wire)

lemma get_vote_Inr: "get_vote d = Inr (v, d') \<longleftrightarrow> vote_ok v \<and> consumes d (put_vote v []) d'"
  by (cases v) (auto simp: put_vote_def get_vote_def vote_ok_def wire)

interpretation votec: canonical_codec put_vote get_vote vote_ok
  by unfold_locales (auto simp: get_vote_Inr put_vote_def wire)

lemma put_votes_list: "put_votes = put_list put_vote"
  by (rule ext) (simp add: put_votes_def put_list_def)

lemma get_votes_Inr: "get_votes d = Inr (vs, d') \<longleftrightarrow> votes_ok vs \<and> consumes d (put_votes vs []) d'"
proof -
  have n: "decode_n get_vote (unat count) d1 = Inr (vs, d') \<longleftrightarrow>
      length vs = unat count \<and> list_all vote_ok vs \<and> consumes d1 (encode_each put_vote vs []) d'"
    if "get_u64 d = Inr (count, d1)" for count d1
    using that votec.decode_n_iff [of d1] consumes_within by (auto simp: get_u64_Inr)
  have "get_votes d = Inr (vs, d') \<longleftrightarrow>
      (\<exists>count d1. get_u64 d = Inr (count, d1) \<and> length vs = unat count \<and> vs \<noteq> [] \<and> length vs \<le> MAX_FINALITY_VOTES \<and>
         list_all vote_ok vs \<and> consumes d1 (encode_each put_vote vs []) d')"
    unfolding get_votes_def dbind_Inr guard_Inr
    by (auto simp: n not_less simp flip: unat_eq_zero) (metis length_greater_0_conv)
  also have "\<dots> \<longleftrightarrow> votes_ok vs \<and> (\<exists>d1. get_u64 d = Inr (word_of_nat (length vs), d1) \<and>
      consumes d1 (encode_each put_vote vs []) d')"
    by (auto simp: votes_ok_def word_count_iff MAX_FINALITY_VOTES_def)
  also have "\<dots> \<longleftrightarrow> votes_ok vs \<and> consumes d (put_votes vs []) d'"
    by (simp add: put_votes_list votec.put_list_bytes wire)
  finally show ?thesis .
qed

interpretation votesc: canonical_codec put_votes get_votes votes_ok
proof
  show "put_votes x buf = buf @ put_votes x []" for x buf
    by (simp only: put_votes_list votec.put_list_bytes append_Nil)
qed (simp_all add: get_votes_Inr)

lemmas [wire] = votesc.puts_encode

lemma get_double_finality_Inr:
  "get_double_finality d = Inr (e, d') \<longleftrightarrow> double_finality_ok e \<and> consumes d (encode_double_finality e []) d'"
proof
  assume "get_double_finality d = Inr (e, d')"
  then show "double_finality_ok e \<and> consumes d (encode_double_finality e []) d'"
    unfolding get_double_finality_def
    by (clarsimp simp: wire double_finality_ok_def encode_double_finality_def votesc.decode_iff) (assumption | rule exI conjI)+
next
  assume "double_finality_ok e \<and> consumes d (encode_double_finality e []) d'"
  then show "get_double_finality d = Inr (e, d')"
    by (cases e; clarsimp simp: wire double_finality_ok_def encode_double_finality_def votesc.written;
        simp add: get_double_finality_def evidence_reads)
qed

interpretation finalityc: canonical_codec encode_double_finality get_double_finality double_finality_ok
  by unfold_locales (simp_all add: get_double_finality_Inr, simp add: encode_double_finality_def wire)

section \<open>What evidence convicts\<close>

text \<open>
  The messages \<open>M\<close> a validator signed on a chain are consistent when they hold one block per view of a
  height, one prevote and one proposal per view, and no prevote against a lock without a later proof
  of lock change.  View-change subjects, prevotes and proposals carry the reserved cost, so they are no
  blocks of the first clause.
\<close>

definition consistent :: "bft \<Rightarrow> chain_binding \<Rightarrow> bytes set \<Rightarrow> bool" where
  "consistent F c M \<longleftrightarrow>
     (\<forall>h v s s' k k' a b. length k = 32 \<and> length k' = 32 \<and>
        attestation_message c h s v k a \<in> M \<and> attestation_message c h s' v k' b \<in> M \<and>
        \<not> subject_is_view_change a \<and> \<not> subject_is_view_change b \<longrightarrow> a = b) \<and>
     (\<forall>h v s s' k k' x p y q. length k = 32 \<and> length k' = 32 \<and> length x = 32 \<and> length y = 32 \<and>
        attestation_message c h s v k (prevote_block F h v x p) \<in> M \<and>
        attestation_message c h s' v k' (prevote_block F h v y q) \<in> M \<longrightarrow> x = y \<and> p = q) \<and>
     (\<forall>h v s s' k k' x y. length k = 32 \<and> length k' = 32 \<and>
        attestation_message c h s v k (proposal_block F h v x) \<in> M \<and>
        attestation_message c h s' v k' (proposal_block F h v y) \<in> M \<longrightarrow> x = y) \<and>
     (\<forall>h v w s s' k k' x parent cost y q. length k = 32 \<and> length k' = 32 \<and> length x = 32 \<and> length y = 32 \<and>
        cost \<noteq> VIEW_CHANGE_SUBJECT_COST \<and> v < w \<and>
        attestation_message c h s v k (block_bytes F h x parent cost) \<in> M \<and>
        attestation_message c h s' w k' (prevote_block F h w y q) \<in> M \<longrightarrow>
        x = y \<or> (\<exists>p. q = Some p \<and> v < p))"

definition unforged :: "ml_dsa \<Rightarrow> bft \<Rightarrow> bytes \<Rightarrow> bytes set \<Rightarrow> bool" where
  "unforged S F pk M \<longleftrightarrow> (\<forall>msg sig. signed_by S F pk msg sig \<longrightarrow> msg \<in> M)"

lemma signed_member: "unforged S F pk M \<Longrightarrow> signed_by S F pk msg sig \<Longrightarrow> msg \<in> M"
  by (auto simp: unforged_def)

lemma consistent_clears_equivocation:
  assumes "consistent F c M" and "unforged S F pk M" and "equivocation_ok e"
  shows "\<not> equivocation_attributes S F c pk e"
proof
  assume a: "equivocation_attributes S F c pk e"
  then have "attestation_message c (eq_height e) (eq_slot_a e) (eq_view_a e) (eq_committee_a e) (eq_block_a e) \<in> M"
    "attestation_message c (eq_height e) (eq_slot_b e) (eq_view_a e) (eq_committee_b e) (eq_block_b e) \<in> M"
    "\<not> subject_is_view_change (eq_block_a e)" "\<not> subject_is_view_change (eq_block_b e)" "eq_block_a e \<noteq> eq_block_b e"
    by (auto simp: equivocation_attributes_def split: if_splits intro: signed_member [OF assms(2)])
  with assms(3) show False
    using assms(1) [unfolded consistent_def, THEN conjunct1] by (auto simp: equivocation_ok_def)
qed

lemma prevote_in: "unforged S F pk M \<Longrightarrow> prevote_verifies S F c pk h v p \<Longrightarrow>
    attestation_message c h (pv_slot p) v (pv_committee p) (prevote_block F h v (pv_value p) (pv_pol p)) \<in> M"
  by (auto simp: prevote_verifies_def intro: signed_member)

lemma consistent_clears_prevotes:
  assumes "consistent F c M" and "unforged S F pk M" and "prevote_equivocation_ok e"
  shows "\<not> prevote_equivocation_attributes S F c pk e"
proof
  assume a: "prevote_equivocation_attributes S F c pk e"
  then have "prevote_verifies S F c pk (pe_height e) (pe_view e) (pe_first e)"
    "prevote_verifies S F c pk (pe_height e) (pe_view e) (pe_second e)"
    by (auto simp: prevote_equivocation_attributes_def split: if_splits)
  note this [THEN prevote_in [OF assms(2)]]
  with assms(3) have "pv_value (pe_first e) = pv_value (pe_second e) \<and> pv_pol (pe_first e) = pv_pol (pe_second e)"
    using assms(1) [unfolded consistent_def, THEN conjunct2, THEN conjunct1]
    unfolding prevote_equivocation_ok_def prevote_ok_def by blast
  with a show False by (simp add: prevote_equivocation_attributes_def)
qed

lemma consistent_clears_proposals:
  assumes "consistent F c M" and "unforged S F pk M" and "proposal_equivocation_ok e"
  shows "\<not> proposal_equivocation_attributes S F c pk e"
proof
  assume a: "proposal_equivocation_attributes S F c pk e"
  then have "attestation_message c (qe_height e) (pr_slot (qe_first e)) (qe_view e) (pr_committee (qe_first e))
      (proposal_block F (qe_height e) (qe_view e) (pr_shape (qe_first e))) \<in> M"
    "attestation_message c (qe_height e) (pr_slot (qe_second e)) (qe_view e) (pr_committee (qe_second e))
      (proposal_block F (qe_height e) (qe_view e) (pr_shape (qe_second e))) \<in> M"
    by (auto simp: proposal_equivocation_attributes_def proposal_verifies_def split: if_splits
        intro: signed_member [OF assms(2)])
  with assms(3) have "pr_shape (qe_first e) = pr_shape (qe_second e)"
    using assms(1) [unfolded consistent_def, THEN conjunct2, THEN conjunct2, THEN conjunct1]
    unfolding proposal_equivocation_ok_def proposal_ok_def by blast
  with a show False by (simp add: proposal_equivocation_attributes_def)
qed

lemma consistent_clears_locks:
  assumes "consistent F c M" and "unforged S F pk M" and "lock_violation_ok e"
  shows "\<not> lock_violation_attributes S F c pk e"
proof
  assume a: "lock_violation_attributes S F c pk e"
  let ?p = "lv_precommit e" and ?q = "lv_prevote e"
  from a have "attestation_message c (lv_height e) (pc_slot ?p) (pc_view ?p) (pc_committee ?p)
      (block_bytes F (lv_height e) (pc_value ?p) (pc_parent ?p) (pc_cost ?p)) \<in> M"
    "attestation_message c (lv_height e) (pv_slot ?q) (lv_prevote_view e) (pv_committee ?q)
      (prevote_block F (lv_height e) (lv_prevote_view e) (pv_value ?q) (pv_pol ?q)) \<in> M"
    "pc_cost ?p \<noteq> VIEW_CHANGE_SUBJECT_COST" "pc_view ?p < lv_prevote_view e"
    by (auto simp: lock_violation_attributes_def precommit_verifies_def split: if_splits
        intro: signed_member [OF assms(2)] prevote_in [OF assms(2)])
  with assms(3) have "pc_value ?p = pv_value ?q \<or> (\<exists>p. pv_pol ?q = Some p \<and> pc_view ?p < p)"
    using assms(1) [unfolded consistent_def, THEN conjunct2, THEN conjunct2, THEN conjunct2]
    unfolding lock_violation_ok_def prevote_ok_def precommit_ok_def by blast
  with a show False
    by (auto simp: lock_violation_attributes_def split: if_splits)
qed

lemma side_loop_signed:
  assumes "side_loop S F c key_of h block first vs signers = Some out" and "list_all vote_ok vs"
  shows "set signers \<subseteq> set out \<and> (\<forall>a \<in> set out - set signers. \<exists>pk slot k sig. key_of a = Some pk \<and> length k = 32 \<and>
     signed_by S F pk (attestation_message c h slot (fv_view first) k block) sig)"
  using assms
proof (induction vs arbitrary: signers)
  case (Cons v vs)
  then obtain pk where pk: "key_of (fv_signer v) = Some pk" "fv_view v = fv_view first"
    "signed_by S F pk (attestation_message c h (fv_slot v) (fv_view v) (fv_committee v) block) (fv_sig v)"
    and rec: "side_loop S F c key_of h block first vs (signers @ [fv_signer v]) = Some out"
    by (auto split: if_splits option.splits)
  have "length (fv_committee v) = 32"
    using Cons.prems(2) by (simp add: vote_ok_def)
  with Cons.IH [OF rec] Cons.prems(2) pk show ?case
    by (auto simp: vote_ok_def)
qed simp

lemma side_signed:
  assumes "side S F c key_of h block votes = Some (signers, view)" and "list_all vote_ok votes" and "a \<in> set signers"
  shows "\<exists>pk slot k sig. key_of a = Some pk \<and> length k = 32 \<and>
     signed_by S F pk (attestation_message c h slot view k block) sig"
  using side_loop_signed [of S F c key_of h block _ votes "[]" signers] assms
  by (auto simp: side_def split: list.splits)

lemma offenders_double:
  assumes "offenders S F c key_of e = Some found" and "double_finality_ok e" and "a \<in> set found"
    and "key_of a = Some pk" and "consistent F c M" and "unforged S F pk M"
  shows False
proof -
  obtain sa sb view where s: "side S F c key_of (df_height e) (df_block_a e) (df_votes_a e) = Some (sa, view)"
    "side S F c key_of (df_height e) (df_block_b e) (df_votes_b e) = Some (sb, view)"
    and m: "a \<in> set sa" "a \<in> set sb" and d: "df_block_a e \<noteq> df_block_b e"
      "\<not> subject_is_view_change (df_block_a e)" "\<not> subject_is_view_change (df_block_b e)"
    using assms(1,3) by (auto simp: offenders_def bytes_sort_def Let_def split: if_splits bind_splits)
  have v: "list_all vote_ok (df_votes_a e)" "list_all vote_ok (df_votes_b e)"
    using assms(2) by (simp_all add: double_finality_ok_def votes_ok_def)
  from side_signed [OF s(1) v(1) m(1)] side_signed [OF s(2) v(2) m(2)] assms(4)
  obtain slot k sig slot' k' sig' where
    "length k = 32" "signed_by S F pk (attestation_message c (df_height e) slot view k (df_block_a e)) sig"
    "length k' = 32" "signed_by S F pk (attestation_message c (df_height e) slot' view k' (df_block_b e)) sig'"
    by auto
  with d show False
    using assms(5) [unfolded consistent_def, THEN conjunct1] signed_member [OF assms(6)] by blast
qed

section \<open>What the pool collects\<close>

text \<open>
  The pools a node reaches: it observes attestations whose signature verified under the key of the
  offender (\<^verbatim>\<open>signed_offender\<close> of \<^verbatim>\<open>src/crates/qtv-devnet/src/node.rs\<close>), and drains or filters what is
  pending.
\<close>

inductive pool_reached :: "ml_dsa \<Rightarrow> bft \<Rightarrow> chain_binding \<Rightarrow> (bytes \<Rightarrow> bytes option) \<Rightarrow> evidence_pool \<Rightarrow> bool"
  for S F c key_of where
  pool_new_reached: "pool_reached S F c key_of pool_new"
| pool_observe_reached: "pool_reached S F c key_of p \<Longrightarrow> key_of offender = Some pk \<Longrightarrow>
    signed_by S F pk (attestation_message c height slot view committee block) sig \<Longrightarrow>
    pool_observe offender height slot view committee block sig p = (found, p') \<Longrightarrow> pool_reached S F c key_of p'"
| pool_drain_reached: "pool_reached S F c key_of p \<Longrightarrow> pool_drain p = (out, p') \<Longrightarrow> pool_reached S F c key_of p'"
| pool_retain_reached: "pool_reached S F c key_of p \<Longrightarrow> pool_reached S F c key_of (pool_retain keep p)"

text \<open>What a pool holds: verified attestations, and pending evidence that convicts.\<close>

definition seen_ok :: "ml_dsa \<Rightarrow> bft \<Rightarrow> chain_binding \<Rightarrow> (bytes \<Rightarrow> bytes option) \<Rightarrow> evidence_pool \<Rightarrow> bool" where
  "seen_ok S F c key_of p \<longleftrightarrow>
     (\<forall>a h v s k b sig. fmlookup (pool_seen p) (a, h, v) = Some (s, k, b, sig) \<longrightarrow>
        \<not> subject_is_view_change b \<and>
        (\<exists>pk. key_of a = Some pk \<and> signed_by S F pk (attestation_message c h s v k b) sig))"

definition convicting :: "ml_dsa \<Rightarrow> bft \<Rightarrow> chain_binding \<Rightarrow> (bytes \<Rightarrow> bytes option) \<Rightarrow> equivocation \<Rightarrow> bool" where
  "convicting S F c key_of e \<longleftrightarrow> (\<exists>pk. key_of (eq_offender e) = Some pk \<and> equivocation_attributes S F c pk e)"

definition pool_ok :: "ml_dsa \<Rightarrow> bft \<Rightarrow> chain_binding \<Rightarrow> (bytes \<Rightarrow> bytes option) \<Rightarrow> evidence_pool \<Rightarrow> bool" where
  "pool_ok S F c key_of p \<longleftrightarrow> seen_ok S F c key_of p \<and> list_all (convicting S F c key_of) (pool_pending p) \<and>
     length (pool_pending p) \<le> MAX_PENDING_EVIDENCE \<and> size (fmdom (pool_seen p)) \<le> MAX_WATCHED_ATTESTATIONS"

lemma advance_ok: "pool_ok S F c key_of p \<Longrightarrow> pool_ok S F c key_of (pool_advance height p)"
proof -
  have "size (fmdom (fmfilter P m)) \<le> size (fmdom m)" for P and m :: "(watch_key, u64 \<times> bytes \<times> bytes \<times> bytes) fmap"
    by (simp add: card_mono)
  then show "pool_ok S F c key_of p \<Longrightarrow> pool_ok S F c key_of (pool_advance height p)"
    by (auto simp: pool_ok_def pool_advance_def seen_ok_def intro: order_trans)
qed

lemma observe_ok:
  assumes "pool_ok S F c key_of p" and key: "key_of offender = Some pk"
    and sig: "signed_by S F pk (attestation_message c height slot view committee block) sig"
    and ob: "pool_observe offender height slot view committee block sig p = (found, p')"
  shows "pool_ok S F c key_of p'"
proof (cases "subject_is_view_change block")
  case False
  let ?p = "pool_advance height p" and ?k = "(offender, height, view)"
  have ok: "pool_ok S F c key_of ?p" using assms(1) by (rule advance_ok)
  show ?thesis
  proof (cases "fmlookup (pool_seen ?p) ?k")
    case None
    with ob False have "p' = ?p \<or> (size (fmdom (pool_seen ?p)) < MAX_WATCHED_ATTESTATIONS \<and>
        p' = ?p\<lparr>pool_seen := fmupd ?k (slot, committee, block, sig) (pool_seen ?p)\<rparr>)"
      by (auto simp: pool_observe_def Let_def split: if_splits)
    with ok False key sig show ?thesis
      by (auto simp: pool_ok_def seen_ok_def card_insert_if split: if_splits)
  next
    case (Some prev)
    obtain s k b g where prev: "prev = (s, k, b, g)" by (cases prev)
    have "seen_ok S F c key_of ?p" using ok by (simp add: pool_ok_def)
    with Some prev obtain pk' where old: "\<not> subject_is_view_change b" "key_of offender = Some pk'"
      "signed_by S F pk' (attestation_message c height s view k b) g"
      unfolding seen_ok_def by blast
    let ?e = "\<lparr>eq_offender = offender, eq_height = height, eq_view_a = view, eq_view_b = view, eq_slot_a = s,
      eq_slot_b = slot, eq_committee_a = k, eq_committee_b = committee, eq_block_a = b, eq_sig_a = g,
      eq_block_b = block, eq_sig_b = sig\<rparr>"
    from ob False Some prev have "p' = ?p \<or> (b \<noteq> block \<and> length (pool_pending ?p) < MAX_PENDING_EVIDENCE \<and>
        p' = ?p\<lparr>pool_flagged := ?k # pool_flagged ?p, pool_pending := pool_pending ?p @ [?e]\<rparr>)"
      by (auto simp: pool_observe_def Let_def not_le split: if_splits)
    moreover have "b \<noteq> block \<Longrightarrow> convicting S F c key_of ?e"
      using old key sig False by (simp add: convicting_def equivocation_attributes_def)
    ultimately show ?thesis
      using ok by (auto simp: pool_ok_def seen_ok_def)
  qed
qed (use assms in \<open>simp add: pool_observe_def\<close>)

lemma pool_ok_reached: "pool_reached S F c key_of p \<Longrightarrow> pool_ok S F c key_of p"
proof (induction rule: pool_reached.induct)
  case pool_new_reached
  then show ?case by (simp add: pool_ok_def seen_ok_def pool_new_def)
next
  case (pool_observe_reached p offender pk height slot view committee block sig found p')
  then show ?case by (blast intro: observe_ok)
next
  case (pool_drain_reached p out p')
  then show ?case by (auto simp: pool_drain_def pool_ok_def seen_ok_def)
next
  case (pool_retain_reached p keep)
  then show ?case
    by (auto simp: pool_retain_def pool_ok_def seen_ok_def list_all_iff intro: order_trans [OF length_filter_le])
qed

section \<open>Claims\<close>

text \<open>
  C36: the encodings of evidence are canonical.  Each of the five kinds is decoded from exactly its own
  encoding: nothing else, no trailing byte and no other layout is accepted.
\<close>

theorem evidence_codecs_canonical:
  "(decode_equivocation bs = Some e1 \<longleftrightarrow> equivocation_ok e1 \<and> encode_equivocation e1 [] = bs \<and> length bs < 2 ^ 64) \<and>
   (decode_prevote_equivocation bs = Some e2 \<longleftrightarrow>
      prevote_equivocation_ok e2 \<and> encode_prevote_equivocation e2 [] = bs \<and> length bs < 2 ^ 64) \<and>
   (decode_proposal_equivocation bs = Some e3 \<longleftrightarrow>
      proposal_equivocation_ok e3 \<and> encode_proposal_equivocation e3 [] = bs \<and> length bs < 2 ^ 64) \<and>
   (decode_lock_violation bs = Some e4 \<longleftrightarrow> lock_violation_ok e4 \<and> encode_lock_violation e4 [] = bs \<and> length bs < 2 ^ 64) \<and>
   (decode_double_finality bs = Some e5 \<longleftrightarrow>
      double_finality_ok e5 \<and> encode_double_finality e5 [] = bs \<and> length bs < 2 ^ 64)"
  by (simp add: decode_equivocation_def decode_prevote_equivocation_def decode_proposal_equivocation_def
      decode_lock_violation_def decode_double_finality_def equivc.opened_iff prevote_equivc.opened_iff
      proposal_equivc.opened_iff lockc.opened_iff finalityc.opened_iff)



end
