(* ===== verification/Contracts.thy ===== *)
theory Contracts
  imports LedgerAtomic Evidence
begin

text \<open>
  Contracts: their containers and execution (\<^verbatim>\<open>src/crates/qtv-node/src/execution.rs\<close>), the provenance
  of deployed code (\<^verbatim>\<open>provenance.rs\<close>), the contract leaves of the ledger and \<^verbatim>\<open>run_contract\<close>
  (\<^verbatim>\<open>ledger.rs\<close>).  The machine itself is the external crate \<^verbatim>\<open>qtv_vm\<close>: the record \<open>vm_crate\<close> holds what
  the node calls of it, and nothing is assumed of what a run returns.  The registers the ledger keeps
  between a call and its settlement, which no journal covers, are the record \<open>vm_regs\<close>.
\<close>

section \<open>The machine\<close>

datatype vm_rule =
    Rule_OutOfMeter | Rule_ContractFault | Rule_UnknownEntry | Rule_NoContract | Rule_Unknown
  | Rule_ValueExceedsBalance | Rule_TransferRejected | Rule_InsufficientFunds | Rule_AssetTooLow
  | Rule_AssetStopped | Rule_MintCeiling | Rule_BlockStateLimit | Rule_DeployRejected | Rule_GenesisCall
  | Rule_Vm u16

datatype vm_fault = Fault_Overflow | Fault_OutOfMeter | Fault_DivByZero | Fault_Vm u16

datatype vm_effect = Effect_Transfer bytes u64 | Effect_Event bytes bytes | Effect_Vm u16

record vm_entry =
  entry_selector :: bytes
  entry_offset :: u32
  entry_reads :: "u64 list"
  entry_writes :: "u64 list"
  entry_keyed_reads :: "u64 list"
  entry_keyed_writes :: "u64 list"

record container =
  con_code :: bytes
  con_consts :: "u64 list"
  con_entries :: "vm_entry list"

record vm_result =
  res_storage :: "(bytes \<times> u64) list"
  res_dirty :: "bytes list"
  res_fetched :: nat
  res_effects :: "vm_effect list"
  res_meter :: u64
  res_regs :: "u64 list"

text \<open>
  \<open>vm_open con selector limit\<close> is the fault of \<^verbatim>\<open>Interpreter::for_genesis\<close> or \<^verbatim>\<open>for_entry\<close>, if any;
  \<open>vm_run con selector limit loader touches memory\<close> runs the machine with a storage loader that answers
  at most \<open>touches\<close> reads (None: all of them) and 0 afterwards, and says whether it was asked for more.
\<close>

record vm_crate =
  GENESIS_SELECTOR :: bytes
  SELECTOR_BYTES :: nat
  MAX_CONSTS :: nat
  MAX_ENTRIES :: nat
  MEM_BYTES :: nat
  vm_verify :: "container \<Rightarrow> bool"
  canonical_bytes :: "container \<Rightarrow> bytes"
  container_id :: "container \<Rightarrow> bytes"
  vm_open :: "container \<Rightarrow> bytes \<Rightarrow> u64 \<Rightarrow> vm_fault option"
  vm_run :: "container \<Rightarrow> bytes \<Rightarrow> u64 \<Rightarrow> (bytes \<Rightarrow> u64) \<Rightarrow> u64 option \<Rightarrow> bytes \<Rightarrow> bool \<times> (vm_fault + vm_result)"
  halting_stubs :: "bytes \<Rightarrow> bytes option"
  reason_in :: "u64 list \<Rightarrow> (vm_rule \<times> u32) option"
  rule_of_fault :: "vm_fault \<Rightarrow> vm_rule"
  rule_code :: "vm_rule \<Rightarrow> u16"

section \<open>Containers\<close>

definition be_nat :: "bytes \<Rightarrow> nat" where
  "be_nat bs = nat_of_le (rev bs)"

definition be64 :: "u64 \<Rightarrow> bytes" where
  "be64 v = rev (le64 v)"

definition read_be_u32 :: "bytes \<Rightarrow> (nat \<times> bytes) option" where
  "read_be_u32 bs = (if length bs < 4 then None else Some (be_nat (take 4 bs), drop 4 bs))"

definition read_be_u64 :: "bytes \<Rightarrow> (u64 \<times> bytes) option" where
  "read_be_u64 bs = (if length bs < 8 then None else Some (word_of_nat (be_nat (take 8 bs)), drop 8 bs))"

text \<open>The position the source carries is the rest of the input here.\<close>

primrec read_n :: "(bytes \<Rightarrow> ('a \<times> bytes) option) \<Rightarrow> nat \<Rightarrow> bytes \<Rightarrow> ('a list \<times> bytes) option" where
  "read_n p 0 bs = Some ([], bs)"
| "read_n p (Suc n) bs = do { (x, bs) \<leftarrow> p bs; (xs, bs) \<leftarrow> read_n p n bs; Some (x # xs, bs) }"

definition MAX_SLOTS_PER_LIST :: nat where "MAX_SLOTS_PER_LIST = 65536"

definition read_slots :: "bytes \<Rightarrow> (u64 list \<times> bytes) option" where
  "read_slots bs = do {
     (count, bs) \<leftarrow> read_be_u32 bs;
     if MAX_SLOTS_PER_LIST < count then None else read_n read_be_u64 count bs }"

definition read_entry :: "vm_crate \<Rightarrow> bytes \<Rightarrow> (vm_entry \<times> bytes) option" where
  "read_entry V bs = (if length bs < SELECTOR_BYTES V then None else do {
     let sel = take (SELECTOR_BYTES V) bs;
     (offset, bs) \<leftarrow> read_be_u32 (drop (SELECTOR_BYTES V) bs);
     (reads, bs) \<leftarrow> read_slots bs;
     (writes, bs) \<leftarrow> read_slots bs;
     (keyed_reads, bs) \<leftarrow> read_slots bs;
     (keyed_writes, bs) \<leftarrow> read_slots bs;
     Some (\<lparr>entry_selector = sel, entry_offset = word_of_nat offset, entry_reads = reads, entry_writes = writes,
            entry_keyed_reads = keyed_reads, entry_keyed_writes = keyed_writes\<rparr>, bs) })"

definition decode_container :: "vm_crate \<Rightarrow> bytes \<Rightarrow> container option" where
  "decode_container V bs =
     (if length bs < 4 \<or> take 4 bs \<noteq> ascii ''QVM1'' then None else do {
        (code_len, bs) \<leftarrow> read_be_u32 (drop 4 bs);
        if length bs < code_len then None else do {
        let code = take code_len bs;
        (consts_len, bs) \<leftarrow> read_be_u32 (drop code_len bs);
        if MAX_CONSTS V < consts_len then None else do {
        (consts, bs) \<leftarrow> read_n read_be_u64 consts_len bs;
        (entries_len, bs) \<leftarrow> read_be_u32 bs;
        if MAX_ENTRIES V < entries_len then None else do {
        (entries, bs) \<leftarrow> read_n (read_entry V) entries_len bs;
        Some \<lparr>con_code = code, con_consts = consts, con_entries = entries\<rparr> }}}})"

section \<open>Execution\<close>

definition TRANSFER_METER :: u64 where "TRANSFER_METER = 1210"
definition CODE_ACCESS_BYTE_METER :: u64 where "CODE_ACCESS_BYTE_METER = 1"
definition SLOT_ACCESS_METER :: u64 where "SLOT_ACCESS_METER = 200"
definition DEPLOY_BYTE_METER :: u64 where "DEPLOY_BYTE_METER = 100"
definition DIAGNOSTIC_METER :: u64 where "DIAGNOSTIC_METER = 1000000"

definition deploy_meter_cost :: "nat \<Rightarrow> u64" where
  "deploy_meter_cost n = saturating_mul (word_of_nat n) DEPLOY_BYTE_METER"

record contract_outcome =
  out_storage :: "(bytes \<times> u64) list"
  out_effects :: "vm_effect list"
  out_meter_used :: u64

definition explain_fault :: "vm_crate \<Rightarrow> container \<Rightarrow> bytes \<Rightarrow> (bytes \<Rightarrow> u64) \<Rightarrow> bytes \<Rightarrow> u64 \<Rightarrow> vm_fault \<Rightarrow> vm_rule \<times> u32" where
  "explain_fault V con sel loader memory vm_limit fault =
     (let found = (if fault = Fault_DivByZero then do {
          code \<leftarrow> halting_stubs V (con_code con);
          let patched = con\<lparr>con_code := code\<rparr>;
          let diag_limit = min vm_limit DIAGNOSTIC_METER;
          case vm_open V patched sel diag_limit of
            Some _ \<Rightarrow> None
          | None \<Rightarrow> (case vm_run V patched sel diag_limit loader None memory of
                (_, Inr out) \<Rightarrow> reason_in V (res_regs out) | (_, Inl _) \<Rightarrow> None) } else None)
      in case found of Some r \<Rightarrow> r | None \<Rightarrow> (rule_of_fault V fault, 0))"

definition execute_contract_call_lazy ::
    "vm_crate \<Rightarrow> bytes \<Rightarrow> bytes \<Rightarrow> (bytes \<Rightarrow> u64) \<Rightarrow> bytes \<Rightarrow> u64 \<Rightarrow> (vm_rule \<times> u32) + contract_outcome" where
  "execute_contract_call_lazy V code sel loader memory meter_limit =
     (let access_cost = saturating_mul (word_of_nat (length code)) CODE_ACCESS_BYTE_METER in
      case checked_sub meter_limit access_cost of
        None \<Rightarrow> Inl (Rule_OutOfMeter, 0)
      | Some vm_limit \<Rightarrow>
      (case decode_container V code of
        None \<Rightarrow> Inl (Rule_ContractFault, 0)
      | Some con \<Rightarrow>
        if sel \<notin> entry_selector ` set (con_entries con) then Inl (Rule_UnknownEntry, 0)
        else (case vm_open V con sel vm_limit of
          Some fault \<Rightarrow> Inl (if fault = Fault_OutOfMeter then Rule_OutOfMeter else rule_of_fault V fault, 0)
        | None \<Rightarrow>
          (case vm_run V con sel vm_limit loader (Some (vm_limit div SLOT_ACCESS_METER)) memory of
            (beyond, Inl fault) \<Rightarrow>
              Inl (if beyond then (Rule_OutOfMeter, 0) else explain_fault V con sel loader memory vm_limit fault)
          | (beyond, Inr out) \<Rightarrow>
              if beyond then Inl (Rule_OutOfMeter, 0)
              else let touched = word_of_nat (length (res_storage out) + res_fetched out);
                       meter_used = saturating_add (saturating_add (res_meter out) access_cost)
                         (saturating_mul touched SLOT_ACCESS_METER)
                   in if meter_limit < meter_used then Inl (Rule_OutOfMeter, 0)
                      else Inr \<lparr>out_storage = List.map_filter (\<lambda>slot.
                               map_option (\<lambda>v. (slot, v)) (map_of (res_storage out) slot)) (res_dirty out),
                             out_effects = res_effects out, out_meter_used = meter_used\<rparr>))))"

section \<open>Provenance\<close>

definition PROVENANCE_TAG :: bytes where "PROVENANCE_TAG = ascii ''QPV2''"
definition PROVENANCE_DOMAIN :: bytes where "PROVENANCE_DOMAIN = ascii ''QUANTOVA/QVM/PROVENANCE/v2''"
definition STATEMENT_DIGEST_BYTES :: nat where "STATEMENT_DIGEST_BYTES = 32"

text \<open>The keys compiled into the node; there is no mainnet key yet.\<close>

record provenance_keys =
  verifier_key :: bytes
  legacy_testnet_key :: bytes
  mainnet_key :: "bytes option"

definition admit_under :: "vm_crate \<Rightarrow> ml_dsa \<Rightarrow> bytes \<Rightarrow> bytes \<Rightarrow> container \<Rightarrow> bytes option" where
  "admit_under V S pk artifact con =
     (let canonical = canonical_bytes V con;
          statement_at = length canonical + length PROVENANCE_TAG;
          signature_at = statement_at + 2 * STATEMENT_DIGEST_BYTES
      in if length artifact \<noteq> signature_at + SIGNATURE_BYTES S then None
         else if take (length canonical) artifact \<noteq> canonical then None
         else if take (length PROVENANCE_TAG) (drop (length canonical) artifact) \<noteq> PROVENANCE_TAG then None
         else let message = container_id V con @ take (2 * STATEMENT_DIGEST_BYTES) (drop statement_at artifact) in
           if \<not> ml_dsa_verify S pk message (drop signature_at artifact) PROVENANCE_DOMAIN then None
           else Some canonical)"

section \<open>The contract leaves\<close>

definition CONTRACT_CONTEXT_BYTES :: nat where "CONTRACT_CONTEXT_BYTES = 152"
definition LEGACY_CONTRACT_CONTEXT_BYTES :: nat where "LEGACY_CONTRACT_CONTEXT_BYTES = 120"
definition CONTRACT_CONTEXT_VERSION :: u64 where "CONTRACT_CONTEXT_VERSION = 2"
definition ASSET_MINT_SELECTOR :: bytes where "ASSET_MINT_SELECTOR = ascii ''MINT''"

definition contract_code :: "bytes \<Rightarrow> ledger \<Rightarrow> bytes option" where
  "contract_code i l = (case held l (VmCode i) as_bytes of Some c \<Rightarrow> if c = [] then None else Some c | None \<Rightarrow> None)"

definition is_contract :: "bytes \<Rightarrow> ledger \<Rightarrow> bool" where
  "is_contract address l \<longleftrightarrow> (case address_id address of Some i \<Rightarrow> contract_code i l \<noteq> None | None \<Rightarrow> False)"

definition set_contract_code :: "bytes \<Rightarrow> bytes \<Rightarrow> ledger \<Rightarrow> ledger" where
  "set_contract_code i code l =
     write_leaf (VmContextVersion i) (VU64 CONTRACT_CONTEXT_VERSION) (write_leaf (VmCode i) (VBytes code) l)"

definition clear_contract_code :: "hash \<Rightarrow> bytes \<Rightarrow> ledger \<Rightarrow> ledger" where
  "clear_contract_code H address l =
     (case address_id address of
        Some i \<Rightarrow> snd (erase_leaf (AssetMintCeiling (asset_id_of H i))
                   (snd (erase_leaf (VmContextVersion i) (snd (erase_leaf (VmCode i) l)))))
      | None \<Rightarrow> l)"

definition contract_context_bytes :: "bytes \<Rightarrow> ledger \<Rightarrow> nat" where
  "contract_context_bytes i l =
     (case held l (VmContextVersion i) as_u64 of
        Some v \<Rightarrow> if CONTRACT_CONTEXT_VERSION \<le> v then CONTRACT_CONTEXT_BYTES else LEGACY_CONTRACT_CONTEXT_BYTES
      | None \<Rightarrow> LEGACY_CONTRACT_CONTEXT_BYTES)"

definition declare_mint_ceiling :: "hash \<Rightarrow> bytes \<Rightarrow> u128 \<Rightarrow> ledger \<Rightarrow> bool \<times> ledger" where
  "declare_mint_ceiling H contract cap l =
     (case address_id contract of
        None \<Rightarrow> (False, l)
      | Some i \<Rightarrow> let k = AssetMintCeiling (asset_id_of H i) in
          if cap = 0 \<or> held l k as_u128 \<noteq> None then (False, l) else (True, write_leaf k (VU128 cap) l))"

definition mint_ceiling :: "hash \<Rightarrow> bytes \<Rightarrow> ledger \<Rightarrow> u128" where
  "mint_ceiling H i l = held_or 0 l (AssetMintCeiling (asset_id_of H i)) as_u128"

definition mint_within_ceiling :: "hash \<Rightarrow> bytes \<Rightarrow> bytes \<Rightarrow> u128 \<Rightarrow> ledger \<Rightarrow> bool \<times> ledger" where
  "mint_within_ceiling H i holder amount l =
     (let cap = mint_ceiling H i l; issued = asset_supply (asset_id_of H i) l in
      case checked_add issued amount of
        None \<Rightarrow> (False, l)
      | Some tot \<Rightarrow>
          if cap \<noteq> 0 \<and> cap < tot then (False, l) else mint_asset H i holder amount l)"

definition deploy_contract_under ::
    "hash \<Rightarrow> vm_crate \<Rightarrow> ml_dsa \<Rightarrow> provenance_keys \<Rightarrow> bytes \<Rightarrow> u64 \<Rightarrow> bytes \<Rightarrow> bool \<Rightarrow> bool \<Rightarrow> ledger \<Rightarrow> bytes option \<times> ledger" where
  "deploy_contract_under H V S P deployer n code legacy mainnet l =
     (let admitted = do {
        con \<leftarrow> decode_container V code;
        if \<not> vm_verify V con then None else do {
        pk \<leftarrow> (if mainnet then mainnet_key P else Some (if legacy then legacy_testnet_key P else verifier_key P));
        canonical \<leftarrow> admit_under V S pk code con;
        contract \<leftarrow> contract_address H deployer n;
        i \<leftarrow> address_id contract;
        Some (contract, i, canonical) }}
      in case admitted of
           None \<Rightarrow> (None, l)
         | Some (contract, i, canonical) \<Rightarrow> (Some contract, set_contract_code i canonical l))"

definition contract_slot :: "bytes \<Rightarrow> bytes \<Rightarrow> ledger \<Rightarrow> u64" where
  "contract_slot i slot l = held_or 0 l (VmSlot i slot) as_u64"

definition set_contract_slot :: "bytes \<Rightarrow> bytes \<Rightarrow> u64 \<Rightarrow> ledger \<Rightarrow> ledger" where
  "set_contract_slot i slot v l =
     (if v = 0 then snd (erase_leaf (VmSlot i slot) l) else write_leaf (VmSlot i slot) (VU64 v) l)"

section \<open>Running a contract\<close>

record vm_regs =
  last_vm_meter_used :: u64
  last_vm_call_cost :: "u64 option"
  vm_deploy_armed :: bool
  call_failure :: "(vm_rule \<times> u32) option"

definition arm_vm_meter :: "u64 \<Rightarrow> vm_regs \<Rightarrow> vm_regs" where
  "arm_vm_meter declared r = r\<lparr>last_vm_meter_used := declared, last_vm_call_cost := None, vm_deploy_armed := False\<rparr>"

definition arm_vm_meter_deploy :: "u64 \<Rightarrow> vm_regs \<Rightarrow> vm_regs" where
  "arm_vm_meter_deploy cost r = r\<lparr>last_vm_meter_used := cost, last_vm_call_cost := None, vm_deploy_armed := True\<rparr>"

definition vm_meter_charge :: "vm_regs \<Rightarrow> u64" where
  "vm_meter_charge r =
     (if vm_deploy_armed r then last_vm_meter_used r
      else case last_vm_call_cost r of Some c \<Rightarrow> c | None \<Rightarrow> last_vm_meter_used r)"

text \<open>How a stretch of \<^verbatim>\<open>run_contract\<close> ends: it goes on, it fails with a rule, or it panics.\<close>

datatype run_end = Goes_on | Fails vm_rule | Panics

text \<open>
  The transfers among the effects: the sum and the list of the native ones, the sums per asset in the
  order of a \<^verbatim>\<open>BTreeMap\<close>, and the list of the asset moves.  None is \<^verbatim>\<open>TransferRejected\<close>.
\<close>

fun bump :: "bytes \<Rightarrow> u128 \<Rightarrow> (bytes \<times> u128) list \<Rightarrow> (bytes \<times> u128) list option" where
  "bump a x [] = Some [(a, x)]"
| "bump a x ((b, y) # m) =
     (if a = b then map_option (\<lambda>s. (b, s) # m) (checked_add y x)
      else if map unat a < map unat b then Some ((a, x) # (b, y) # m)
      else map_option ((#) (b, y)) (bump a x m))"

record tally_state =
  native_sent :: u64
  native_credits :: "(bytes \<times> u64) list"
  asset_sent :: "(bytes \<times> u128) list"
  asset_credits :: "(bytes \<times> bytes \<times> u128) list"

definition tally_one :: "hash \<Rightarrow> vm_effect \<Rightarrow> tally_state \<Rightarrow> tally_state option" where
  "tally_one H e t =
     (case e of
        Effect_Transfer to amount \<Rightarrow>
          if length to = 32 then do {
            target \<leftarrow> id_bytes_to_address to;
            sent \<leftarrow> checked_add (native_sent t) amount;
            Some (t\<lparr>native_sent := sent, native_credits := native_credits t @ [(target, amount)]\<rparr>) }
          else if length to = 64 then do {
            let asset = asset_id_of H (take 32 to);
            let moved = ucast amount;
            sent \<leftarrow> bump asset moved (asset_sent t);
            Some (t\<lparr>asset_sent := sent, asset_credits := asset_credits t @ [(asset, drop 32 to, moved)]\<rparr>) }
          else None
      | _ \<Rightarrow> Some t)"

primrec tally_effects :: "hash \<Rightarrow> vm_effect list \<Rightarrow> tally_state \<Rightarrow> tally_state option" where
  "tally_effects H [] t = Some t"
| "tally_effects H (e # es) t = (case tally_one H e t of None \<Rightarrow> None | Some t' \<Rightarrow> tally_effects H es t')"

primrec assets_funded :: "bytes \<Rightarrow> (bytes \<times> u64) option \<Rightarrow> (bytes \<times> u128) list \<Rightarrow> ledger \<Rightarrow> run_end" where
  "assets_funded i incoming [] l = Goes_on"
| "assets_funded i incoming (p # ps) l =
     (let asset_in = (case incoming of Some (a, v) \<Rightarrow> if a = fst p then ucast v else 0 | None \<Rightarrow> 0) in
      case checked_add (asset_balance (fst p) i l) asset_in of
        None \<Rightarrow> Fails Rule_TransferRejected
      | Some funded \<Rightarrow> if funded < snd p then Fails Rule_AssetTooLow else assets_funded i incoming ps l)"

primrec credits_fit :: "(bytes \<times> bytes \<times> u128) list \<Rightarrow> ((bytes \<times> bytes) \<times> u128) list \<Rightarrow> ledger \<Rightarrow> bool" where
  "credits_fit [] projected l = True"
| "credits_fit (c # cs) projected l =
     (let k = (fst c, fst (snd c));
          slot = (case map_of projected k of Some s \<Rightarrow> s | None \<Rightarrow> asset_balance (fst k) (snd k) l)
      in case checked_add slot (snd (snd c)) of
           Some s \<Rightarrow> credits_fit cs ((k, s) # projected) l | None \<Rightarrow> False)"

definition take_value :: "bytes \<Rightarrow> bytes \<Rightarrow> bytes \<Rightarrow> bytes \<Rightarrow> u64 \<Rightarrow> bytes option \<Rightarrow> ledger \<Rightarrow> run_end \<times> ledger" where
  "take_value caller caller_id contract contract_id v asset l =
     (if v = 0 then (Goes_on, l)
      else case asset of
        None \<Rightarrow>
          (case apply_balance_delta caller (- int (unat v)) l of
             None \<Rightarrow> (Panics, l)
           | Some l1 \<Rightarrow> (case apply_balance_delta contract (int (unat v)) l1 of
               None \<Rightarrow> (Panics, l1) | Some l2 \<Rightarrow> (Goes_on, l2)))
      | Some a \<Rightarrow>
          if checked_add (asset_balance a contract_id l) (ucast v) = None then (Fails Rule_TransferRejected, l)
          else if asset_issuer_is_stopped a l then (Fails Rule_AssetStopped, l)
          else (case debit_asset a caller_id (ucast v) l of
                  (False, l1) \<Rightarrow> (Fails Rule_ValueExceedsBalance, l1)
                | (True, l1) \<Rightarrow> (case credit_asset a contract_id (ucast v) l1 of
                    (False, l2) \<Rightarrow> (Fails Rule_TransferRejected, l2) | (True, l2) \<Rightarrow> (Goes_on, l2))))"

primrec pay_native :: "bytes \<Rightarrow> (bytes \<times> u64) list \<Rightarrow> ledger \<Rightarrow> run_end \<times> ledger" where
  "pay_native contract [] l = (Goes_on, l)"
| "pay_native contract (c # cs) l =
     (case apply_balance_delta contract (- int (unat (snd c))) l of
        None \<Rightarrow> (Panics, l)
      | Some l1 \<Rightarrow> (case apply_balance_delta (fst c) (int (unat (snd c))) l1 of
          None \<Rightarrow> (Panics, l1)
        | Some l2 \<Rightarrow> pay_native contract cs (record_side_event (ContractTransfer contract (fst c) (snd c)) l2)))"

primrec pay_assets :: "bytes \<Rightarrow> (bytes \<times> bytes \<times> u128) list \<Rightarrow> ledger \<Rightarrow> run_end \<times> ledger" where
  "pay_assets contract_id [] l = (Goes_on, l)"
| "pay_assets contract_id (c # cs) l =
     (let asset = fst c; holder = fst (snd c); amount = snd (snd c) in
      if checked_add (asset_balance asset holder l) amount = None then (Fails Rule_TransferRejected, l)
      else if asset_issuer_is_stopped asset l then (Fails Rule_AssetStopped, l)
      else (case debit_asset asset contract_id amount l of
              (False, l1) \<Rightarrow> (Fails Rule_AssetTooLow, l1)
            | (True, l1) \<Rightarrow> (case credit_asset asset holder amount l1 of
                (False, l2) \<Rightarrow> (Fails Rule_TransferRejected, l2) | (True, l2) \<Rightarrow> pay_assets contract_id cs l2)))"

primrec emit_events :: "hash \<Rightarrow> bytes \<Rightarrow> bytes \<Rightarrow> vm_effect list \<Rightarrow> ledger \<Rightarrow> run_end \<times> ledger" where
  "emit_events H contract contract_id [] l = (Goes_on, l)"
| "emit_events H contract contract_id (e # es) l =
     (case e of
        Effect_Event sel dat \<Rightarrow>
          if sel = ASSET_MINT_SELECTOR \<and> 40 \<le> length dat then
            (case mint_within_ceiling H contract_id (take 32 dat) (word_of_nat (be_nat (take 8 (drop 32 dat)))) l of
               (False, l1) \<Rightarrow> (Fails Rule_MintCeiling, l1)
             | (True, l1) \<Rightarrow> emit_events H contract contract_id es l1)
          else emit_events H contract contract_id es
            (push_event \<lparr>event_contract = contract, event_selector = sel, event_data = dat, event_tx = current_tx l\<rparr> l)
      | _ \<Rightarrow> emit_events H contract contract_id es l)"

text \<open>The context the node writes in front of the memory a caller supplies.\<close>

definition call_memory :: "bytes \<Rightarrow> bytes \<Rightarrow> u64 \<Rightarrow> u64 \<Rightarrow> u64 \<Rightarrow> bytes option \<Rightarrow> nat \<Rightarrow> bytes \<Rightarrow> ledger \<Rightarrow> bytes" where
  "call_memory caller_id contract_id now chain_id v in_asset context_bytes user l =
     caller_id @ contract_id @ be64 now @ be64 chain_id @ be64 v @
     (case in_asset of Some a \<Rightarrow> a | None \<Rightarrow> replicate 32 0) @
     (if CONTRACT_CONTEXT_BYTES \<le> context_bytes then chain_genesis_hash l else []) @ drop context_bytes user"

text \<open>What follows a successful run: funding checks, the value of the call, transfers, events, storage.\<close>

definition settle_run :: "hash \<Rightarrow> bytes \<Rightarrow> bytes \<Rightarrow> bytes \<Rightarrow> bytes \<Rightarrow> u64 \<Rightarrow> bytes option \<Rightarrow> contract_outcome \<Rightarrow> ledger \<Rightarrow>
    run_end \<times> ledger" where
  "settle_run H caller caller_id contract contract_id v asset out l =
     (case tally_effects H (out_effects out) \<lparr>native_sent = 0, native_credits = [], asset_sent = [], asset_credits = []\<rparr> of
        None \<Rightarrow> (Fails Rule_TransferRejected, l)
      | Some t \<Rightarrow>
      (case checked_add (balance contract l) (if asset = None then v else 0) of
        None \<Rightarrow> (Fails Rule_TransferRejected, l)
      | Some funded \<Rightarrow>
        if funded < native_sent t then (Fails Rule_InsufficientFunds, l)
        else
      (case assets_funded contract_id (map_option (\<lambda>a. (a, v)) asset) (asset_sent t) l of
        Goes_on \<Rightarrow>
          if \<not> credits_fit (asset_credits t) [] l then (Fails Rule_TransferRejected, l)
          else
          (case take_value caller caller_id contract contract_id v asset l of
            (Goes_on, l) \<Rightarrow>
            (case pay_native contract (native_credits t) l of
              (Goes_on, l) \<Rightarrow>
              (case pay_assets contract_id (asset_credits t) l of
                (Goes_on, l) \<Rightarrow>
                (case emit_events H contract contract_id (out_effects out) l of
                  (Goes_on, l) \<Rightarrow>
                    (Goes_on, fold (\<lambda>(slot, x). set_contract_slot contract_id slot x) (out_storage out) l)
                | r \<Rightarrow> r)
              | r \<Rightarrow> r)
            | r \<Rightarrow> r)
          | r \<Rightarrow> r)
      | r \<Rightarrow> (r, l))))"

definition run_contract :: "hash \<Rightarrow> vm_crate \<Rightarrow> bytes \<Rightarrow> bytes \<Rightarrow> bytes \<Rightarrow> bytes \<Rightarrow> u64 \<Rightarrow> u64 \<Rightarrow> u64 \<Rightarrow> bytes option \<Rightarrow> u64 \<Rightarrow>
    vm_regs \<Rightarrow> ledger \<Rightarrow> bool option \<times> vm_regs \<times> ledger" where
  "run_contract H V caller contract sel user now meter v in_asset chain_id r l =
     (let r = r\<lparr>call_failure := None\<rparr>;
          fail = (\<lambda>rule r l. (Some False, r\<lparr>call_failure := Some (rule, 0)\<rparr>, l))
      in case address_id contract of
        None \<Rightarrow> fail Rule_NoContract r l
      | Some contract_id \<Rightarrow>
      (case contract_code contract_id l of
        None \<Rightarrow> fail Rule_NoContract r l
      | Some code \<Rightarrow>
      (case address_id caller of
        None \<Rightarrow> fail Rule_Unknown r l
      | Some caller_id \<Rightarrow>
        let asset = map_option (asset_id_of H) in_asset in
        if 0 < v \<and> (case asset of None \<Rightarrow> balance caller l < v | Some a \<Rightarrow> asset_balance a caller_id l < ucast v)
        then fail Rule_ValueExceedsBalance r l
        else let memory = call_memory caller_id contract_id now chain_id v in_asset (contract_context_bytes contract_id l) user l in
        (case execute_contract_call_lazy V code sel (\<lambda>slot. contract_slot contract_id slot l) memory meter of
           Inl failure \<Rightarrow> (Some False, r\<lparr>call_failure := Some failure\<rparr>, l)
         | Inr out \<Rightarrow>
             let r = r\<lparr>last_vm_meter_used := saturating_add (last_vm_meter_used r) (out_meter_used out),
                       last_vm_call_cost := Some (out_meter_used out)\<rparr>
             in case settle_run H caller caller_id contract contract_id v asset out l of
                  (Goes_on, l) \<Rightarrow> (Some True, r, l)
                | (Fails rule, l) \<Rightarrow> fail rule r l
                | (Panics, l) \<Rightarrow> (None, r, l)))))"

definition call_contract :: "hash \<Rightarrow> vm_crate \<Rightarrow> bytes \<Rightarrow> bytes \<Rightarrow> bytes \<Rightarrow> bytes \<Rightarrow> u64 \<Rightarrow> u64 \<Rightarrow> u64 \<Rightarrow> bytes option \<Rightarrow> u64 \<Rightarrow>
    vm_regs \<Rightarrow> ledger \<Rightarrow> bool option \<times> vm_regs \<times> ledger" where
  "call_contract H V caller contract sel user now meter v in_asset chain_id r l =
     (if sel = GENESIS_SELECTOR V then (Some False, r, l)
      else run_contract H V caller contract sel user now meter v in_asset chain_id r l)"

definition run_genesis :: "hash \<Rightarrow> vm_crate \<Rightarrow> bytes \<Rightarrow> bytes \<Rightarrow> bytes \<Rightarrow> u64 \<Rightarrow> u64 \<Rightarrow> u64 \<Rightarrow> bytes option \<Rightarrow> u64 \<Rightarrow>
    vm_regs \<Rightarrow> ledger \<Rightarrow> bool option \<times> vm_regs \<times> ledger" where
  "run_genesis H V deployer contract user now meter v in_asset chain_id r l =
     run_contract H V deployer contract (GENESIS_SELECTOR V) user now meter v in_asset chain_id r l"

text \<open>
  Atomic application of a closure that also writes the registers: the journal does not cover them, so
  they keep what the closure wrote.
\<close>

definition atomic_regs :: "(vm_regs \<Rightarrow> ledger \<Rightarrow> bool option \<times> vm_regs \<times> ledger) \<Rightarrow> vm_regs \<Rightarrow> ledger \<Rightarrow>
    bool \<times> vm_regs \<times> ledger" where
  "atomic_regs f r l =
     (let (b, l') = apply_atomic (\<lambda>l. (fst (f r l), snd (snd (f r l)))) l
      in (b, fst (snd (f r (l\<lparr>journal := Some []\<rparr>))), l'))"

end
