(* ===== verification/ContractSafety.thy ===== *)
theory ContractSafety
  imports Contracts LedgerService
begin

text \<open>
  What a contract call can do to the ledger.  Nothing is assumed of the machine: whatever storage,
  effects and meter it reports, a call that succeeds moves native value only between the caller, the
  contract and the accounts it pays, moves issued assets without creating them, and mints only the
  asset of the contract itself, within its declared ceiling.  A call that fails or panics leaves
  nothing behind.
\<close>

section \<open>Native value\<close>

lemma word_of_int_unat: "0 \<le> i \<Longrightarrow> i < 2 ^ 64 \<Longrightarrow> unat (word_of_int i :: u64) = nat i"
  by (simp add: unsigned_of_int take_bit_int_eq_self)

lemma apply_balance_deltaE:
  assumes "apply_balance_delta a d l = Some l'"
  obtains "d = 0" "l' = l"
  | b where "d \<noteq> 0" "int (unat b) = uint (account_balance (account a l)) + d"
      "l' = set_account a ((account a l)\<lparr>account_balance := b\<rparr>) l"
proof (cases "d = 0")
  case False
  let ?n = "uint (account_balance (account a l)) + d"
  have n: "0 \<le> ?n" "?n < 2 ^ 64" and "l' = set_account a ((account a l)\<lparr>account_balance := word_of_int ?n\<rparr>) l"
    using assms False by (auto simp: apply_balance_delta_def Let_def not_less not_le split: if_splits)
  moreover have "int (unat (word_of_int ?n :: u64)) = ?n"
    using n by (subst word_of_int_unat) auto
  ultimately show thesis
    using that(2) False by blast
qed (use assms that(1) in \<open>simp add: apply_balance_delta_def\<close>)

lemma delta_take:
  assumes "apply_balance_delta a (- uint x) l = Some l'" and "sound l k m n"
  shows "sound l' (k + unat x) m n"
  using assms(1)
proof (cases rule: apply_balance_deltaE)
  case 1
  then show ?thesis using assms(2) by (simp add: unat_eq_nat_uint)
next
  case (2 b)
  then have "unat b + (k + unat x) = unat (account_balance (account a l)) + k"
    by (simp flip: of_nat_eq_iff [where 'a = int])
  then show ?thesis
    unfolding 2(3) by (intro sound_set_account [OF assms(2)]) simp
qed

lemma delta_give:
  assumes "apply_balance_delta a (uint x) l = Some l'" and "sound l (k + unat x) m n"
  shows "sound l' k m n"
  using assms(1)
proof (cases rule: apply_balance_deltaE)
  case 1
  then show ?thesis using assms(2) by (simp add: unat_eq_nat_uint)
next
  case (2 b)
  then have "unat b + k = unat (account_balance (account a l)) + (k + unat x)"
    by (simp flip: of_nat_eq_iff [where 'a = int])
  then show ?thesis
    unfolding 2(3) by (intro sound_set_account [OF assms(2)]) simp
qed

lemma keeps_take:
  "apply_balance_delta a d l' = Some l'' \<Longrightarrow> state_leaf a \<noteq> state_leaf p \<Longrightarrow> keeps p b g l l' \<Longrightarrow> keeps p b g l l''"
  by (erule apply_balance_deltaE) (auto intro: keeps_debit)

lemma keeps_give:
  assumes "apply_balance_delta a (uint x) l' = Some l''" and "keeps p b g l l'"
  shows "keeps p b g l l''"
  using assms(1)
proof (cases rule: apply_balance_deltaE)
  case (2 y)
  then have "account_balance (account a l') \<le> y"
    by (simp add: word_le_nat_alt flip: of_nat_le_iff [where 'a = int])
  then show ?thesis
    unfolding 2(3) by (intro keeps_account [OF assms(2)]) (simp add: balance_def account_def)
qed (use assms in simp)

lemma edits_delta: "apply_balance_delta a d l' = Some l'' \<Longrightarrow> edits l l' \<Longrightarrow> edits l l''"
  by (erule apply_balance_deltaE) (auto intro: edits_account)

section \<open>Issued assets\<close>

text \<open>The balances of an issued asset add up to \<open>asset_held\<close>.\<close>

definition asset_value :: "bytes \<Rightarrow> leaf \<Rightarrow> value \<Rightarrow> nat" where
  "asset_value a k v =
     (case k of AssetBalance b _ \<Rightarrow> if b = a then (case as_u128 v of Some x \<Rightarrow> unat x | None \<Rightarrow> 0) else 0 | _ \<Rightarrow> 0)"

definition asset_held :: "bytes \<Rightarrow> ledger \<Rightarrow> nat" where
  "asset_held a l = fm_sum (asset_value a) (store l)"

fun asset_leaf :: "leaf \<Rightarrow> bool" where
  "asset_leaf (AssetBalance _ _) \<longleftrightarrow> True"
| "asset_leaf (AssetSupply _) \<longleftrightarrow> True"
| "asset_leaf (AssetMintCeiling _) \<longleftrightarrow> True"
| "asset_leaf (Single s) \<longleftrightarrow> s = Supply"
| "asset_leaf _ \<longleftrightarrow> False"

lemma asset_value_other: "\<not> asset_leaf k \<Longrightarrow> asset_value a k v = 0" "asset_value a (AssetSupply b) v = 0"
  by (cases k) (auto simp: asset_value_def)

lemma asset_held_other:
  "\<not> asset_leaf k \<Longrightarrow> asset_held a (write_leaf k v l) = asset_held a l"
  "asset_held a (write_leaf (AssetSupply b) v l) = asset_held a l"
  "\<not> asset_leaf k \<Longrightarrow> asset_held a (snd (erase_leaf k l)) = asset_held a l"
proof -
  have upd: "fm_sum (asset_value a) (fmupd j v (store l)) = fm_sum (asset_value a) (store l)"
    if "\<And>v. asset_value a j v = 0" for j
    using fm_sum_upd [of "asset_value a" j v "store l"] that by (simp add: fm_at_def split: option.splits)
  then show "\<not> asset_leaf k \<Longrightarrow> asset_held a (write_leaf k v l) = asset_held a l"
    "asset_held a (write_leaf (AssetSupply b) v l) = asset_held a l"
    by (simp_all add: asset_held_def asset_value_other)
  show "\<not> asset_leaf k \<Longrightarrow> asset_held a (snd (erase_leaf k l)) = asset_held a l"
    using fm_sum_drop [of "asset_value a" k "store l"]
    by (simp add: asset_held_def asset_value_other fm_at_def split: option.splits)
qed

lemma asset_held_balance:
  "asset_held a (set_asset_balance b h x l) + (if a = b then unat (asset_balance b h l) else 0) =
   asset_held a l + (if a = b then unat x else 0)"
  using fm_sum_upd [of "asset_value a" "AssetBalance b h" "VU128 x" "store l"]
  by (auto simp: asset_held_def set_asset_balance_def asset_balance_def held_or_def held_def fm_at_def
      asset_value_def split: option.splits)

lemma asset_held_supply: "asset_held a (set_asset_supply b x l) = asset_held a l"
  by (simp add: set_asset_supply_def asset_held_other)

lemma asset_reads [simp]:
  "asset_supply a (set_asset_balance b h x l) = asset_supply a l"
  "asset_supply a (set_asset_supply b x l) = (if a = b then x else asset_supply a l)"
  "mint_ceiling H i (set_asset_balance b h x l) = mint_ceiling H i l"
  "mint_ceiling H i (set_asset_supply b x l) = mint_ceiling H i l"
  "total_supply (set_asset_balance b h x l) = total_supply l"
  "total_supply (set_asset_supply b x l) = total_supply l"
  by (auto simp: asset_supply_def mint_ceiling_def total_supply_def set_asset_balance_def set_asset_supply_def
      held_or_def held_def)

text \<open>
  \<open>lawful H i l l'\<close>: balances of issued assets follow their supplies, only the asset of the contract \<open>i\<close>
  is issued and only up to its ceiling, and the native supply stands.
\<close>

definition lawful :: "hash \<Rightarrow> bytes \<Rightarrow> ledger \<Rightarrow> ledger \<Rightarrow> bool" where
  "lawful H i l l' \<longleftrightarrow>
     (\<forall>a. asset_held a l' + unat (asset_supply a l) = asset_held a l + unat (asset_supply a l')) \<and>
     (\<forall>a. asset_supply a l' = asset_supply a l \<or>
        a = asset_id_of H i \<and> asset_supply a l < asset_supply a l' \<and>
        (mint_ceiling H i l = 0 \<or> asset_supply a l' \<le> mint_ceiling H i l)) \<and>
     mint_ceiling H i l' = mint_ceiling H i l \<and> total_supply l' = total_supply l"

lemma lawful_refl [simp, intro]: "lawful H i l l"
  by (simp add: lawful_def)

lemma lawful_trans:
  assumes "lawful H i l l'" and "lawful H i l' l''"
  shows "lawful H i l l''"
proof -
  have held: "asset_held a l'' + unat (asset_supply a l) = asset_held a l + unat (asset_supply a l'')" for a
  proof -
    have "asset_held a l' + unat (asset_supply a l) = asset_held a l + unat (asset_supply a l')"
      "asset_held a l'' + unat (asset_supply a l') = asset_held a l' + unat (asset_supply a l'')"
      using assms by (simp_all add: lawful_def)
    then show ?thesis by linarith
  qed
  moreover have "asset_supply a l'' = asset_supply a l \<or> a = asset_id_of H i \<and>
      asset_supply a l < asset_supply a l'' \<and> (mint_ceiling H i l = 0 \<or> asset_supply a l'' \<le> mint_ceiling H i l)" for a
  proof -
    have "asset_supply a l' = asset_supply a l \<or> a = asset_id_of H i \<and>
        asset_supply a l < asset_supply a l' \<and> (mint_ceiling H i l = 0 \<or> asset_supply a l' \<le> mint_ceiling H i l)"
      "asset_supply a l'' = asset_supply a l' \<or> a = asset_id_of H i \<and>
        asset_supply a l' < asset_supply a l'' \<and> (mint_ceiling H i l = 0 \<or> asset_supply a l'' \<le> mint_ceiling H i l)"
      using assms by (simp_all add: lawful_def)
    then show ?thesis by (auto intro: order.strict_trans)
  qed
  ultimately show ?thesis
    using assms by (simp add: lawful_def)
qed

lemma lawful_write: "\<not> asset_leaf k \<Longrightarrow> lawful H i l (write_leaf k v l)" "\<not> asset_leaf k \<Longrightarrow> lawful H i l (snd (erase_leaf k l))"
  by (auto simp: lawful_def asset_held_other asset_supply_def mint_ceiling_def total_supply_def held_or_def held_def)

lemma lawful_account: "lawful H i l (set_account a x l)"
  by (simp add: set_account_def lawful_write state_leaf_def split: sum.split)

section \<open>Steps of a call\<close>

text \<open>
  \<open>orderly H i p l l'\<close>: a lawful change that conserves native value and leaves the bridge and
  governance leaves and the pot \<open>p\<close> alone.
\<close>

definition orderly :: "hash \<Rightarrow> bytes \<Rightarrow> bytes \<Rightarrow> ledger \<Rightarrow> ledger \<Rightarrow> bool" where
  "orderly H i p l l' \<longleftrightarrow> lawful H i l l' \<and> keeps p True True l l' \<and>
     (\<forall>k. sound l k 0 0 \<longrightarrow> sound l' k 0 0)"

lemma orderly_refl [simp, intro]: "orderly H i p l l"
  by (simp add: orderly_def)

lemma orderly_trans: "orderly H i p l l' \<Longrightarrow> orderly H i p l' l'' \<Longrightarrow> orderly H i p l l''"
  by (auto simp: orderly_def intro: lawful_trans keeps_trans)

lemma orderly_store:
  assumes "store l' = store l"
  shows "orderly H i p l l'"
proof -
  have "sound l k 0 0 \<Longrightarrow> sound l' k 0 0" for k
    using sound_store [OF assms [symmetric]] by simp
  then show ?thesis
    using assms by (simp add: orderly_def lawful_def keeps_def balance_def account_def asset_held_def
        asset_supply_def mint_ceiling_def total_supply_def held_or_def held_def)
qed

lemma contract_leaves [simp]:
  "neutral (AssetBalance a h)" "neutral (AssetSupply a)" "neutral (VmSlot i s)"
  "\<not> LedgerInvariant.watched b g (AssetBalance a h)" "\<not> LedgerInvariant.watched b g (AssetSupply a)" "\<not> LedgerInvariant.watched b g (VmSlot i s)"
  by (simp_all add: neutral_def LedgerInvariant.watched_def)

lemma orderly_slot: "orderly H i p l (set_contract_slot j s v l)"
  by (auto simp: orderly_def set_contract_slot_def intro!: lawful_write keeps_write keeps_erase)

lemma orderly_slots: "orderly H i p l (fold (\<lambda>(s, v). set_contract_slot j s v) xs l)"
  by (induction xs arbitrary: l) (auto intro: orderly_trans [OF orderly_slot])

lemma orderly_asset_transfer:
  assumes "debit_asset a h x l = (True, l1)" and "credit_asset a h' x l1 = (True, l2)"
  shows "orderly H i p l l2"
proof -
  obtain y where y: "checked_sub (asset_balance a h l) x = Some y" "l1 = set_asset_balance a h y l"
    using assms(1) by (auto simp: debit_asset_def split: option.splits)
  obtain z where z: "checked_add (asset_balance a h' l1) x = Some z" "l2 = set_asset_balance a h' z l1"
    using assms(2) by (auto simp: credit_asset_def split: option.splits)
  have "asset_held b l2 = asset_held b l" for b
    using asset_held_balance [of b a h y l] asset_held_balance [of b a h' z l1]
      y(1) [unfolded checked_sub_Some_iff] z(1) [unfolded checked_add_Some_iff]
    unfolding y(2) [symmetric] z(2) [symmetric] by (auto split: if_splits)
  then have "lawful H i l l2"
    by (simp add: lawful_def y(2) z(2))
  then show ?thesis
    by (auto simp: orderly_def y(2) z(2) set_asset_balance_def intro!: keeps_write)
qed

lemma orderly_mint:
  assumes "mint_within_ceiling H i h x l = (True, l')"
  shows "orderly H i p l l'"
proof -
  let ?a = "asset_id_of H i"
  obtain t y where t: "checked_add (asset_supply ?a l) x = Some t" "mint_ceiling H i l = 0 \<or> t \<le> mint_ceiling H i l" "x \<noteq> 0"
    and y: "checked_add (asset_balance ?a h l) x = Some y"
    and l': "l' = set_asset_supply ?a t (set_asset_balance ?a h y l)"
    using assms by (auto simp: mint_within_ceiling_def mint_asset_def credit_asset_def Let_def not_less
        split: option.splits if_splits)
  have n: "unat t = unat (asset_supply ?a l) + unat x" "unat y = unat (asset_balance ?a h l) + unat x" "0 < unat x"
    using t(1) [unfolded checked_add_Some_iff] y [unfolded checked_add_Some_iff] t(3) by (auto simp: unat_gt_0)
  then have "asset_supply ?a l < t"
    by (simp add: word_less_nat_alt)
  moreover have "asset_held b l' + unat (asset_supply b l) = asset_held b l + unat (asset_supply b l')" for b
    using asset_held_balance [of b ?a h y l] n by (auto simp: l' asset_held_supply split: if_splits)
  moreover have "asset_supply b l' = (if b = ?a then t else asset_supply b l)" "mint_ceiling H i l' = mint_ceiling H i l"
    "total_supply l' = total_supply l" for b
    by (simp_all add: l')
  ultimately have "lawful H i l l'"
    using t(2) by (simp add: lawful_def)
  then show ?thesis
    by (auto simp: orderly_def l' set_asset_balance_def set_asset_supply_def intro!: keeps_write)
qed

lemma orderly_delta_pair:
  assumes "apply_balance_delta a (- uint x) l = Some l1" and "apply_balance_delta a' (uint x) l1 = Some l2"
    and "state_leaf a \<noteq> state_leaf p"
  shows "orderly H i p l l2"
proof -
  have law: "apply_balance_delta c d m = Some m' \<Longrightarrow> lawful H i m m'" for c d m m'
    by (erule apply_balance_deltaE) (simp_all add: lawful_account)
  have "sound l k 0 0 \<Longrightarrow> sound l2 k 0 0" for k
    using delta_give [OF assms(2)] delta_take [OF assms(1)] by blast
  moreover have "keeps p True True l l2"
    using keeps_give [OF assms(2) keeps_take [OF assms(1,3)]] by simp
  ultimately show ?thesis
    using lawful_trans [OF law law] assms by (auto simp: orderly_def)
qed

lemma pay_native_orderly:
  assumes "pay_native contract cs l = (Goes_on, l')" and "state_leaf contract \<noteq> state_leaf p"
  shows "orderly H i p l l'"
  using assms(1)
proof (induction cs arbitrary: l)
  case (Cons c cs)
  then obtain l1 l2 where 1: "apply_balance_delta contract (- uint (snd c)) l = Some l1"
    and 2: "apply_balance_delta (fst c) (uint (snd c)) l1 = Some l2"
    and 3: "pay_native contract cs (record_side_event (ContractTransfer contract (fst c) (snd c)) l2) = (Goes_on, l')"
    by (auto split: option.splits)
  show ?case
    by (rule orderly_trans [OF orderly_delta_pair [OF 1 2 assms(2)] orderly_trans [OF orderly_store Cons.IH [OF 3]]])
      (simp add: record_side_event_def)
qed simp

lemma pay_assets_orderly: "pay_assets j cs l = (Goes_on, l') \<Longrightarrow> orderly H i p l l'"
proof (induction cs arbitrary: l)
  case (Cons c cs)
  then show ?case
    by (auto simp: Let_def split: if_splits prod.splits bool.splits
        intro: orderly_trans [OF orderly_asset_transfer Cons.IH])
qed simp

lemma emit_events_orderly: "emit_events H contract i es l = (Goes_on, l') \<Longrightarrow> orderly H i p l l'"
proof (induction es arbitrary: l)
  case (Cons e es)
  have push: "emit_events H contract i es (push_event ev l) = (Goes_on, l') \<Longrightarrow> orderly H i p l l'" for ev
    by (rule orderly_trans [OF orderly_store Cons.IH]) (simp_all add: push_event_def)
  show ?case
    using Cons.prems push
    by (auto split: vm_effect.splits if_splits prod.splits bool.splits
        intro: Cons.IH orderly_trans [OF orderly_mint Cons.IH])
qed simp

lemma take_value_orderly:
  assumes "take_value caller j contract i v asset l = (Goes_on, l')" and "state_leaf caller \<noteq> state_leaf p"
  shows "orderly H i p l l'"
  using assms
  by (auto simp: take_value_def split: if_splits option.splits prod.splits bool.splits
      intro: orderly_asset_transfer orderly_delta_pair)

lemma settle_runD:
  assumes "settle_run H caller j contract i v asset out l = (Goes_on, l')"
  shows "\<exists>(t :: tally_state) l1 l2 l3 l4. take_value caller j contract i v asset l = (Goes_on, l1) \<and>
    pay_native contract (native_credits t) l1 = (Goes_on, l2) \<and>
    pay_assets i (asset_credits t) l2 = (Goes_on, l3) \<and>
    emit_events H contract i (out_effects out) l3 = (Goes_on, l4) \<and>
    l' = fold (\<lambda>(s, x). set_contract_slot i s x) (out_storage out) l4"
  using assms unfolding settle_run_def
  by (simp split: option.splits if_split_asm run_end.splits prod.splits) ((rule exI conjI | assumption)+, erule sym)+

lemma settle_run_orderly:
  assumes "settle_run H caller j contract i v asset out l = (Goes_on, l')"
    and "state_leaf caller \<noteq> state_leaf p" and "state_leaf contract \<noteq> state_leaf p"
  shows "orderly H i p l l'"
proof -
  obtain l1 l2 l3 l4 and t :: tally_state where
    1: "take_value caller j contract i v asset l = (Goes_on, l1)"
      "pay_native contract (native_credits t) l1 = (Goes_on, l2)"
      "pay_assets i (asset_credits t) l2 = (Goes_on, l3)"
      "emit_events H contract i (out_effects out) l3 = (Goes_on, l4)"
      "l' = fold (\<lambda>(s, x). set_contract_slot i s x) (out_storage out) l4"
    using settle_runD [OF assms(1)] by (elim exE conjE)
  note steps = take_value_orderly [OF 1(1) assms(2)] pay_native_orderly [OF 1(2) assms(3)]
    pay_assets_orderly [OF 1(3)] emit_events_orderly [OF 1(4)]
  show ?thesis
    unfolding 1(5)
    by (rule orderly_trans [OF orderly_trans [OF orderly_trans [OF orderly_trans [OF steps(1,2)] steps(3)] steps(4)]
      orderly_slots])
qed

section \<open>A call only edits\<close>

text \<open>Also a call that fails or panics changes the ledger only by journaled writes and events.\<close>

lemma edits_balance: "edits l l' \<Longrightarrow> edits l (set_asset_balance a h x l')" "edits l l' \<Longrightarrow> edits l (set_asset_supply a x l')"
  by (simp_all add: set_asset_balance_def set_asset_supply_def edits_write)

lemma edits_asset:
  "debit_asset a h x l' = (r, l'') \<Longrightarrow> edits l l' \<Longrightarrow> edits l l''"
  "credit_asset a h x l' = (r, l'') \<Longrightarrow> edits l l' \<Longrightarrow> edits l l''"
  "mint_within_ceiling H i h x l' = (r, l'') \<Longrightarrow> edits l l' \<Longrightarrow> edits l l''"
  by (auto simp: debit_asset_def credit_asset_def mint_within_ceiling_def mint_asset_def Let_def intro!: edits_balance
      split: option.splits if_splits prod.splits bool.splits)

lemma take_value_edits: "take_value caller j contract i v asset l' = (e, l'') \<Longrightarrow> edits l l' \<Longrightarrow> edits l l''"
  by (auto simp: take_value_def split: if_splits option.splits prod.splits bool.splits elim!: edits_delta edits_asset)

lemma pay_native_edits: "pay_native contract cs l' = (e, l'') \<Longrightarrow> edits l l' \<Longrightarrow> edits l l''"
proof (induction cs arbitrary: l')
  case (Cons c cs)
  show ?case
    using Cons.prems by (auto split: option.splits elim!: Cons.IH edits_delta intro!: edits_side)
qed simp

lemma pay_assets_edits: "pay_assets i cs l' = (e, l'') \<Longrightarrow> edits l l' \<Longrightarrow> edits l l''"
proof (induction cs arbitrary: l')
  case (Cons c cs)
  show ?case
    using Cons.prems by (auto simp: Let_def split: if_splits prod.splits bool.splits elim!: Cons.IH edits_asset)
qed simp

lemma emit_events_edits: "emit_events H contract i es l' = (e, l'') \<Longrightarrow> edits l l' \<Longrightarrow> edits l l''"
proof (induction es arbitrary: l')
  case (Cons f es)
  show ?case
    using Cons.prems
    by (auto split: vm_effect.splits if_splits prod.splits bool.splits elim!: Cons.IH edits_asset intro!: edits_event)
qed simp

lemma slot_edits: "edits l l' \<Longrightarrow> edits l (set_contract_slot i s x l')"
  by (simp add: set_contract_slot_def edits_write edits_erase)

lemma slots_edits: "edits l l' \<Longrightarrow> edits l (fold (\<lambda>(s, x). set_contract_slot i s x) xs l')"
proof (induction xs arbitrary: l')
  case (Cons y xs)
  then show ?case by (cases y) (simp add: slot_edits)
qed simp

lemma settle_run_edits:
  assumes "settle_run H caller j contract i v asset out l = (e, l')"
  shows "edits l l'"
proof (cases "tally_effects H (out_effects out) \<lparr>native_sent = 0, native_credits = [], asset_sent = [], asset_credits = []\<rparr>")
  case (Some t)
  obtain e1 l1 where 1: "take_value caller j contract i v asset l = (e1, l1)" by fastforce
  obtain e2 l2 where 2: "pay_native contract (native_credits t) l1 = (e2, l2)" by fastforce
  obtain e3 l3 where 3: "pay_assets i (asset_credits t) l2 = (e3, l3)" by fastforce
  obtain e4 l4 where 4: "emit_events H contract i (out_effects out) l3 = (e4, l4)" by fastforce
  have l1: "edits l l1" by (rule take_value_edits [OF 1 edits_refl])
  have l2: "edits l l2" by (rule pay_native_edits [OF 2 l1])
  have l3: "edits l l3" by (rule pay_assets_edits [OF 3 l2])
  have l4: "edits l l4" by (rule emit_events_edits [OF 4 l3])
  have "l' \<in> {l, l1, l2, l3, l4, fold (\<lambda>(s, x). set_contract_slot i s x) (out_storage out) l4}"
    using assms unfolding settle_run_def Some option.case 1
    by (cases e1; cases e2; cases e3; cases e4) (simp_all add: 2 3 4 split: option.splits if_split_asm run_end.splits)
  with l1 l2 l3 l4 slots_edits [OF l4] show ?thesis
    by auto
qed (use assms in \<open>simp add: settle_run_def\<close>)

lemma run_contract_edits:
  assumes "run_contract H V caller contract sel user now meter v in_asset chain_id r l = (b, r', l')"
  shows "edits l l'"
proof -
  have "l' = l \<or> (\<exists>j i out. l' = snd (settle_run H caller j contract i v (map_option (asset_id_of H) in_asset) out l))"
    using assms unfolding run_contract_def Let_def
    by (simp split: option.splits if_split_asm sum.splits prod.splits run_end.splits) (metis snd_conv)+
  then show ?thesis
    using settle_run_edits surjective_pairing by blast
qed

lemma call_contract_edits:
  "call_contract H V caller contract sel user now meter v in_asset chain_id r l = (b, r', l') \<Longrightarrow> edits l l'"
  by (auto simp: call_contract_def split: if_splits intro: run_contract_edits)

lemma run_contract_orderly:
  assumes "run_contract H V caller contract sel user now meter v in_asset chain_id r l = (Some True, r', l')"
    and "state_leaf caller \<noteq> state_leaf p" and "state_leaf contract \<noteq> state_leaf p"
  shows "\<exists>i. address_id contract = Some i \<and> orderly H i p l l'"
proof -
  obtain i j out where "address_id contract = Some i"
    "settle_run H caller j contract i v (map_option (asset_id_of H) in_asset) out l = (Goes_on, l')"
    using assms(1) unfolding run_contract_def Let_def
    by (auto split: option.splits if_split_asm sum.splits prod.splits run_end.splits)
  then show ?thesis
    using settle_run_orderly [OF _ assms(2,3)] by blast
qed

section \<open>Claims\<close>

text \<open>
  Atomic application as a specification: the whole effect when the closure succeeds within the limits
  of the block, the untouched ledger otherwise.  The registers keep what the closure wrote.
\<close>

definition all_or_nothing :: "(vm_regs \<Rightarrow> ledger \<Rightarrow> bool option \<times> vm_regs \<times> ledger) \<Rightarrow> vm_regs \<Rightarrow> ledger \<Rightarrow>
    bool \<times> vm_regs \<times> ledger" where
  "all_or_nothing f r l =
     (let (outcome, r', l') = f r (l\<lparr>journal := Some []\<rparr>) in
      if outcome = Some True \<and> \<not> (journal l = None \<and> over_ceiling l')
      then (True, r', l'\<lparr>journal := map_option (\<lambda>outer. outer @ the (journal l')) (journal l)\<rparr>)
      else (False, r', l))"

lemma atomic_regs_all_or_nothing:
  assumes "\<And>m b r' m'. f r m = (b, r', m') \<Longrightarrow> edits m m'"
  shows "atomic_regs f r l = all_or_nothing f r l"
proof -
  have "edits m (snd (snd (f r m)))" for m
    using assms [of m "fst (f r m)" "fst (snd (f r m))" "snd (snd (f r m))"] by simp
  then have "apply_atomic (\<lambda>l. (fst (f r l), snd (snd (f r l)))) l = snapshot_atomic (\<lambda>l. (fst (f r l), snd (snd (f r l)))) l"
    by (intro atomic_is_snapshot) simp
  then show ?thesis
    by (simp add: atomic_regs_def all_or_nothing_def snapshot_atomic_def split_beta)
qed

text \<open>
  C38: the journal of the ledger implements transactions.  Applying a contract call atomically, with
  the undo log the source keeps and whatever the machine, a failing check or a panic halfway through
  leave behind, gives exactly what the specification gives: every effect of the call, or the ledger as
  it was.
\<close>

theorem atomic_call_refines:
  "atomic_regs (call_contract H V caller contract sel user now meter v in_asset chain_id) r l =
   all_or_nothing (call_contract H V caller contract sel user now meter v in_asset chain_id) r l"
  by (rule atomic_regs_all_or_nothing) (rule call_contract_edits)

lemma atomic_call_orderly:
  assumes "atomic_regs (call_contract H V caller contract sel user now meter v in_asset chain_id) r l = (True, r', l')"
    and "state_leaf caller \<noteq> state_leaf p" and "state_leaf contract \<noteq> state_leaf p"
  shows "\<exists>i. address_id contract = Some i \<and> orderly H i p l l'"
proof -
  obtain m' where run: "call_contract H V caller contract sel user now meter v in_asset chain_id r (l\<lparr>journal := Some []\<rparr>) =
      (Some True, r', m')" and l': "store l' = store m'"
    using assms(1)
    by (auto simp: atomic_regs_all_or_nothing [OF call_contract_edits] all_or_nothing_def split: prod.splits if_splits)
  then have "\<exists>i. address_id contract = Some i \<and> orderly H i p (l\<lparr>journal := Some []\<rparr>) m'"
    using run_contract_orderly [OF _ assms(2,3)] by (auto simp: call_contract_def split: if_splits)
  moreover have "orderly H i p l (l\<lparr>journal := Some []\<rparr>)" "orderly H i p m' l'" for i
    using l' by (auto intro: orderly_store)
  ultimately show ?thesis
    by (blast intro: orderly_trans)
qed

text \<open>
  C37: a contract cannot break the ledger.  Whatever the machine returns, a call applied atomically
  keeps the ledger well-formed: native value is conserved and the native supply stands, the bridge is
  backed and the governance books agree.  The balances of every issued asset change by exactly what its
  supply changes; only the asset of the called contract can be issued, and only up to its ceiling.  A
  call that is refused changes nothing at all.
\<close>

theorem contract_call_safe:
  assumes "ledger_wf H l" and "signer H caller" and "signer H contract"
    and "atomic_regs (call_contract H V caller contract sel user now meter v in_asset chain_id) r l = (ok, r', l')"
  shows "ledger_wf H l' \<and> total_supply l' = total_supply l \<and>
    (\<forall>a. asset_held a l' + unat (asset_supply a l) = asset_held a l + unat (asset_supply a l')) \<and>
    (\<forall>a. asset_supply a l' \<noteq> asset_supply a l \<longrightarrow> (\<exists>i. address_id contract = Some i \<and> a = asset_id_of H i \<and>
       asset_supply a l < asset_supply a l' \<and> (mint_ceiling H i l = 0 \<or> asset_supply a l' \<le> mint_ceiling H i l))) \<and>
    (\<not> ok \<longrightarrow> l' = l)"
proof (cases ok)
  case True
  with assms(4) have "atomic_regs (call_contract H V caller contract sel user now meter v in_asset chain_id) r l = (True, r', l')"
    by simp
  then obtain i where i: "address_id contract = Some i" and o: "orderly H i (bridge_bond_address H) l l'"
    using atomic_call_orderly assms(2,3) unfolding signer_def by meson
  have "ledger_wf H l'"
    by (rule ledger_wf_keeps [OF _ _ assms(1)])
      (use o assms(1) in \<open>simp_all add: orderly_def ledger_wf_def\<close>)
  moreover have "lawful H i l l'"
    using o by (simp add: orderly_def)
  ultimately show ?thesis
    using i True unfolding lawful_def by blast
next
  case False
  with assms(4) have "l' = l"
    by (auto simp: atomic_regs_all_or_nothing [OF call_contract_edits] all_or_nothing_def split: prod.splits if_splits)
  with assms(1) False show ?thesis by simp
qed

text \<open>A machine that mints five units of the called contract's asset and writes one slot.\<close>

definition demo_vm :: vm_crate where
  "demo_vm = \<lparr>GENESIS_SELECTOR = [0, 0, 0, 0], SELECTOR_BYTES = 4, MAX_CONSTS = 8, MAX_ENTRIES = 8, MEM_BYTES = 64,
     vm_verify = (\<lambda>_. True), canonical_bytes = (\<lambda>_. []), container_id = (\<lambda>_. []), vm_open = (\<lambda>_ _ _. None),
     vm_run = (\<lambda>_ _ _ _ _ _. (False, Inr \<lparr>res_storage = [([1], 7)], res_dirty = [[1]], res_fetched = 0,
       res_effects = [Effect_Event (ascii ''MINT'') (replicate 32 3 @ [0, 0, 0, 0, 0, 0, 0, 5])], res_meter = 3, res_regs = []\<rparr>)),
     halting_stubs = (\<lambda>_. None), reason_in = (\<lambda>_. None), rule_of_fault = (\<lambda>_. Rule_Unknown), rule_code = (\<lambda>_. 0)\<rparr>"

definition demo_code :: bytes where
  "demo_code = ascii ''QVM1'' @ [0, 0, 0, 0] @ [0, 0, 0, 0] @ [0, 0, 0, 1] @ [1, 2, 3, 4] @
     [0, 0, 0, 0, 0, 0, 0, 0, 0, 0, 0, 0, 0, 0, 0, 0, 0, 0, 0, 0]"

definition demo_contract :: ledger where
  "demo_contract = set_contract_code demo_id demo_code ledger_new"

definition demo_regs :: vm_regs where
  "demo_regs = \<lparr>last_vm_meter_used = 0, last_vm_call_cost = None, vm_deploy_armed = False, call_failure = None\<rparr>"

lemma demo_decodes: "decode_container demo_vm demo_code = Some \<lparr>con_code = [], con_consts = [], con_entries =
    [\<lparr>entry_selector = [1, 2, 3, 4], entry_offset = 0, entry_reads = [], entry_writes = [], entry_keyed_reads = [], entry_keyed_writes = []\<rparr>]\<rparr>"
  by (simp add: decode_container_def demo_code_def demo_vm_def read_be_u32_def read_slots_def read_entry_def be_nat_def ascii_def)

lemma demo_executes: "execute_contract_call_lazy demo_vm demo_code [1, 2, 3, 4] f mem 1000 = Inr \<lparr>out_storage = [([1], 7)],
    out_effects = [Effect_Event (ascii ''MINT'') (replicate 32 3 @ [0, 0, 0, 0, 0, 0, 0, 5])], out_meter_used = 243\<rparr>"
  unfolding execute_contract_call_lazy_def demo_decodes
  by (simp add: demo_vm_def demo_code_def CODE_ACCESS_BYTE_METER_def SLOT_ACCESS_METER_def checked_sub_def
      saturating_mul_def checked_mul_def saturating_add_def checked_add_def List.map_filter_def Let_def)

lemma demo_emit:
  "emit_events H c i [Effect_Event (ascii ''MINT'') (replicate 32 3 @ [0, 0, 0, 0, 0, 0, 0, 5])] l =
   (case mint_within_ceiling H i (replicate 32 3) 5 l of (False, l') \<Rightarrow> (Fails Rule_MintCeiling, l') | (True, l') \<Rightarrow> (Goes_on, l'))"
  by (simp add: ASSET_MINT_SELECTOR_def be_nat_def split: prod.split bool.split)

lemma demo_mint:
  assumes "asset_supply (asset_id_of H i) l = 0" and "asset_balance (asset_id_of H i) h l = 0" and "mint_ceiling H i l = 0"
  shows "mint_within_ceiling H i h 5 l = (True, set_asset_supply (asset_id_of H i) 5 (set_asset_balance (asset_id_of H i) h 5 l))"
  using assms by (simp add: mint_within_ceiling_def mint_asset_def credit_asset_def checked_add_def Let_def)

lemma demo_signer: "signer pad32 demo_address"
proof -
  have "address_id (bridge_bond_address pad32) = Some (pad32 (ascii ''qtv/bridge/bond''))"
    by (simp add: bridge_bond_address_def address_id_cached)
  moreover have "pad32 (ascii ''qtv/bridge/bond'') \<noteq> demo_id"
    by code_simp
  ultimately show ?thesis
    using demo_address_id by (auto simp: signer_def state_leaf_def address_id_def split: sum.splits if_splits)
qed

lemma demo_contract_wf: "ledger_wf pad32 demo_contract"
  unfolding demo_contract_def set_contract_code_def
  by (intro neutral_wf ledger_new_wf) (simp_all add: neutral_def LedgerInvariant.watched_def)

lemma demo_call_settles:
  assumes "store l = store demo_contract"
  shows "settle_run pad32 demo_address demo_id demo_address demo_id 0 None \<lparr>out_storage = [([1], 7)],
     out_effects = [Effect_Event (ascii ''MINT'') (replicate 32 3 @ [0, 0, 0, 0, 0, 0, 0, 5])], out_meter_used = 243\<rparr> l =
     (Goes_on, set_contract_slot demo_id [1] 7 (set_asset_supply (asset_id_of pad32 demo_id) 5
        (set_asset_balance (asset_id_of pad32 demo_id) (replicate 32 3) 5 l)))"
proof -
  have reads: "asset_supply (asset_id_of pad32 demo_id) l = 0" "asset_balance (asset_id_of pad32 demo_id) (replicate 32 3) l = 0"
    "mint_ceiling pad32 demo_id l = 0"
    using assms by (simp_all add: asset_supply_def asset_balance_def mint_ceiling_def held_or_def held_def demo_contract_def
        set_contract_code_def ledger_new_def)
  show ?thesis
    using u64_bound [of "balance demo_address l"]
    by (simp add: settle_run_def demo_emit demo_mint [OF reads] tally_one_def take_value_def checked_add_def
        del: emit_events.simps split: option.split)
qed

theorem contract_call_safe_witness:
  "\<exists>r' l'. atomic_regs (call_contract pad32 demo_vm demo_address demo_address [1, 2, 3, 4] [] 0 1000 0 None 1)
     demo_regs demo_contract = (True, r', l') \<and>
   asset_supply (asset_id_of pad32 demo_id) l' = 5 \<and> ledger_wf pad32 l' \<and> total_supply l' = total_supply demo_contract"
proof -
  let ?f = "call_contract pad32 demo_vm demo_address demo_address [1, 2, 3, 4] [] 0 1000 0 None 1"
  let ?m = "set_contract_slot demo_id [1] 7 (set_asset_supply (asset_id_of pad32 demo_id) 5
    (set_asset_balance (asset_id_of pad32 demo_id) (replicate 32 3) 5 (demo_contract\<lparr>journal := Some []\<rparr>)))"
  have "contract_code demo_id (demo_contract\<lparr>journal := Some []\<rparr>) = Some demo_code"
    by (simp add: contract_code_def held_def demo_contract_def set_contract_code_def demo_code_def ascii_def)
  moreover have "GENESIS_SELECTOR demo_vm \<noteq> [1, 2, 3, 4]"
    by (simp add: demo_vm_def)
  ultimately obtain r' where run: "?f demo_regs (demo_contract\<lparr>journal := Some []\<rparr>) = (Some True, r', ?m)"
    by (simp add: call_contract_def run_contract_def Let_def demo_address_id demo_executes demo_call_settles)
  have "fresh_leaf_ceiling ?m = None"
    by (simp add: demo_contract_def set_contract_code_def ledger_new_def set_contract_slot_def set_asset_supply_def
        set_asset_balance_def write_leaf_def)
  then obtain l' where at: "atomic_regs ?f demo_regs demo_contract = (True, r', l')" and st: "store l' = store ?m"
    by (simp add: atomic_regs_all_or_nothing [OF call_contract_edits] all_or_nothing_def run over_ceiling_def)
  have "asset_supply (asset_id_of pad32 demo_id) l' = 5"
    unfolding asset_supply_def held_or_def held_def st
    by (simp add: set_contract_slot_def set_asset_supply_def)
  with at contract_call_safe [OF demo_contract_wf demo_signer demo_signer at] show ?thesis
    by blast
qed

end
