(* ===== verification/Lanes.thy ===== *)
theory Lanes
  imports ContractSafety
begin

text \<open>
  The lanes of a block, \<^verbatim>\<open>src/crates/qtv-node/src/node.rs\<close>: for every kind of transaction the check that
  admits it and the dispatcher that applies it to the ledger.  A dispatcher is a function of the ledger
  that returns whether the transaction was applied; None is a panic.  \<open>externals\<close> holds what the node
  takes from other crates: hash, signature schemes, the consensus rendering of blocks, the machine, the
  compiled-in keys of the verifier, the genesis the process is bound to, and the run of the transfer
  program on the machine (constants, meter, storage and memory; a fault or the storage and the meter).
\<close>

record externals =
  ext_hash :: hash
  ext_tx :: tx_schemes
  ext_dsa :: ml_dsa
  ext_bft :: bft
  ext_vm :: vm_crate
  ext_keys :: provenance_keys
  ext_genesis :: "bytes option"
  ext_scalar_key :: "u64 \<Rightarrow> bytes"
  ext_system_run :: "u64 list \<Rightarrow> u64 \<Rightarrow> (bytes \<times> u64) list \<Rightarrow> bytes \<Rightarrow> vm_fault + ((bytes \<times> u64) list \<times> u64)"

text \<open>\<^verbatim>\<open>sigcache::verify\<close>, up to the cache of earlier verdicts.\<close>

definition sig_verify :: "externals \<Rightarrow> wrapper \<Rightarrow> bytes \<Rightarrow> bool" where
  "sig_verify E w pk \<longleftrightarrow>
     (case ext_genesis E of None \<Rightarrow> False | Some g \<Rightarrow> tx_verify (ext_hash E) (ext_tx E) w pk g)"

definition wrapper_id :: "externals \<Rightarrow> wrapper \<Rightarrow> bytes" where
  "wrapper_id E w = (case tx_id (ext_hash E) w of Some t \<Rightarrow> t | None \<Rightarrow> [])"

section \<open>What every signed lane checks\<close>

text \<open>
  The checks the signed lanes share word for word: a known key, a supported scheme, a valid signature,
  the next nonce, enough meter, a fee above the floor, and a balance for the fee charged.
\<close>

definition fee_lane_ok :: "fee_params \<Rightarrow> wrapper \<Rightarrow> account \<Rightarrow> bool \<Rightarrow> bool" where
  "fee_lane_ok p w a signature_ok \<longleftrightarrow>
     (let b = tx_body_of w in
      has_key a \<and> scheme_supported (tx_scheme w) \<and> signature_ok \<and>
      tx_nonce b = account_nonce a \<and> TRANSFER_METER \<le> tx_meter_limit b \<and>
      ucast (transfer_fee p) \<le> tx_fee b \<and> charged_fee p b \<le> account_balance a)"

section \<open>Governance\<close>

datatype gov_op =
    Propose action
  | Vote u64 bool conviction u64
  | Enact u64
  | Conclude u64
  | Release

definition get_gov_op :: "u8 \<Rightarrow> gov_op decode" where
  "get_gov_op op =
     (if op = 1 then dbind decode_action (\<lambda>a. dret (Propose a))
      else if op = 2 then dbind get_u64 (\<lambda>referendum. dbind get_bool (\<lambda>aye. dbind decode_conviction (\<lambda>c.
        dbind get_u64 (\<lambda>stake. dret (Vote referendum aye c stake)))))
      else if op = 3 then dbind get_u64 (\<lambda>i. dret (Enact i))
      else if op = 4 then dbind get_u64 (\<lambda>i. dret (Conclude i))
      else if op = 5 then dret Release
      else dfail dropped)"

definition decode_gov_op :: "u8 \<Rightarrow> bytes \<Rightarrow> gov_op option" where
  "decode_gov_op op = opened (get_gov_op op)"

definition governance_admissible :: "externals \<Rightarrow> fee_params \<Rightarrow> wrapper \<Rightarrow> account \<Rightarrow> bool \<Rightarrow> gov_op option" where
  "governance_admissible E p w a signature_ok =
     (if tx_target w \<noteq> gov_system_address (ext_hash E) then None
      else if native_asset p \<noteq> QTOV_ASSET_TAG then None
      else if \<not> fee_lane_ok p w a signature_ok then None
      else case tx_args w of [] \<Rightarrow> None | op # payload \<Rightarrow> decode_gov_op op payload)"

definition dispatch_governance :: "externals \<Rightarrow> fee_params \<Rightarrow> wrapper \<Rightarrow> bool \<Rightarrow> u64 \<Rightarrow> ledger \<Rightarrow> (bool \<times> ledger) option" where
  "dispatch_governance E p w signature_ok now l =
     (let sender = tx_sender (tx_body_of w) in
      if native_asset p \<noteq> QTOV_ASSET_TAG then Some (False, l)
      else if is_blacklisted sender l then Some (False, l)
      else case governance_admissible E p w (account sender l) signature_ok of
        None \<Rightarrow> Some (False, l)
      | Some operation \<Rightarrow>
          let charged = charged_fee p (tx_body_of w) in do {
          l \<leftarrow> pay (ext_hash E) sender charged charged l;
          case operation of
            Propose a \<Rightarrow> do { (_, l) \<leftarrow> gov_propose sender (action_track a) a now l; Some (True, l) }
          | Vote referendum aye c stake \<Rightarrow>
              do { (_, l) \<leftarrow> gov_vote sender referendum aye c stake now l; Some (True, l) }
          | Enact referendum \<Rightarrow>
              do { (_, l) \<leftarrow> gov_enact (ext_hash E) (ext_dsa E) referendum now (fee_chain_id p) l; Some (True, l) }
          | Conclude referendum \<Rightarrow> Some (True, snd (gov_conclude referendum now l))
          | Release \<Rightarrow> Some (True, snd (gov_release sender now l)) })"

section \<open>Reward addresses and keys\<close>

definition is_stake_payee :: "externals \<Rightarrow> wrapper \<Rightarrow> bool" where
  "is_stake_payee E w \<longleftrightarrow> tx_target w = stake_payee_address (ext_hash E)"

definition stake_payee_admissible :: "externals \<Rightarrow> fee_params \<Rightarrow> wrapper \<Rightarrow> account \<Rightarrow> bool \<Rightarrow> ledger \<Rightarrow> bytes option" where
  "stake_payee_admissible E p w a signature_ok l =
     (if \<not> is_stake_payee E w then None
      else if \<not> fee_lane_ok p w a signature_ok then None
      else let payee = tx_args w in
        if length payee \<noteq> 32 then None
        else case address_id (tx_sender (tx_body_of w)) of
          None \<Rightarrow> None
        | Some i \<Rightarrow> if payee = replicate 32 0 \<or> stake_payee i l \<noteq> None then None else Some payee)"

definition dispatch_stake_payee :: "externals \<Rightarrow> fee_params \<Rightarrow> wrapper \<Rightarrow> bool \<Rightarrow> ledger \<Rightarrow> (bool \<times> ledger) option" where
  "dispatch_stake_payee E p w signature_ok l =
     (let sender = tx_sender (tx_body_of w) in
      if is_blacklisted sender l then Some (False, l)
      else case stake_payee_admissible E p w (account sender l) signature_ok l of
        None \<Rightarrow> Some (False, l)
      | Some payee \<Rightarrow>
          designate_stake_payee_with_fee (ext_hash E) sender payee (charged_fee p (tx_body_of w)) l)"

definition is_key_register :: "externals \<Rightarrow> wrapper \<Rightarrow> bool" where
  "is_key_register E w \<longleftrightarrow> tx_target w = key_register_address (ext_hash E)"

definition key_register_admissible ::
    "externals \<Rightarrow> fee_params \<Rightarrow> wrapper \<Rightarrow> account \<Rightarrow> bool option \<Rightarrow> bytes option" where
  "key_register_admissible E p w a signature_ok =
     (let b = tx_body_of w; pk = tx_args w; T = ext_tx E in
      if tx_target w \<noteq> key_register_address (ext_hash E) then None
      else if \<not> scheme_supported (tx_scheme w) then None
      else if address_for_key (ext_hash E) (tx_scheme w) pk \<noteq> Some (tx_sender b) then None
      else if tx_scheme w = SCHEME_LATTICE \<and> length pk = PUBLIC_KEY_BYTES (lattice T) \<and> degenerate T pk then None
      else if tx_nonce b \<noteq> account_nonce a \<or> tx_meter_limit b < TRANSFER_METER then None
      else if tx_fee b < ucast (transfer_fee p) then None
      else if account_balance a < charged_fee p b then None
      else if \<not> (case signature_ok of Some ok \<Rightarrow> ok | None \<Rightarrow> sig_verify E w pk) then None
      else Some pk)"

definition key_register_signature :: "externals \<Rightarrow> wrapper \<Rightarrow> bool" where
  "key_register_signature E w \<longleftrightarrow>
     (let b = tx_body_of w; pk = tx_args w in
      if address_for_key (ext_hash E) (tx_scheme w) pk \<noteq> Some (tx_sender b) then False else sig_verify E w pk)"

definition dispatch_key_register :: "externals \<Rightarrow> fee_params \<Rightarrow> wrapper \<Rightarrow> ledger \<Rightarrow> (bool \<times> ledger) option" where
  "dispatch_key_register E p w l =
     (let sender = tx_sender (tx_body_of w); a = account sender l; charged = charged_fee p (tx_body_of w) in
      if is_blacklisted sender l then Some (False, l)
      else case key_register_admissible E p w a None of
        None \<Rightarrow> Some (False, l)
      | Some pk \<Rightarrow> do {
          n \<leftarrow> checked_add (account_nonce a) 1;
          l \<leftarrow> collect_fee (ext_hash E) charged
            (set_account sender (a\<lparr>account_balance := account_balance a - charged, account_nonce := n,
               account_scheme := tx_scheme w, account_public_key := pk\<rparr>) l);
          Some (True, l) })"

section \<open>Evidence\<close>

definition is_evidence :: "externals \<Rightarrow> wrapper \<Rightarrow> bool" where
  "is_evidence E w \<longleftrightarrow> tx_target w = evidence_address (ext_hash E)"

definition is_registration :: "externals \<Rightarrow> wrapper \<Rightarrow> bool" where
  "is_registration E w \<longleftrightarrow> tx_target w = registration_address (ext_hash E)"

definition validator_attest_key :: "bytes \<Rightarrow> ledger \<Rightarrow> bytes option" where
  "validator_attest_key address l =
     (case address_id address of
        None \<Rightarrow> None
      | Some i \<Rightarrow> (case held l (StakeAttest i) as_bytes of Some k \<Rightarrow> if k = [] then None else Some k | None \<Rightarrow> None))"

definition binding_of :: "u64 \<Rightarrow> ledger \<Rightarrow> chain_binding" where
  "binding_of chain_id l = \<lparr>binding_chain = chain_id, binding_genesis = chain_genesis_hash l\<rparr>"

definition not_ahead :: "u64 \<Rightarrow> ledger \<Rightarrow> bool" where
  "not_ahead height l \<longleftrightarrow> height \<le> saturating_add (execution_height l) 1"

definition double_finality_live :: "u64 \<Rightarrow> ledger \<Rightarrow> bool" where
  "double_finality_live chain_id l \<longleftrightarrow> hardened (for_chain chain_id) (execution_height l)"

definition double_finality_offenders :: "externals \<Rightarrow> u64 \<Rightarrow> double_finality \<Rightarrow> ledger \<Rightarrow> bytes list option" where
  "double_finality_offenders E chain_id e l =
     offenders (ext_dsa E) (ext_bft E) (binding_of chain_id l) (\<lambda>a. validator_attest_key a l) e"

definition prevote_equivocation_proven :: "externals \<Rightarrow> u64 \<Rightarrow> prevote_equivocation \<Rightarrow> ledger \<Rightarrow> bool" where
  "prevote_equivocation_proven E chain_id e l \<longleftrightarrow>
     not_ahead (pe_height e) l \<and>
     (case validator_attest_key (pe_offender e) l of
        Some pk \<Rightarrow> prevote_equivocation_attributes (ext_dsa E) (ext_bft E) (binding_of chain_id l) pk e
      | None \<Rightarrow> False)"

definition proposal_equivocation_proven :: "externals \<Rightarrow> u64 \<Rightarrow> proposal_equivocation \<Rightarrow> ledger \<Rightarrow> bool" where
  "proposal_equivocation_proven E chain_id e l \<longleftrightarrow>
     not_ahead (qe_height e) l \<and>
     (case validator_attest_key (qe_offender e) l of
        Some pk \<Rightarrow> proposal_equivocation_attributes (ext_dsa E) (ext_bft E) (binding_of chain_id l) pk e
      | None \<Rightarrow> False)"

definition lock_violation_proven :: "externals \<Rightarrow> u64 \<Rightarrow> lock_violation \<Rightarrow> ledger \<Rightarrow> bool" where
  "lock_violation_proven E chain_id e l \<longleftrightarrow>
     not_ahead (lv_height e) l \<and>
     (case validator_attest_key (lv_offender e) l of
        Some pk \<Rightarrow> lock_violation_attributes (ext_dsa E) (ext_bft E) (binding_of chain_id l) pk e
      | None \<Rightarrow> False)"

definition equivocation_proven :: "externals \<Rightarrow> u64 \<Rightarrow> equivocation \<Rightarrow> ledger \<Rightarrow> bool" where
  "equivocation_proven E chain_id e l \<longleftrightarrow>
     not_ahead (eq_height e) l \<and>
     (case validator_attest_key (eq_offender e) l of
        Some pk \<Rightarrow> equivocation_attributes (ext_dsa E) (ext_bft E) (binding_of chain_id l) pk e
      | None \<Rightarrow> False)"

definition evidence_admissible :: "externals \<Rightarrow> u64 \<Rightarrow> wrapper \<Rightarrow> ledger \<Rightarrow> bool" where
  "evidence_admissible E chain_id w l \<longleftrightarrow>
     (case decode_prevote_equivocation (tx_args w) of
        Some e \<Rightarrow> \<not> is_validator_banned (pe_offender e) l \<and> prevote_equivocation_proven E chain_id e l
      | None \<Rightarrow>
     (case decode_proposal_equivocation (tx_args w) of
        Some e \<Rightarrow> \<not> is_validator_banned (qe_offender e) l \<and> proposal_equivocation_proven E chain_id e l
      | None \<Rightarrow>
     (case decode_lock_violation (tx_args w) of
        Some e \<Rightarrow> \<not> is_validator_banned (lv_offender e) l \<and> lock_violation_proven E chain_id e l
      | None \<Rightarrow>
     (case decode_double_finality (tx_args w) of
        Some e \<Rightarrow>
          if \<not> double_finality_live chain_id l \<or> \<not> not_ahead (df_height e) l then False
          else (case double_finality_offenders E chain_id e l of
                  Some os \<Rightarrow> list_ex (\<lambda>a. \<not> is_validator_banned a l) os | None \<Rightarrow> False)
      | None \<Rightarrow>
     (case decode_equivocation (tx_args w) of
        None \<Rightarrow> False
      | Some e \<Rightarrow> \<not> is_validator_banned (eq_offender e) l \<and> equivocation_proven E chain_id e l)))))"

definition evidence_offender_is_slashable :: "wrapper \<Rightarrow> ledger \<Rightarrow> bool" where
  "evidence_offender_is_slashable w l \<longleftrightarrow>
     (case decode_double_finality (tx_args w) of
        Some e \<Rightarrow> list_ex (\<lambda>v. \<not> is_validator_banned (fv_signer v) l) (df_votes_a e)
      | None \<Rightarrow>
     (case decode_prevote_equivocation (tx_args w) of
        Some e \<Rightarrow> \<not> is_validator_banned (pe_offender e) l
      | None \<Rightarrow>
     (case decode_proposal_equivocation (tx_args w) of
        Some e \<Rightarrow> \<not> is_validator_banned (qe_offender e) l
      | None \<Rightarrow>
     (case decode_lock_violation (tx_args w) of
        Some e \<Rightarrow> \<not> is_validator_banned (lv_offender e) l
      | None \<Rightarrow>
     (case decode_equivocation (tx_args w) of
        Some e \<Rightarrow> \<not> is_validator_banned (eq_offender e) l | None \<Rightarrow> False)))))"

text \<open>The loop over the offenders of a double finality: \<^verbatim>\<open>slashed |= ledger.slash_validator\<close>.\<close>

primrec slash_each :: "bytes list \<Rightarrow> bool \<Rightarrow> ledger \<Rightarrow> (bool \<times> ledger) option" where
  "slash_each [] slashed l = Some (slashed, l)"
| "slash_each (a # as) slashed l = do { (s, l) \<leftarrow> slash_validator a l; slash_each as (slashed \<or> s) l }"

definition dispatch_evidence :: "externals \<Rightarrow> u64 \<Rightarrow> wrapper \<Rightarrow> ledger \<Rightarrow> (bool \<times> ledger) option" where
  "dispatch_evidence E chain_id w l =
     (case decode_double_finality (tx_args w) of
        Some e \<Rightarrow>
          if \<not> double_finality_live chain_id l \<or> \<not> not_ahead (df_height e) l then Some (False, l)
          else (case double_finality_offenders E chain_id e l of
                  None \<Rightarrow> Some (False, l) | Some os \<Rightarrow> slash_each os False l)
      | None \<Rightarrow>
     (case decode_prevote_equivocation (tx_args w) of
        Some e \<Rightarrow>
          if prevote_equivocation_proven E chain_id e l then slash_validator (pe_offender e) l else Some (False, l)
      | None \<Rightarrow>
     (case decode_proposal_equivocation (tx_args w) of
        Some e \<Rightarrow>
          if proposal_equivocation_proven E chain_id e l then slash_validator (qe_offender e) l else Some (False, l)
      | None \<Rightarrow>
     (case decode_lock_violation (tx_args w) of
        Some e \<Rightarrow>
          if lock_violation_proven E chain_id e l then slash_validator (lv_offender e) l else Some (False, l)
      | None \<Rightarrow>
     (case decode_equivocation (tx_args w) of
        None \<Rightarrow> Some (False, l)
      | Some e \<Rightarrow>
          if equivocation_proven E chain_id e l then slash_validator (eq_offender e) l else Some (False, l))))))"

section \<open>Guardians of the bridge\<close>

definition GUARDIAN_DOMAIN :: bytes where "GUARDIAN_DOMAIN = ascii ''QUANTOVA/Q/BRIDGE-GUARDIAN/v1''"
definition GUARDIAN_UNFREEZE :: u8 where "GUARDIAN_UNFREEZE = 0"
definition GUARDIAN_FREEZE :: u8 where "GUARDIAN_FREEZE = 1"
definition GUARDIAN_ENACT :: u8 where "GUARDIAN_ENACT = 2"
definition MAX_GUARDIAN_PAYLOAD :: nat where "MAX_GUARDIAN_PAYLOAD = 65536"
definition MAX_GUARDIAN_TARGETS :: nat where "MAX_GUARDIAN_TARGETS = 64"
definition MAX_GUARDIAN_APPROVALS :: nat where "MAX_GUARDIAN_APPROVALS = 64"

record guardian_approval =
  approval_scheme :: u8
  approval_key :: bytes
  approval_signature :: bytes

record guardian_act =
  act_op :: u8
  act_bound :: u64
  act_targets :: "bytes list"
  act_approvals :: "guardian_approval list"
  act_payload :: bytes

definition put_approval :: "guardian_approval \<Rightarrow> encoder \<Rightarrow> encoder" where
  "put_approval a = puts [put_u8 (approval_scheme a), put_bytes (approval_key a), put_bytes (approval_signature a)]"

definition encode_guardian_act :: "guardian_act \<Rightarrow> encoder \<Rightarrow> encoder" where
  "encode_guardian_act a = puts
     [put_u8 (act_op a), put_u64 (act_bound a), put_u32 (word_of_nat (length (act_targets a))),
      encode_each put_bytes (act_targets a), put_u32 (word_of_nat (length (act_approvals a))),
      encode_each put_approval (act_approvals a), put_bytes (act_payload a)]"

definition get_approval :: "guardian_approval decode" where
  "get_approval = dbind get_u8 (\<lambda>scheme. dbind get_bytes (\<lambda>pk. dbind get_bytes (\<lambda>sig.
     dret \<lparr>approval_scheme = scheme, approval_key = pk, approval_signature = sig\<rparr>)))"

definition get_guardian_act :: "guardian_act decode" where
  "get_guardian_act = dbind get_u8 (\<lambda>op. dbind get_u64 (\<lambda>bound. dbind get_u32 (\<lambda>target_count.
     if MAX_GUARDIAN_TARGETS < unat target_count then dfail dropped
     else dbind (decode_n get_word32 (unat target_count)) (\<lambda>targets. dbind get_u32 (\<lambda>approval_count.
     if MAX_GUARDIAN_APPROVALS < unat approval_count then dfail dropped
     else dbind (decode_n get_approval (unat approval_count)) (\<lambda>approvals. dbind get_bytes (\<lambda>payload.
     if MAX_GUARDIAN_PAYLOAD < length payload then dfail dropped
     else dret \<lparr>act_op = op, act_bound = bound, act_targets = targets, act_approvals = approvals,
       act_payload = payload\<rparr>)))))))"

definition decode_guardian_act :: "bytes \<Rightarrow> guardian_act option" where
  "decode_guardian_act = opened get_guardian_act"

definition guardian_challenge :: "u64 \<Rightarrow> bytes \<Rightarrow> guardian_act \<Rightarrow> bytes" where
  "guardian_challenge chain_id era a =
     le64 chain_id @ era @ [act_op a] @ le64 (act_bound a) @ le_of_nat 4 (length (act_targets a)) @
     concat (act_targets a) @ le_of_nat 4 (length (act_payload a)) @ act_payload a"

text \<open>No action is enacted through the guardian lane: the source answers None for every act.\<close>

definition guardian_enact_action :: "guardian_act \<Rightarrow> action option" where
  "guardian_enact_action a = None"

definition guardian_member_id :: "externals \<Rightarrow> u8 \<Rightarrow> bytes \<Rightarrow> bytes option" where
  "guardian_member_id E scheme pk =
     (case address_for_key (ext_hash E) scheme pk of Some a \<Rightarrow> address_id a | None \<Rightarrow> None)"

definition guardian_signature_ok :: "externals \<Rightarrow> u8 \<Rightarrow> bytes \<Rightarrow> bytes \<Rightarrow> bytes \<Rightarrow> bool" where
  "guardian_signature_ok E scheme pk message sig \<longleftrightarrow>
     (if scheme = SCHEME_LATTICE then
        (if length pk \<noteq> PUBLIC_KEY_BYTES (ext_dsa E) then False
         else if length sig \<noteq> SIGNATURE_BYTES (ext_dsa E) then False
         else ml_dsa_verify (ext_dsa E) pk message sig GUARDIAN_DOMAIN)
      else if scheme = SCHEME_HASH then
        (if length pk \<noteq> PUBLIC_KEY_BYTES (stateless (ext_tx E)) then False
         else ml_dsa_verify (stateless (ext_tx E)) pk message sig GUARDIAN_DOMAIN)
      else False)"

text \<open>The loop over the approvals, with the members attempted and the members verified so far.\<close>

fun approvers_loop :: "externals \<Rightarrow> guardian_set \<Rightarrow> bytes \<Rightarrow> guardian_approval list \<Rightarrow> bytes list \<Rightarrow> bytes list \<Rightarrow> bytes list" where
  "approvers_loop E s message [] attempted verified = verified"
| "approvers_loop E s message (a # as) attempted verified =
     (case guardian_member_id E (approval_scheme a) (approval_key a) of
        None \<Rightarrow> approvers_loop E s message as attempted verified
      | Some i \<Rightarrow>
          if i \<in> set attempted then approvers_loop E s message as attempted verified
          else let attempted = attempted @ [i] in
            if \<not> is_member s i then approvers_loop E s message as attempted verified
            else if guardian_signature_ok E (approval_scheme a) (approval_key a) message (approval_signature a)
              then approvers_loop E s message as attempted (verified @ [i])
              else approvers_loop E s message as attempted verified)"

definition guardian_approvers :: "externals \<Rightarrow> guardian_set \<Rightarrow> guardian_act \<Rightarrow> u64 \<Rightarrow> bytes \<Rightarrow> bytes list" where
  "guardian_approvers E s a chain_id era =
     approvers_loop E s (guardian_challenge chain_id era a) (act_approvals a) [] []"

definition bridge_era :: "ledger \<Rightarrow> bytes" where
  "bridge_era l =
     (case held l (Single BridgeEra) as_bytes of
        Some era \<Rightarrow> if length era = 32 then era else replicate 32 0 | None \<Rightarrow> replicate 32 0)"

definition bridge_dest_chain :: "ledger \<Rightarrow> u32 option" where
  "bridge_dest_chain l = held l (Single BridgeDestchain) as_u32"

definition is_bridge_guardian :: "externals \<Rightarrow> wrapper \<Rightarrow> bool" where
  "is_bridge_guardian E w \<longleftrightarrow> tx_target w = bridge_guardian_address (ext_hash E)"

definition act_current :: "guardian_act \<Rightarrow> ledger \<Rightarrow> bool" where
  "act_current a l \<longleftrightarrow> (case bridge_freeze l of Some f \<Rightarrow> freeze_until f = act_bound a | None \<Rightarrow> False)"

definition guardian_admissible :: "externals \<Rightarrow> wrapper \<Rightarrow> u64 \<Rightarrow> ledger \<Rightarrow> bool" where
  "guardian_admissible E w chain_id l \<longleftrightarrow>
     (let s = guardian_set l in
      if \<not> well_formed s then False
      else case decode_guardian_act (tx_args w) of
        None \<Rightarrow> False
      | Some a \<Rightarrow>
          (if act_op a = GUARDIAN_FREEZE then
             act_targets a \<noteq> [] \<and> act_bound a = guardian_freeze_epoch l \<and>
             \<not> list_ex (is_protected_account (ext_hash E)) (act_targets a)
           else if act_op a = GUARDIAN_UNFREEZE then act_current a l
           else if act_op a = GUARDIAN_ENACT then
             guardian_enact_action a \<noteq> None \<and> act_bound a = guardian_enact_nonce l
           else False) \<and>
          authorizes s (guardian_approvers E s a chain_id (bridge_era l)))"

definition guardian_act_is_current :: "wrapper \<Rightarrow> ledger \<Rightarrow> bool" where
  "guardian_act_is_current w l \<longleftrightarrow>
     (case decode_guardian_act (tx_args w) of
        None \<Rightarrow> False
      | Some a \<Rightarrow>
          if act_op a = GUARDIAN_FREEZE then act_bound a = guardian_freeze_epoch l
          else if act_op a = GUARDIAN_UNFREEZE then act_current a l
          else if act_op a = GUARDIAN_ENACT then act_bound a = guardian_enact_nonce l
          else False)"

definition dispatch_bridge_guardian :: "externals \<Rightarrow> wrapper \<Rightarrow> u64 \<Rightarrow> u64 \<Rightarrow> ledger \<Rightarrow> (bool \<times> ledger) option" where
  "dispatch_bridge_guardian E w chain_id now l =
     (let s = guardian_set l in
      if \<not> well_formed s then Some (False, l)
      else case decode_guardian_act (tx_args w) of
        None \<Rightarrow> Some (False, l)
      | Some a \<Rightarrow>
          let approvers = guardian_approvers E s a chain_id (bridge_era l) in
          if act_op a = GUARDIAN_FREEZE then
            Some (guardian_freeze (ext_hash E) (act_bound a) (act_targets a) approvers now l)
          else if act_op a = GUARDIAN_UNFREEZE then
            (if act_current a l then Some (guardian_bridge_unfreeze (ext_hash E) approvers now l) else Some (False, l))
          else if act_op a = GUARDIAN_ENACT then
            (case guardian_enact_action a of
               Some action \<Rightarrow>
                 if authorizes s approvers then Some (guardian_enact_bridge_action action (act_bound a) now l)
                 else Some (False, l)
             | None \<Rightarrow> Some (False, l))
          else Some (False, l))"

section \<open>Deposits, exits and settlements\<close>

definition is_bridge_mint :: "externals \<Rightarrow> wrapper \<Rightarrow> bool" where
  "is_bridge_mint E w \<longleftrightarrow> tx_target w = bridge_mint_address (ext_hash E)"

definition is_bridge_settle :: "externals \<Rightarrow> wrapper \<Rightarrow> bool" where
  "is_bridge_settle E w \<longleftrightarrow> tx_target w = bridge_settle_address (ext_hash E)"

definition is_bridge_exit :: "externals \<Rightarrow> wrapper \<Rightarrow> bool" where
  "is_bridge_exit E w \<longleftrightarrow> tx_target w = bridge_exit_address (ext_hash E)"

definition asset_is_trustlessly_anchored :: "bytes \<Rightarrow> ledger \<Rightarrow> bool" where
  "asset_is_trustlessly_anchored a l \<longleftrightarrow> False"

definition bridge_mint_fact :: "externals \<Rightarrow> wrapper \<Rightarrow> u64 \<Rightarrow> ledger \<Rightarrow> fact option" where
  "bridge_mint_fact E w chain_id l =
     (if \<not> bridge_federated_enabled l then None
      else do {
        artifact \<leftarrow> artifact_decode (tx_args w);
        dest_chain \<leftarrow> bridge_dest_chain l;
        ops \<leftarrow> bridge_operator_set l;
        if \<not> quorum_attests (ext_dsa E) ops (art_attestation artifact) dest_chain chain_id (bridge_era l) then None
        else let f = att_fact (art_attestation artifact) in
          if asset_is_trustlessly_anchored (fact_asset_id f) l then None
          else case bridged_asset (fact_asset_id f) l of
            Some asset \<Rightarrow> if requires_stark asset then None else Some f
          | None \<Rightarrow> Some f })"

definition MAX_BRIDGE_STARK_BYTES :: nat where "MAX_BRIDGE_STARK_BYTES = 1048576"

definition operator_count :: "ledger \<Rightarrow> nat" where
  "operator_count l = (case bridge_operator_set l of Some s \<Rightarrow> length (operators s) | None \<Rightarrow> 0)"

definition max_mint_artifact_bytes :: "externals \<Rightarrow> ledger \<Rightarrow> nat" where
  "max_mint_artifact_bytes E l =
     (let sig_frame = 4 + 2 + SIGNATURE_BYTES (ext_dsa E);
          attestation = 2 + FACT_ENCODED_LEN + 4 + min (operator_count l * sig_frame) (2 ^ 64 - 1);
          stark = 1 + 32 + 4 + MAX_BRIDGE_STARK_BYTES
      in 4 + attestation + 4 + stark)"

definition bridge_mint_source_key :: "wrapper \<Rightarrow> (u32 \<times> bytes) option" where
  "bridge_mint_source_key w = map_option (\<lambda>artifact.
     (source_chain (att_fact (art_attestation artifact)), source_ref (att_fact (art_attestation artifact))))
     (artifact_decode (tx_args w))"

definition mint_fits :: "externals \<Rightarrow> wrapper \<Rightarrow> ledger \<Rightarrow> bool" where
  "mint_fits E w l \<longleftrightarrow>
     (let base = max_mint_artifact_bytes E l;
          needs_stark = (case artifact_decode (tx_args w) of
              None \<Rightarrow> False
            | Some a \<Rightarrow> (case bridged_asset (fact_asset_id (att_fact (art_attestation a))) l of
                None \<Rightarrow> False | Some asset \<Rightarrow> requires_stark asset))
      in length (tx_args w) \<le> (if needs_stark then base else base - MAX_BRIDGE_STARK_BYTES))"

definition bridge_mint_still_live :: "wrapper \<Rightarrow> ledger \<Rightarrow> bool" where
  "bridge_mint_still_live w l \<longleftrightarrow>
     (case bridge_mint_source_key w of Some (c, r) \<Rightarrow> \<not> bridge_reference_seen c r l | None \<Rightarrow> True) \<and>
     (case artifact_decode (tx_args w) of
        None \<Rightarrow> False
      | Some artifact \<Rightarrow> let f = att_fact (art_attestation artifact) in
          \<not> asset_is_trustlessly_anchored (fact_asset_id f) l \<and> bridge_mint_would_apply f l)"

definition bridge_mint_admissible :: "externals \<Rightarrow> wrapper \<Rightarrow> u64 \<Rightarrow> ledger \<Rightarrow> bool" where
  "bridge_mint_admissible E w chain_id l \<longleftrightarrow>
     (if bridge_is_frozen l then False
      else if \<not> mint_fits E w l then False
      else case bridge_mint_source_key w of
        None \<Rightarrow> False
      | Some (c, r) \<Rightarrow>
          if bridge_reference_seen c r l then False
          else case artifact_decode (tx_args w) of
            None \<Rightarrow> False
          | Some artifact \<Rightarrow>
              if \<not> bridge_mint_would_apply (att_fact (art_attestation artifact)) l then False
              else case bridge_mint_fact E w chain_id l of
                None \<Rightarrow> False | Some f \<Rightarrow> bridge_mint_would_apply f l)"

definition dispatch_bridge_mint :: "externals \<Rightarrow> wrapper \<Rightarrow> u64 \<Rightarrow> ledger \<Rightarrow> (bool \<times> ledger) option" where
  "dispatch_bridge_mint E w chain_id l =
     (if bridge_is_frozen l \<or> \<not> mint_fits E w l then Some (False, l)
      else case bridge_mint_fact E w chain_id l of
        None \<Rightarrow> Some (False, l) | Some f \<Rightarrow> Some (bridge_mint f l))"

definition bridge_settle_fact :: "externals \<Rightarrow> wrapper \<Rightarrow> u64 \<Rightarrow> ledger \<Rightarrow> exit_fact option" where
  "bridge_settle_fact E w chain_id l = do {
     a \<leftarrow> exit_attestation_decode (tx_args w);
     dest_chain \<leftarrow> bridge_dest_chain l;
     ops \<leftarrow> bridge_operator_set l;
     if \<not> exit_quorum_attests (ext_dsa E) ops a dest_chain chain_id (bridge_era l) then None else Some (ack_fact a) }"

definition bridge_settle_burn_ref :: "wrapper \<Rightarrow> bytes option" where
  "bridge_settle_burn_ref w = map_option (\<lambda>a. burn_ref (ack_fact a)) (exit_attestation_decode (tx_args w))"

definition max_settle_artifact_bytes :: "externals \<Rightarrow> ledger \<Rightarrow> nat" where
  "max_settle_artifact_bytes E l =
     (let sig_frame = 4 + 2 + SIGNATURE_BYTES (ext_dsa E)
      in 2 + EXIT_FACT_ENCODED_LEN + 4 + min (operator_count l * sig_frame) (2 ^ 64 - 1))"

definition bridge_settle_admissible :: "externals \<Rightarrow> wrapper \<Rightarrow> u64 \<Rightarrow> ledger \<Rightarrow> bool" where
  "bridge_settle_admissible E w chain_id l \<longleftrightarrow>
     (if \<not> bridge_exits_enabled l then False
      else if bridge_is_frozen l then False
      else if max_settle_artifact_bytes E l < length (tx_args w) then False
      else case bridge_settle_fact E w chain_id l of
        None \<Rightarrow> False | Some f \<Rightarrow> \<not> bridge_exit_settled (burn_ref f) l)"

definition dispatch_bridge_settle :: "externals \<Rightarrow> wrapper \<Rightarrow> u64 \<Rightarrow> ledger \<Rightarrow> (bool \<times> ledger) option" where
  "dispatch_bridge_settle E w chain_id l =
     (if \<not> bridge_exits_enabled l then Some (False, l)
      else if max_settle_artifact_bytes E l < length (tx_args w) then Some (False, l)
      else if bridge_is_frozen l then Some (False, l)
      else case bridge_settle_fact E w chain_id l of
        None \<Rightarrow> Some (False, l)
      | Some f \<Rightarrow> (case exit_outcome f of
            Settle \<Rightarrow> Some (bridge_settle f l) | Slash \<Rightarrow> Some (bridge_slash f l)))"

definition bridge_exit_admissible ::
    "externals \<Rightarrow> fee_params \<Rightarrow> wrapper \<Rightarrow> account \<Rightarrow> bool \<Rightarrow> ledger \<Rightarrow> exit_request option" where
  "bridge_exit_admissible E p w a signature_ok l =
     (if \<not> is_bridge_exit E w then None
      else if \<not> bridge_exits_enabled l then None
      else if bridge_is_frozen l then None
      else if \<not> fee_lane_ok p w a signature_ok then None
      else do {
        r \<leftarrow> exit_request_decode (tx_args w);
        if bridged_asset (req_asset_id r) l = None then None
        else if req_amount r = 0 then None
        else let cap = bridge_exit_max_amount l in
        if cap = 0 \<or> cap < req_amount r then None
        else do {
          holder \<leftarrow> address_id (tx_sender (tx_body_of w));
          if bridged_balance (req_asset_id r) holder l < req_amount r then None else Some r }})"

definition dispatch_bridge_exit :: "externals \<Rightarrow> fee_params \<Rightarrow> wrapper \<Rightarrow> bool \<Rightarrow> ledger \<Rightarrow> (bool \<times> ledger) option" where
  "dispatch_bridge_exit E p w signature_ok l =
     (let sender = tx_sender (tx_body_of w) in
      if is_blacklisted sender l then Some (False, l)
      else if \<not> bridge_exits_enabled l then Some (False, l)
      else if bridge_is_frozen l then Some (False, l)
      else case bridge_exit_admissible E p w (account sender l) signature_ok l of
        None \<Rightarrow> Some (False, l)
      | Some r \<Rightarrow>
          let cap = bridge_exit_max_amount l in
          if cap = 0 \<or> cap < req_amount r then Some (False, l)
          else case address_id sender of
            None \<Rightarrow> Some (False, l)
          | Some holder \<Rightarrow>
              let charged = charged_fee p (tx_body_of w) in do {
              l \<leftarrow> pay (ext_hash E) sender charged charged l;
              Some (bridge_burn (ext_hash E) (req_asset_id r) holder (req_amount r) (req_destination r)
                (fee_chain_id p) (tx_nonce (tx_body_of w)) l) })"

section \<open>The feeless lanes and the validity of a transaction\<close>

definition is_feeless :: "externals \<Rightarrow> wrapper \<Rightarrow> bool" where
  "is_feeless E w \<longleftrightarrow> is_bridge_mint E w \<or> is_bridge_settle E w \<or> is_evidence E w \<or> is_bridge_guardian E w"

definition feeless_decodes :: "externals \<Rightarrow> wrapper \<Rightarrow> bool" where
  "feeless_decodes E w \<longleftrightarrow>
     (if is_evidence E w then
        decode_double_finality (tx_args w) \<noteq> None \<or> decode_prevote_equivocation (tx_args w) \<noteq> None \<or>
        decode_proposal_equivocation (tx_args w) \<noteq> None \<or> decode_lock_violation (tx_args w) \<noteq> None \<or>
        decode_equivocation (tx_args w) \<noteq> None
      else if is_bridge_guardian E w then decode_guardian_act (tx_args w) \<noteq> None
      else if is_bridge_mint E w then bridge_mint_source_key w \<noteq> None
      else if is_bridge_settle E w then exit_attestation_decode (tx_args w) \<noteq> None
      else False)"

text \<open>The first approval by a member decides; approvals by strangers are passed over.\<close>

fun first_member_signs :: "externals \<Rightarrow> guardian_set \<Rightarrow> bytes \<Rightarrow> guardian_approval list \<Rightarrow> bool" where
  "first_member_signs E s message [] \<longleftrightarrow> False"
| "first_member_signs E s message (a # as) \<longleftrightarrow>
     (case guardian_member_id E (approval_scheme a) (approval_key a) of
        None \<Rightarrow> first_member_signs E s message as
      | Some i \<Rightarrow>
          if is_member s i
          then guardian_signature_ok E (approval_scheme a) (approval_key a) message (approval_signature a)
          else first_member_signs E s message as)"

definition feeless_signed_by_a_member :: "externals \<Rightarrow> wrapper \<Rightarrow> u64 \<Rightarrow> ledger \<Rightarrow> bool" where
  "feeless_signed_by_a_member E w chain_id l \<longleftrightarrow>
     (let era = bridge_era l in
      if is_bridge_guardian E w then
        (case decode_guardian_act (tx_args w) of
           None \<Rightarrow> False
         | Some a \<Rightarrow> first_member_signs E (guardian_set l) (guardian_challenge chain_id era a) (act_approvals a))
      else case bridge_operator_set l of
        None \<Rightarrow> False
      | Some ops \<Rightarrow>
          if is_bridge_mint E w then
            (case artifact_decode (tx_args w) of
               None \<Rightarrow> False
             | Some artifact \<Rightarrow> let f = att_fact (art_attestation artifact) in
                 fact_well_formed f \<and> Some (fact_dest_chain f) = bridge_dest_chain l \<and>
                 first_operator_signs (ext_dsa E) ops (att_signatures (art_attestation artifact))
                   (attest_preimage f chain_id) era False)
          else if is_bridge_settle E w then
            (case exit_attestation_decode (tx_args w) of
               None \<Rightarrow> False
             | Some a \<Rightarrow> let f = ack_fact a in
                 exit_fact_well_formed f \<and> Some (exit_dest_chain f) = bridge_dest_chain l \<and>
                 first_operator_signs (ext_dsa E) ops (ack_signatures a) (ack_preimage f chain_id) era True)
          else False)"

definition MAX_VALIDITY_HORIZON :: u64 where "MAX_VALIDITY_HORIZON = 7200"

definition within_validity :: "u64 \<Rightarrow> u64 \<Rightarrow> bool" where
  "within_validity valid_until height \<longleftrightarrow>
     valid_until = 0 \<or> height \<le> valid_until \<and> valid_until - height \<le> MAX_VALIDITY_HORIZON"

definition validity_admits :: "externals \<Rightarrow> wrapper \<Rightarrow> u64 \<Rightarrow> bool" where
  "validity_admits E w height \<longleftrightarrow>
     (let valid_until = tx_valid_until (tx_body_of w) in
      if valid_until = 0 then
        \<not> (tx_chain_id (tx_body_of w) \<in> {TESTNET_CHAIN_ID, MAINNET_CHAIN_ID}) \<or> is_feeless E w \<or> is_registration E w
      else within_validity valid_until height)"

section \<open>Contracts\<close>

definition VM_BLOCK_METER_BUDGET :: u64 where "VM_BLOCK_METER_BUDGET = 50000000"
definition BLOCK_FRESH_LEAF_CEILING :: u64 where "BLOCK_FRESH_LEAF_CEILING = 220"
definition MAX_TX_METER :: u64 where "MAX_TX_METER = VM_BLOCK_METER_BUDGET div 4"
definition MAX_DEPLOY_METER :: u64 where "MAX_DEPLOY_METER = VM_BLOCK_METER_BUDGET"
definition MAX_REGISTRATION_BYTES :: nat where "MAX_REGISTRATION_BYTES = 4096"
definition MAX_VM_ARGS :: nat where "MAX_VM_ARGS = 131072"

definition is_deploy :: "externals \<Rightarrow> wrapper \<Rightarrow> bool" where
  "is_deploy E w \<longleftrightarrow> tx_target w = vm_deploy_address (ext_hash E)"

definition meter_ceiling :: "externals \<Rightarrow> wrapper \<Rightarrow> u64" where
  "meter_ceiling E w = (if is_deploy E w then MAX_DEPLOY_METER else MAX_TX_METER)"

definition vm_meter_fee :: "u64 \<Rightarrow> fee_params \<Rightarrow> u64" where
  "vm_meter_fee meter p = transfer_fee p"

definition vm_charge :: "u64 \<Rightarrow> fee_params \<Rightarrow> bool \<Rightarrow> u64" where
  "vm_charge meter p deploy =
     (let fee = vm_meter_fee meter p in if deploy then saturating_add fee (deploy_fee p) else fee)"

definition deploy_treasury_address :: "fee_params \<Rightarrow> bytes" where
  "deploy_treasury_address p = (case render_address (deploy_treasury p) of Some (Inr a) \<Rightarrow> a | _ \<Rightarrow> [])"

definition settle_deploy_fee :: "bytes \<Rightarrow> fee_params \<Rightarrow> u64 \<Rightarrow> bool \<Rightarrow> ledger \<Rightarrow> ledger" where
  "settle_deploy_fee sender p fee deployed l =
     (if fee = 0 then l
      else let payee = (if deployed then deploy_treasury_address p else sender); a = account payee l in
        set_account payee (a\<lparr>account_balance := saturating_add (account_balance a) fee\<rparr>) l)"

definition is_vm_op :: "externals \<Rightarrow> wrapper \<Rightarrow> bool" where
  "is_vm_op E w \<longleftrightarrow> tx_target w = vm_deploy_address (ext_hash E) \<or> is_call (tx_body_of w)"

definition vm_target_dispatchable :: "externals \<Rightarrow> wrapper \<Rightarrow> ledger \<Rightarrow> bool" where
  "vm_target_dispatchable E w l \<longleftrightarrow>
     (tx_target w = vm_deploy_address (ext_hash E) \<or> is_contract (tx_target w) l) \<and>
     \<not> is_blacklisted (tx_sender (tx_body_of w)) l \<and> \<not> is_blacklisted (tx_target w) l \<and>
     \<not> is_frozen (tx_target w) l \<and> \<not> (bridge_is_frozen l \<and> is_bridge_gateway (tx_target w) l)"

definition DEPLOY_PARAMS_TAG :: bytes where "DEPLOY_PARAMS_TAG = ascii ''QDEPLOY2''"
definition DEPLOY_MINT_TAG :: bytes where "DEPLOY_MINT_TAG = ascii ''QDEPMINT''"

definition split_mint_ceiling :: "bytes \<Rightarrow> u128 option \<times> bytes" where
  "split_mint_ceiling args =
     (if 24 \<le> length args \<and> take 8 args = DEPLOY_MINT_TAG
      then (Some (word_of_nat (be_nat (take 16 (drop 8 args)))), drop 24 args) else (None, args))"

definition split_deploy_args :: "bytes \<Rightarrow> bytes \<times> bytes" where
  "split_deploy_args args =
     (if 12 \<le> length args \<and> take 8 args = DEPLOY_PARAMS_TAG then
        let fin = 12 + be_nat (take 4 (drop 8 args)) in
        if fin \<le> length args then (drop 12 (take fin args), drop fin args) else (args, [])
      else (args, []))"

definition vm_memory_fits :: "externals \<Rightarrow> wrapper \<Rightarrow> bool" where
  "vm_memory_fits E w \<longleftrightarrow>
     (if is_deploy E w then CONTRACT_CONTEXT_BYTES + length (snd (split_deploy_args (tx_args w)))
      else length (tx_args w) - 4) \<le> MEM_BYTES (ext_vm E)"

definition vm_admissible :: "externals \<Rightarrow> fee_params \<Rightarrow> wrapper \<Rightarrow> account \<Rightarrow> bool \<Rightarrow> bool \<Rightarrow> bool" where
  "vm_admissible E p w a signature_ok deploy \<longleftrightarrow>
     (let b = tx_body_of w in
      if \<not> has_key a \<or> \<not> scheme_supported (tx_scheme w) \<or> \<not> signature_ok then False
      else if MAX_VM_ARGS < length (tx_args w) \<or> \<not> vm_memory_fits E w then False
      else if tx_nonce b \<noteq> account_nonce a \<or> tx_meter_limit b < TRANSFER_METER \<or> meter_ceiling E w < tx_meter_limit b
        then False
      else let charged = vm_charge (tx_meter_limit b) p deploy in
        if tx_fee b < ucast charged then False
        else saturating_add charged (if tx_in_asset b = None then tx_value b else 0) \<le> account_balance a)"

text \<open>
  \<^verbatim>\<open>run_vm\<close> deploys or calls.  Both run the machine inside an atomic application of their own; the
  result is the failure to report, if any.
\<close>

type_synonym vm_failure = "vm_rule \<times> u32 \<times> bytes \<times> bytes"

definition take_call_failure :: "vm_regs \<Rightarrow> (vm_rule \<times> u32) option \<times> vm_regs" where
  "take_call_failure r = (call_failure r, r\<lparr>call_failure := None\<rparr>)"

definition failed_call :: "bytes \<Rightarrow> bytes \<Rightarrow> vm_regs \<Rightarrow> vm_failure option \<times> vm_regs" where
  "failed_call contract sel r =
     (let (failure, r) = take_call_failure r;
          (rule, line) = (case failure of Some f \<Rightarrow> f | None \<Rightarrow> (Rule_BlockStateLimit, 0))
      in (Some (rule, line, contract, sel), r))"

definition run_deploy :: "externals \<Rightarrow> fee_params \<Rightarrow> bytes \<Rightarrow> bytes \<Rightarrow> u64 \<Rightarrow> u64 \<Rightarrow> u64 \<Rightarrow> bytes option \<Rightarrow> u64 \<Rightarrow> bool \<Rightarrow>
    vm_regs \<Rightarrow> ledger \<Rightarrow> vm_failure option \<times> vm_regs \<times> ledger" where
  "run_deploy E p sender args n meter v in_asset now legacy r l =
     (let H = ext_hash E; V = ext_vm E; genesis = GENESIS_SELECTOR V;
          predicted = (case contract_address H sender n of Some a \<Rightarrow> a | None \<Rightarrow> []);
          (mint_cap, framed) = split_mint_ceiling args;
          (code, params) = split_deploy_args framed;
          deploy_cost = deploy_meter_cost (length code)
      in if meter < deploy_cost then (Some (Rule_OutOfMeter, 0, predicted, genesis), arm_vm_meter meter r, l)
         else let r = arm_vm_meter_deploy deploy_cost r; mainnet = (fee_chain_id p = MAINNET_CHAIN_ID) in
         case deploy_contract_under H V (ext_dsa E) (ext_keys E) sender n code legacy mainnet l of
           (None, l) \<Rightarrow> (Some (Rule_DeployRejected, 0, predicted, genesis), r, l)
         | (Some contract, l) \<Rightarrow>
             let l = (case mint_cap of Some cap \<Rightarrow> snd (declare_mint_ceiling H contract cap l) | None \<Rightarrow> l);
                 memory = replicate CONTRACT_CONTEXT_BYTES 0 @ params;
                 (genesis_ok, r, l) = atomic_regs (run_genesis H V sender contract memory now
                    (saturating_sub meter deploy_cost) v in_asset (fee_chain_id p)) r l;
                 declares_genesis = (case decode_container V code of
                    Some c \<Rightarrow> list_ex (\<lambda>e. entry_selector e = genesis) (con_entries c) | None \<Rightarrow> False)
             in if declares_genesis \<and> \<not> genesis_ok then
                  let l = clear_contract_code H contract l;
                      (failure, r) = failed_call contract genesis (arm_vm_meter meter r)
                  in (failure, r, l)
                else (None, r, l))"

definition run_call :: "externals \<Rightarrow> fee_params \<Rightarrow> bytes \<Rightarrow> bytes \<Rightarrow> bytes \<Rightarrow> u64 \<Rightarrow> u64 \<Rightarrow> bytes option \<Rightarrow> u64 \<Rightarrow>
    vm_regs \<Rightarrow> ledger \<Rightarrow> vm_failure option \<times> vm_regs \<times> ledger" where
  "run_call E p sender target args meter v in_asset now r l =
     (if 4 \<le> length args then
        let sel = take 4 args in
        if sel = GENESIS_SELECTOR (ext_vm E) then (Some (Rule_GenesisCall, 0, target, sel), r, l)
        else let (call_ok, r, l) = atomic_regs (call_contract (ext_hash E) (ext_vm E) sender target sel (drop 4 args) now
                   meter v in_asset (fee_chain_id p)) r l
             in if call_ok then (None, r, l)
                else let (failure, r) = failed_call target sel r in (failure, r, l)
      else (Some (Rule_UnknownEntry, 0, target, [0, 0, 0, 0]), r, l))"

definition run_vm :: "externals \<Rightarrow> fee_params \<Rightarrow> bytes \<Rightarrow> bytes \<Rightarrow> bytes \<Rightarrow> u64 \<Rightarrow> u64 \<Rightarrow> u64 \<Rightarrow> bytes option \<Rightarrow> u64 \<Rightarrow> bool \<Rightarrow>
    vm_regs \<Rightarrow> ledger \<Rightarrow> vm_failure option \<times> vm_regs \<times> ledger" where
  "run_vm E p sender target args n meter v in_asset now legacy r l =
     (if target = vm_deploy_address (ext_hash E)
      then run_deploy E p sender args n meter v in_asset now legacy r l
      else run_call E p sender target args meter v in_asset now r l)"

definition legacy_vm_rules :: "fee_params \<Rightarrow> ledger \<Rightarrow> bool" where
  "legacy_vm_rules p l \<longleftrightarrow> \<not> gas_metered (for_chain (fee_chain_id p)) (execution_height l)"

definition note_call_failed :: "externals \<Rightarrow> bytes \<Rightarrow> vm_failure \<Rightarrow> ledger \<Rightarrow> ledger" where
  "note_call_failed E tx f l =
     (case f of (rule, line, contract, sel) \<Rightarrow>
        record_side_event (CallFailed tx contract sel (rule_code (ext_vm E) rule) line) l)"

text \<open>What follows the run: the deploy fee goes to the treasury or back, the unused fee is returned.\<close>

definition settle_vm :: "externals \<Rightarrow> fee_params \<Rightarrow> wrapper \<Rightarrow> u64 \<Rightarrow> u64 \<Rightarrow> bytes option \<Rightarrow> bool \<Rightarrow> vm_regs \<Rightarrow> ledger \<Rightarrow>
    bool option \<times> vm_regs \<times> ledger" where
  "settle_vm E p w network_fee deploy_part deployed_to legacy r l =
     (let sender = tx_sender (tx_body_of w); meter = tx_meter_limit (tx_body_of w);
          deployed = (case deployed_to of Some a \<Rightarrow> is_contract a l | None \<Rightarrow> False);
          l = settle_deploy_fee sender p deploy_part deployed l
      in if legacy then (Some True, r, l)
         else let used_fee = min (vm_meter_fee (min (vm_meter_charge r) meter) p) network_fee;
                  refund = network_fee - used_fee;
                  l = (if 0 < refund then
                         let a = account sender l in
                         set_account sender (a\<lparr>account_balance := saturating_add (account_balance a) refund\<rparr>) l
                       else l)
              in case collect_fee (ext_hash E) used_fee l of
                   None \<Rightarrow> (None, r, l) | Some l \<Rightarrow> (Some True, r, l))"

definition dispatch_vm :: "externals \<Rightarrow> fee_params \<Rightarrow> wrapper \<Rightarrow> bool \<Rightarrow> u64 \<Rightarrow> vm_regs \<Rightarrow> ledger \<Rightarrow>
    bool option \<times> vm_regs \<times> ledger" where
  "dispatch_vm E p w signature_ok now r l =
     (let b = tx_body_of w; sender = tx_sender b; target = tx_target w; a = account sender l; deploy = is_deploy E w in
      if is_blacklisted sender l then (Some False, r, l)
      else if bridge_is_frozen l \<and> is_bridge_gateway target l then (Some False, r, l)
      else if target \<noteq> vm_deploy_address (ext_hash E) \<and> \<not> is_contract target l then (Some False, r, l)
      else if \<not> vm_admissible E p w a signature_ok deploy then (Some False, r, l)
      else
        let r = arm_vm_meter (tx_meter_limit b) r;
            charged = vm_charge (tx_meter_limit b) p deploy;
            v = tx_value b; in_asset = tx_in_asset b
        in if account_balance a < saturating_add charged (if in_asset = None then v else 0) then (Some False, r, l)
        else case checked_add (account_nonce a) 1 of
          None \<Rightarrow> (None, r, l)
        | Some n \<Rightarrow>
            let l = set_account sender (a\<lparr>account_balance := account_balance a - charged, account_nonce := n\<rparr>) l;
                deploy_part = (if deploy then min (deploy_fee p) charged else 0);
                network_fee = charged - deploy_part;
                deployed_to = (if deploy then contract_address (ext_hash E) sender (account_nonce a) else None);
                legacy = legacy_vm_rules p l
            in case (if legacy then collect_fee (ext_hash E) network_fee l else Some l) of
                 None \<Rightarrow> (None, r, l)
               | Some l \<Rightarrow>
                   let (failed, r, l) = run_vm E p sender target (tx_args w) (account_nonce a) (tx_meter_limit b) v in_asset
                         now legacy r l;
                       l = (case failed of Some f \<Rightarrow> note_call_failed E (wrapper_id E w) f l | None \<Rightarrow> l)
                   in settle_vm E p w network_fee deploy_part deployed_to legacy r l)"

end
