(* ===== verification/Executor.thy ===== *)
theory Executor
  imports Lanes
begin

text \<open>
  The execution of a block.  The plan of a native transfer (\<^verbatim>\<open>src/crates/qtv-node/src/mempool.rs\<close>), the
  transfer itself (\<^verbatim>\<open>execution.rs\<close>), the verification of signatures, and \<^verbatim>\<open>execute_ordered_across\<close>
  (\<^verbatim>\<open>node.rs\<close>), which takes the candidates in order, applies each in its lane atomically, keeps the
  budgets of the block and reports the transactions included and the feeless ones refused.
\<close>

section \<open>The plan of a transfer\<close>

datatype reject =
    UnknownSender
  | UnsupportedScheme
  | BadSignature
  | BadNonce u64 u64
  | BadCall
  | SelfTransfer
  | ZeroTransfer
  | MeterLimitTooLow
  | FeeTooLow
  | Reject_InsufficientFunds
  | WrongChain
  | PoolFull
  | SenderQueueFull
  | RateLimited

record transfer_plan =
  plan_sender :: bytes
  plan_recipient :: bytes
  plan_amount :: u64
  plan_fee :: u64

definition chain_ok :: "fee_params \<Rightarrow> wrapper \<Rightarrow> bool" where
  "chain_ok p w \<longleftrightarrow> tx_chain_id (tx_body_of w) = fee_chain_id p \<and> addresses_parse (tx_body_of w)"

definition transfer_amount :: "tx_call \<Rightarrow> u64 option" where
  "transfer_amount c = opened get_u64 (call_args c)"

definition zero_value_target :: "externals \<Rightarrow> bytes \<Rightarrow> bool" where
  "zero_value_target E recipient \<longleftrightarrow>
     recipient \<in> set (map (\<lambda>f. f (ext_hash E)) [stake_claim_address, stake_exit_address, stake_withdraw_address,
       bridge_freeze_address, bridge_unfreeze_address])"

definition plan_from_account_checks :: "externals \<Rightarrow> fee_params \<Rightarrow> wrapper \<Rightarrow> account \<Rightarrow> reject + transfer_plan" where
  "plan_from_account_checks E p w a =
     (let b = tx_body_of w; sender = tx_sender b; recipient = tx_target w in
      if \<not> chain_ok p w then Inl WrongChain
      else if is_call b then Inl BadCall
      else if tx_nonce b \<noteq> account_nonce a then Inl (BadNonce (account_nonce a) (tx_nonce b))
      else if \<not> canonical_address sender then Inl UnknownSender
      else case transfer_amount (tx_call_of b) of
        None \<Rightarrow> Inl BadCall
      | Some amount \<Rightarrow>
          if \<not> canonical_address recipient then Inl BadCall
          else if recipient = sender then Inl SelfTransfer
          else if state_key (ext_hash E) sender = state_key (ext_hash E) recipient then Inl SelfTransfer
          else if amount = 0 \<and> \<not> zero_value_target E recipient then Inl ZeroTransfer
          else if tx_meter_limit b < TRANSFER_METER then Inl MeterLimitTooLow
          else if tx_fee b < ucast (transfer_fee p) then Inl FeeTooLow
          else let charged = charged_fee p b in
            case checked_add amount charged of
              None \<Rightarrow> Inl Reject_InsufficientFunds
            | Some debit \<Rightarrow>
                if account_balance a < debit then Inl Reject_InsufficientFunds
                else Inr \<lparr>plan_sender = sender, plan_recipient = recipient, plan_amount = amount, plan_fee = charged\<rparr>)"

definition plan_from_account :: "externals \<Rightarrow> fee_params \<Rightarrow> wrapper \<Rightarrow> account \<Rightarrow> reject + transfer_plan" where
  "plan_from_account E p w a =
     (if \<not> has_key a then Inl UnknownSender
      else if \<not> scheme_supported (tx_scheme w) then Inl UnsupportedScheme
      else case plan_from_account_checks E p w a of
        Inl e \<Rightarrow> Inl e
      | Inr plan \<Rightarrow> if \<not> sig_verify E w (account_public_key a) then Inl BadSignature else Inr plan)"

definition plan_verified :: "externals \<Rightarrow> fee_params \<Rightarrow> wrapper \<Rightarrow> account \<Rightarrow> bool \<Rightarrow> reject + transfer_plan" where
  "plan_verified E p w a signature_ok =
     (if \<not> scheme_supported (tx_scheme w) then Inl UnsupportedScheme
      else if \<not> signature_ok then Inl BadSignature
      else plan_from_account_checks E p w a)"

definition validate :: "externals \<Rightarrow> fee_params \<Rightarrow> wrapper \<Rightarrow> ledger \<Rightarrow> reject + transfer_plan" where
  "validate E p w l = plan_from_account E p w (account (tx_sender (tx_body_of w)) l)"

definition validate_verified :: "externals \<Rightarrow> fee_params \<Rightarrow> wrapper \<Rightarrow> bool \<Rightarrow> ledger \<Rightarrow> reject + transfer_plan" where
  "validate_verified E p w signature_ok l = plan_verified E p w (account (tx_sender (tx_body_of w)) l) signature_ok"

section \<open>The transfer\<close>

datatype exec_error = Exec_InsufficientFunds | Exec_MeterExhausted | Exec_Vm vm_fault | Exec_BadContainer

record transferred =
  sender_balance :: u64
  recipient_balance :: u64
  transfer_meter_used :: u64

definition SENDER_SLOT :: u64 where "SENDER_SLOT = 0"
definition RECIPIENT_SLOT :: u64 where "RECIPIENT_SLOT = 1"

definition execute_transfer :: "externals \<Rightarrow> u64 \<Rightarrow> u64 \<Rightarrow> u64 \<Rightarrow> u64 \<Rightarrow> u64 \<Rightarrow> exec_error + transferred" where
  "execute_transfer E sender recipient amount fee meter_limit =
     (let sender_key = ext_scalar_key E SENDER_SLOT; recipient_key = ext_scalar_key E RECIPIENT_SLOT;
          stored = (\<lambda>m k. case map_of m k of Some v \<Rightarrow> v | None \<Rightarrow> 0)
      in case ext_system_run E [amount, fee] meter_limit [(sender_key, sender), (recipient_key, recipient)]
             (sender_key @ recipient_key) of
        Inl fault \<Rightarrow> Inl (if fault = Fault_Overflow then Exec_InsufficientFunds
                       else if fault = Fault_OutOfMeter then Exec_MeterExhausted else Exec_Vm fault)
      | Inr (out, meter_used) \<Rightarrow> Inr \<lparr>sender_balance = stored out sender_key,
          recipient_balance = stored out recipient_key, transfer_meter_used = meter_used\<rparr>)"

definition native_transfer :: "externals \<Rightarrow> transfer_plan \<Rightarrow> u64 \<Rightarrow> ledger \<Rightarrow> (bool \<times> ledger) option" where
  "native_transfer E plan meter_limit l =
     (if plan_amount plan = 0 then Some (False, l)
      else let s = account (plan_sender plan) l; r = account (plan_recipient plan) l in
        case execute_transfer E (account_balance s) (account_balance r) (plan_amount plan) (plan_fee plan) meter_limit of
          Inl _ \<Rightarrow> Some (False, l)
        | Inr t \<Rightarrow> do {
            n \<leftarrow> checked_add (account_nonce s) 1;
            let l = set_account (plan_sender plan) (s\<lparr>account_balance := sender_balance t, account_nonce := n\<rparr>) l;
            let l = set_account (plan_recipient plan) (r\<lparr>account_balance := recipient_balance t\<rparr>) l;
            l \<leftarrow> collect_fee (ext_hash E) (plan_fee plan) l;
            Some (True, record_transfer_event (plan_sender plan) (plan_recipient plan) (plan_amount plan) (plan_fee plan) l) })"

section \<open>Signatures of a block\<close>

definition PARALLEL_VERIFY_THRESHOLD :: nat where "PARALLEL_VERIFY_THRESHOLD = 4"
definition MAX_HASH_SCHEME_PER_BLOCK :: nat where "MAX_HASH_SCHEME_PER_BLOCK = 128"

text \<open>The hash-based scheme is slow to verify: only the first such transactions of a block are admitted.\<close>

primrec hash_scheme_admitted :: "nat \<Rightarrow> wrapper list \<Rightarrow> bool list" where
  "hash_scheme_admitted n [] = []"
| "hash_scheme_admitted n (w # ws) =
     (if tx_scheme w = SCHEME_HASH then (Suc n \<le> MAX_HASH_SCHEME_PER_BLOCK) # hash_scheme_admitted (Suc n) ws
      else True # hash_scheme_admitted n ws)"

function chunks :: "nat \<Rightarrow> 'a list \<Rightarrow> 'a list list" where
  "chunks n xs = (if xs = [] then [] else take (max n 1) xs # chunks n (drop (max n 1) xs))"
  by pat_completeness auto
termination
  by (relation "measure (length \<circ> snd)") auto

definition verdict :: "externals \<Rightarrow> bool \<times> wrapper \<times> bytes \<Rightarrow> bool" where
  "verdict E x \<longleftrightarrow> (case x of (admit, w, key) \<Rightarrow> admit \<and> sig_verify E w key)"

text \<open>
  With several cores the source cuts verdicts, admissions, candidates and keys into chunks of the same
  size, one thread each; the verdicts of the threads are put side by side.
\<close>

definition verify_signatures :: "externals \<Rightarrow> wrapper list \<Rightarrow> nat \<Rightarrow> ledger \<Rightarrow> bool list" where
  "verify_signatures E candidates verify_cores l =
     (let keys = map (\<lambda>w. account_public_key (account (tx_sender (tx_body_of w)) l)) candidates;
          admitted = hash_scheme_admitted 0 candidates;
          work = zip admitted (zip candidates keys);
          cores = min verify_cores (length candidates)
      in if cores \<le> 1 \<or> length candidates < PARALLEL_VERIFY_THRESHOLD then map (verdict E) work
         else let chunk = (length candidates + cores - 1) div cores
              in concat (map (map (verdict E)) (chunks chunk work)))"

section \<open>The block\<close>

text \<open>
  A lane of the native ledger runs as a closure inside \<^verbatim>\<open>apply_atomic\<close>.  A panic leaves an arbitrary
  prefix of its edits behind, all of which the journal takes back.
\<close>

definition atomically :: "(ledger \<Rightarrow> (bool \<times> ledger) option) \<Rightarrow> ledger \<Rightarrow> bool \<times> ledger" where
  "atomically f = apply_atomic (\<lambda>l. case f l of Some (ok, l') \<Rightarrow> (Some ok, l') | None \<Rightarrow> (None, l))"

record attempt =
  attempt_before :: nat
  attempt_size :: nat
  attempt_feeless :: bool
  attempt_index :: nat

record exec_state =
  ex_ledger :: ledger
  ex_regs :: vm_regs
  ex_included :: "wrapper list"
  ex_vm_meter :: u64
  ex_sender_meter :: "(bytes, u64) fmap"
  ex_registrations :: nat
  ex_notes :: "bytes list"
  ex_room :: nat
  ex_refused :: "nat list"
  ex_attempt :: "attempt option"

definition settle_attempt :: "exec_state \<Rightarrow> exec_state" where
  "settle_attempt s =
     (case ex_attempt s of
        None \<Rightarrow> s
      | Some a \<Rightarrow>
          let s = s\<lparr>ex_attempt := None\<rparr> in
          if attempt_before a < length (ex_included s) then s\<lparr>ex_room := ex_room s - attempt_size a\<rparr>
          else if attempt_feeless a then s\<lparr>ex_refused := ex_refused s @ [attempt_index a]\<rparr>
          else s)"

definition take_in :: "wrapper \<Rightarrow> bool \<times> ledger \<Rightarrow> exec_state \<Rightarrow> exec_state" where
  "take_in w r s =
     (let s = s\<lparr>ex_ledger := snd r\<rparr> in if fst r then s\<lparr>ex_included := ex_included s @ [w]\<rparr> else s)"

definition PER_SENDER_VM_METER :: u64 where "PER_SENDER_VM_METER = VM_BLOCK_METER_BUDGET div 4"

definition set_current_tx :: "bytes \<Rightarrow> ledger \<Rightarrow> ledger" where
  "set_current_tx i l = l\<lparr>current_tx := i\<rparr>"

definition execute_contract_lane :: "externals \<Rightarrow> fee_params \<Rightarrow> u64 \<Rightarrow> bool \<Rightarrow> wrapper \<Rightarrow> exec_state \<Rightarrow> exec_state" where
  "execute_contract_lane E p now signature_ok w s =
     (let meter = tx_meter_limit (tx_body_of w); sender = tx_sender (tx_body_of w);
          sender_used = (case fmlookup (ex_sender_meter s) sender of Some u \<Rightarrow> u | None \<Rightarrow> 0)
      in if VM_BLOCK_METER_BUDGET < saturating_add (ex_vm_meter s) meter then s
         else if max PER_SENDER_VM_METER (meter_ceiling E w) < saturating_add sender_used meter then s
         else let (ran, r, l) = atomic_regs (dispatch_vm E p w signature_ok now) (ex_regs s)
                    (set_current_tx (wrapper_id E w) (ex_ledger s));
                  s = take_in w (ran, set_current_tx [] l) (s\<lparr>ex_regs := r\<rparr>)
              in if ran then let used = vm_meter_charge r in
                   s\<lparr>ex_vm_meter := saturating_add (ex_vm_meter s) used,
                     ex_sender_meter := fmupd sender (saturating_add sender_used used) (ex_sender_meter s)\<rparr>
                 else s)"

definition execute_registration :: "externals \<Rightarrow> nat \<Rightarrow> wrapper \<Rightarrow> exec_state \<Rightarrow> exec_state" where
  "execute_registration E registration_cap w s =
     (if tx_sender (tx_body_of w) = registration_address (ext_hash E) \<and>
         length (tx_args w) \<le> MAX_REGISTRATION_BYTES \<and> ex_registrations s < registration_cap \<and>
         tx_args w \<notin> set (ex_notes s)
      then s\<lparr>ex_notes := tx_args w # ex_notes s, ex_registrations := ex_registrations s + 1,
             ex_included := ex_included s @ [w]\<rparr>
      else s)"

definition execute_plan :: "externals \<Rightarrow> u64 \<Rightarrow> wrapper \<Rightarrow> transfer_plan \<Rightarrow> exec_state \<Rightarrow> exec_state" where
  "execute_plan E now w plan s =
     (let H = ext_hash E; day = now div 86400; sender = plan_sender plan; recipient = plan_recipient plan;
          fee = plan_fee plan; l = ex_ledger s
      in if recipient = stake_system_address H then
           take_in w (atomically (bond_with_fee H sender (plan_amount plan) fee day) l) s
         else if recipient = stake_claim_address H then take_in w (atomically (claim_with_fee H sender fee day) l) s
         else if recipient = stake_exit_address H then take_in w (atomically (request_exit_with_fee H sender fee day) l) s
         else if recipient = stake_withdraw_address H then take_in w (atomically (withdraw_with_fee H sender fee day) l) s
         else if recipient = bridge_freeze_address H then take_in w (atomically (bridge_freeze_with_fee H sender fee now) l) s
         else if recipient = bridge_unfreeze_address H then take_in w (atomically (bridge_unfreeze_with_fee H sender fee now) l) s
         else if is_blacklisted recipient l then s
         else take_in w (atomically (native_transfer E plan (tx_meter_limit (tx_body_of w))) l) s)"

definition execute_lane :: "externals \<Rightarrow> fee_params \<Rightarrow> u64 \<Rightarrow> nat \<Rightarrow> bool \<Rightarrow> wrapper \<Rightarrow> exec_state \<Rightarrow> exec_state" where
  "execute_lane E p now registration_cap signature_ok w s =
     (let l = ex_ledger s; chain = fee_chain_id p in
      if is_vm_op E w then execute_contract_lane E p now signature_ok w s
      else if tx_target w = gov_system_address (ext_hash E) then
        take_in w (atomically (dispatch_governance E p w signature_ok now) l) s
      else if is_key_register E w then take_in w (atomically (dispatch_key_register E p w) l) s
      else if is_stake_payee E w then take_in w (atomically (dispatch_stake_payee E p w signature_ok) l) s
      else if is_evidence E w then take_in w (atomically (dispatch_evidence E chain w) l) s
      else if is_bridge_guardian E w then take_in w (atomically (dispatch_bridge_guardian E w chain now) l) s
      else if is_bridge_mint E w then take_in w (atomically (dispatch_bridge_mint E w chain) l) s
      else if is_bridge_settle E w then take_in w (atomically (dispatch_bridge_settle E w chain) l) s
      else if is_bridge_exit E w then take_in w (atomically (dispatch_bridge_exit E p w signature_ok) l) s
      else if is_registration E w then execute_registration E registration_cap w s
      else case validate_verified E p w signature_ok l of
        Inl _ \<Rightarrow> s | Inr plan \<Rightarrow> execute_plan E now w plan s)"

text \<open>One candidate: the checks that apply in every lane, then its lane.\<close>

definition execute_one :: "externals \<Rightarrow> fee_params \<Rightarrow> u64 \<Rightarrow> nat \<Rightarrow> nat \<Rightarrow> bool \<Rightarrow> nat \<times> wrapper \<times> bool \<Rightarrow>
    exec_state \<Rightarrow> exec_state" where
  "execute_one E p now max_bytes registration_cap hard x s =
     (case x of (index, w, signature_ok) \<Rightarrow>
        let s = settle_attempt s;
            size = (if max_bytes = 2 ^ 64 - 1 then 0 else length (to_bytes encode_wrapper w))
        in if ex_room s < size then s
        else let s = s\<lparr>ex_attempt := Some \<lparr>attempt_before = length (ex_included s), attempt_size = size,
                       attempt_feeless = is_feeless E w, attempt_index = index\<rparr>\<rparr>;
                 l = ex_ledger s; b = tx_body_of w; target = tx_target w; sender = tx_sender b;
                 calling = is_vm_op E w
             in if tx_chain_id b \<noteq> fee_chain_id p then s
                else if hard \<and> \<not> addresses_parse b then s
                else if \<not> validity_admits E w (execution_height l) then s
                else if is_blacklisted sender l \<or> calling \<and> is_blacklisted target l then s
                else if (is_frozen sender l \<or> calling \<and> is_frozen target l) \<and> target \<noteq> gov_system_address (ext_hash E)
                  then s
                else execute_lane E p now registration_cap signature_ok w s)"

text \<open>
  \<^verbatim>\<open>execute_ordered_across\<close>: expiries first, the candidates in order, the session of the day last.  None
  is a panic outside the atomic lanes.
\<close>

definition execute_ordered_across :: "externals \<Rightarrow> fee_params \<Rightarrow> wrapper list \<Rightarrow> nat \<Rightarrow> u64 \<Rightarrow> nat \<Rightarrow> vm_regs \<Rightarrow> ledger \<Rightarrow>
    ((wrapper list \<times> nat list) \<times> vm_regs \<times> ledger) option" where
  "execute_ordered_across E p candidates verify_cores now max_bytes r l = do {
     let verified = verify_signatures E candidates verify_cores l;
     let l = guardian_expire (ext_hash E) now (bridge_expire (ext_hash E) now l);
     l \<leftarrow> guardian_apply_due_enact (ext_hash E) (ext_dsa E) now l;
     let registration_cap = max (length (validator_ids l)) 1 * 2;
     let l = l\<lparr>block_fresh_leaves := 0, fresh_leaf_ceiling := Some BLOCK_FRESH_LEAF_CEILING\<rparr>;
     let hard = hardened (for_chain (fee_chain_id p)) (execution_height l);
     let s = fold (execute_one E p now max_bytes registration_cap hard)
       (zip [0..<length candidates] (zip candidates verified))
       \<lparr>ex_ledger = l, ex_regs = r, ex_included = [], ex_vm_meter = 0, ex_sender_meter = fmempty, ex_registrations = 0,
        ex_notes = [], ex_room = max_bytes, ex_refused = [], ex_attempt = None\<rparr>;
     let s = settle_attempt s;
     let l = (ex_ledger s)\<lparr>fresh_leaf_ceiling := None\<rparr>;
     l \<leftarrow> settle_session (now div 86400) (word_of_nat (length (ex_included s))) l;
     Some ((ex_included s, ex_refused s), ex_regs s, l) }"

end
