(* ===== verification/LaneSafety.thy ===== *)
theory LaneSafety
  imports Executor
begin

text \<open>
  What the evidence lane does to validators: one whose key signs consistently is never slashed.
\<close>

section \<open>Honest validators\<close>

lemma slash_frame:
  assumes "slash_validator b l = Some (r, l')" and "address_id b \<noteq> Some i"
  shows "peek l' (StakeBond i) = peek l (StakeBond i)" and "peek l' (StakeBanned i) = peek l (StakeBanned i)"
    and "peek l' (StakeRewards i) = peek l (StakeRewards i)"
  using assms
  by (auto simp: slash_validator_def Let_def stake_writes event_defs debit_staked_def debit_supply_def set_total_supply_def
      split: option.splits if_splits bind_splits)

lemma attest_key_of_id: "address_id a = address_id b \<Longrightarrow> validator_attest_key a l = validator_attest_key b l"
  by (simp add: validator_attest_key_def)

lemma slash_each_frame:
  assumes "slash_each as s l = Some (r, l')" and "\<And>b. b \<in> set as \<Longrightarrow> address_id b \<noteq> Some i"
  shows "peek l' (StakeBond i) = peek l (StakeBond i) \<and> peek l' (StakeBanned i) = peek l (StakeBanned i) \<and>
    peek l' (StakeRewards i) = peek l (StakeRewards i)"
  using assms
proof (induction "as" arbitrary: s l)
  case (Cons a "as")
  then obtain b m where m: "slash_validator a l = Some (b, m)" and rec: "slash_each as (s \<or> b) m = Some (r, l')"
    by (auto split: bind_splits)
  show ?case
    using Cons.IH [OF rec] Cons.prems(2) slash_frame [OF m, of i] by auto
qed simp

text \<open>Evidence that convicts an address convicts its key, and a consistent key is never convicted.\<close>

lemmas decoders = decode_double_finality_def decode_prevote_equivocation_def decode_proposal_equivocation_def
  decode_lock_violation_def decode_equivocation_def

lemma cleared:
  assumes i: "address_id a = Some i" "validator_attest_key a l = Some pk"
    and M: "consistent (ext_bft E) (binding_of c l) M" "unforged (ext_dsa E) (ext_bft E) pk M"
    and b: "address_id b = Some i"
  shows "decode_equivocation bs = Some e1 \<Longrightarrow> eq_offender e1 = b \<Longrightarrow> \<not> equivocation_proven E c e1 l"
    and "decode_prevote_equivocation bs = Some e2 \<Longrightarrow> pe_offender e2 = b \<Longrightarrow> \<not> prevote_equivocation_proven E c e2 l"
    and "decode_proposal_equivocation bs = Some e3 \<Longrightarrow> qe_offender e3 = b \<Longrightarrow> \<not> proposal_equivocation_proven E c e3 l"
    and "decode_lock_violation bs = Some e4 \<Longrightarrow> lv_offender e4 = b \<Longrightarrow> \<not> lock_violation_proven E c e4 l"
    and "decode_double_finality bs = Some e5 \<Longrightarrow> double_finality_offenders E c e5 l = Some os \<Longrightarrow> b \<notin> set os"
proof -
  have key: "validator_attest_key b l = Some pk"
    using i b attest_key_of_id [of a b] by simp
  show "decode_equivocation bs = Some e1 \<Longrightarrow> eq_offender e1 = b \<Longrightarrow> \<not> equivocation_proven E c e1 l"
    using consistent_clears_equivocation [OF M] key
    by (auto simp: equivocation_proven_def decoders equivc.opened_iff)
  show "decode_prevote_equivocation bs = Some e2 \<Longrightarrow> pe_offender e2 = b \<Longrightarrow> \<not> prevote_equivocation_proven E c e2 l"
    using consistent_clears_prevotes [OF M] key
    by (auto simp: prevote_equivocation_proven_def decoders prevote_equivc.opened_iff)
  show "decode_proposal_equivocation bs = Some e3 \<Longrightarrow> qe_offender e3 = b \<Longrightarrow> \<not> proposal_equivocation_proven E c e3 l"
    using consistent_clears_proposals [OF M] key
    by (auto simp: proposal_equivocation_proven_def decoders proposal_equivc.opened_iff)
  show "decode_lock_violation bs = Some e4 \<Longrightarrow> lv_offender e4 = b \<Longrightarrow> \<not> lock_violation_proven E c e4 l"
    using consistent_clears_locks [OF M] key
    by (auto simp: lock_violation_proven_def decoders lockc.opened_iff)
  show "b \<notin> set os" if "decode_double_finality bs = Some e5" "double_finality_offenders E c e5 l = Some os"
    using offenders_double [OF that(2) [unfolded double_finality_offenders_def] _ _ key M] that(1)
    by (auto simp: decoders finalityc.opened_iff)
qed


text \<open>A validator whose key signs nothing, and a scheme that accepts the signatures of another key only.\<close>

definition demo_externals :: externals where
  "demo_externals = \<lparr>ext_hash = pad32,
     ext_tx = \<lparr>lattice = \<lparr>PUBLIC_KEY_BYTES = 1, SIGNATURE_BYTES = 1, ml_dsa_verify = (\<lambda>_ _ _ _. True)\<rparr>,
       stateless = \<lparr>PUBLIC_KEY_BYTES = 2, SIGNATURE_BYTES = 1, ml_dsa_verify = (\<lambda>_ _ _ _. True)\<rparr>, degenerate = (\<lambda>_. False)\<rparr>,
     ext_dsa = \<lparr>PUBLIC_KEY_BYTES = 1, SIGNATURE_BYTES = 1, ml_dsa_verify = (\<lambda>pk _ _ _. pk = [7])\<rparr>,
     ext_bft = \<lparr>block_bytes = (\<lambda>_ value _ _. value), digest_256 = (\<lambda>x. x), ATTEST_CONTEXT = []\<rparr>,
     ext_vm = demo_vm, ext_keys = \<lparr>verifier_key = [1], legacy_testnet_key = [2], mainnet_key = None\<rparr>,
     ext_genesis = Some (replicate 32 0), ext_scalar_key = (\<lambda>x. [ucast x]),
     ext_system_run = (\<lambda>consts _ store _. Inr (case (consts, store) of
        ([amount, fee], [(s, x), (r, y)]) \<Rightarrow> [(s, x - (amount + fee)), (r, y + amount)] | _ \<Rightarrow> [], 1))\<rparr>"

definition demo_validator :: ledger where
  "demo_validator = write_leaf (StakeAttest demo_id) (VBytes [8]) demo_bonded"

definition demo_accusation :: wrapper where
  "demo_accusation = \<lparr>tx_body_of = with_context demo_address 0 0 0 \<lparr>call_target = evidence_address pad32, call_args = [1, 2, 3]\<rparr> 0 1,
     tx_scheme = SCHEME_LATTICE, tx_signature = [0]\<rparr>"

lemma demo_garbage:
  "decode_double_finality [1, 2, 3] = None" "decode_prevote_equivocation [1, 2, 3] = None"
  "decode_proposal_equivocation [1, 2, 3] = None" "decode_lock_violation [1, 2, 3] = None"
  "decode_equivocation [1, 2, 3] = None"
  by (simp_all add: decoders opened_def from_bytes_def get_double_finality_def get_prevote_equivocation_def get_proposal_equivocation_def
      get_lock_violation_def get_equivocation_def expect_tag_def get_text_def get_bytes_def get_u64_def take_bytes_def dbind_def
      new_decoder_def remaining_def)


end
