(* ===== verification/Spec2Isabelle.thy ===== *)
theory Spec2Isabelle
  imports Codec Staking Governance Idfmt Events Bridge
    LedgerKeys LedgerState LedgerAccounts LedgerStake LedgerBridge LedgerGov
    Conservation LedgerInvariant LedgerSteps LedgerRuns LedgerService LedgerEnact LedgerAtomic Tx Evidence Contracts ContractSafety Lanes Executor LaneSafety
begin

text \<open>Quantova-Chain.\<close>

end
